(* ===== verification/Prelude.thy ===== *)
theory Prelude
  imports Main "HOL-Library.Word"
begin

text \<open>
  Shared ground of the development: the machine integer types of the C++ code, the reading of
  C++ \<open>char\<close> values as bytes, decimal printing (\<open>std::to_string\<close> and
  \<open>operator<<\<close> on unsigned integers), the exception and state monad the world thread code runs
  in, the theorem collections the components extend, and the list lemmas they share.
\<close>

section \<open>Theorem collections\<close>

named_theorems consume_length
  \<open>a successful parsing step leaves a shorter (or no longer) input\<close>

named_theorems enum_names
  \<open>the equations of the enum-to-name functions\<close>

named_theorems handler_defs
  \<open>the definitions of the request handlers, for unfolding one handler\<close>

section \<open>Machine integers\<close>

type_synonym uint8 = "8 word"
type_synonym uint16 = "16 word"
type_synonym uint32 = "32 word"
type_synonym uint64 = "64 word"

unbundle bit_operations_syntax

text \<open>\<open>static_cast\<close> between unsigned types truncates or extends with zeros: it is \<open>ucast\<close>.
  \<open>std::numeric_limits\<close> maxima, as values of the type they are compared in.\<close>

definition uint32_max :: uint64 where
  "uint32_max = 0xFFFFFFFF"

definition uint64_max :: uint64 where
  "uint64_max = 0xFFFFFFFFFFFFFFFF"

lemma uint64_le_max [simp]: "(x :: uint64) \<le> uint64_max"
proof -
  have "unat x < 2 ^ LENGTH(64)" by (rule unsigned_less)
  then show ?thesis by (simp add: uint64_max_def word_le_nat_alt)
qed

lemma unat_uint64_max [simp]: "unat uint64_max = 2 ^ 64 - 1"
  by (simp add: uint64_max_def)

lemma unat_uint32_max [simp]: "unat uint32_max = 2 ^ 32 - 1"
  by (simp add: uint32_max_def)

lemma unat_less_64: "unat (x :: uint64) < 18446744073709551616"
  using unsigned_less [of x] by simp

lemma unat_less_32: "unat (x :: uint32) < 4294967296"
  using unsigned_less [of x] by simp

lemma unat_less_8: "unat (x :: uint8) < 256"
  using unsigned_less [of x] by simp

lemma unat_ucast_64 [simp]: "unat (ucast (x :: uint32) :: uint64) = unat x"
  using unat_less_32 [of x] by (simp add: unsigned_ucast_eq take_bit_eq_mod)

lemma unat_ucast_32:
  assumes "(x :: uint64) \<le> uint32_max"
  shows "unat (ucast x :: uint32) = unat x"
proof -
  from assms have "unat x \<le> unat uint32_max"
    by (simp add: word_le_nat_alt)
  then have "unat x < 2 ^ 32" by simp
  then show ?thesis by (simp add: unsigned_ucast_eq take_bit_eq_mod)
qed

lemma ucast_32_64 [simp]: "(ucast (ucast (x :: uint32) :: uint64) :: uint32) = x"
  by (rule ucast_up_ucast_id) (simp add: is_up)

lemma ucast_64_32:
  assumes "(x :: uint64) \<le> uint32_max"
  shows "(ucast (ucast x :: uint32) :: uint64) = x"
  using unat_ucast_32 [OF assms] by (simp add: word_unat_eq_iff)

lemma ucast_32_le_max [simp]: "(ucast (x :: uint32) :: uint64) \<le> uint32_max"
  using unat_less_32 [of x] by (simp add: word_le_nat_alt)

lemma ucast_32_eq_0 [simp]: "(ucast (x :: uint32) :: uint64) = 0 \<longleftrightarrow> x = 0"
  by (simp add: word_unat_eq_iff)

lemma ucast_32_gt_0 [simp]: "0 < (ucast (x :: uint32) :: uint64) \<longleftrightarrow> x \<noteq> 0"
  by (simp add: word_gt_0)

section \<open>Bytes and characters\<close>

text \<open>A C++ \<open>char\<close> is one byte, and so is an Isabelle \<open>char\<close>; \<open>ord\<close> is its value as
  \<open>unsigned char\<close>. The range checks of the code (\<open>'0' <= c && c <= '9'\<close>) give the same answer for a
  signed and an unsigned \<open>char\<close>, since both bounds are below 128.\<close>

definition ord :: "char \<Rightarrow> nat" where
  "ord c = of_char c"

definition char_at :: "nat \<Rightarrow> char" where
  "char_at n = char_of n"

lemma ord_less [simp]: "ord c < 256"
  by (simp add: ord_def)

lemma char_at_ord [simp]: "char_at (ord c) = c"
  by (simp add: ord_def char_at_def)

lemma ord_char_at: "ord (char_at n) = n mod 256"
  by (simp add: ord_def char_at_def)

lemma ord_char_at_small [simp]: "n < 256 \<Longrightarrow> ord (char_at n) = n"
  by (simp add: ord_char_at)

lemma ord_inject [simp]: "ord c = ord d \<longleftrightarrow> c = d"
  by (metis char_at_ord)

definition is_digit_char :: "char \<Rightarrow> bool" where
  "is_digit_char c \<longleftrightarrow> 48 \<le> ord c \<and> ord c \<le> 57"

definition byte_of_char :: "char \<Rightarrow> uint8" where
  "byte_of_char c = of_nat (ord c)"

definition char_of_byte :: "uint8 \<Rightarrow> char" where
  "char_of_byte b = char_at (unat b)"

lemma char_of_byte_of_char [simp]: "char_of_byte (byte_of_char c) = c"
proof -
  have "unat (of_nat (ord c) :: uint8) = ord c"
    by (simp add: unsigned_of_nat take_bit_eq_mod)
  then show ?thesis by (simp add: char_of_byte_def byte_of_char_def)
qed

lemma byte_of_char_of_byte [simp]: "byte_of_char (char_of_byte b) = b"
  using unat_less_8 [of b] by (simp add: char_of_byte_def byte_of_char_def)

section \<open>Decimal printing\<close>

definition digit_char :: "nat \<Rightarrow> char" where
  "digit_char d = char_at (48 + d)"

fun to_string :: "nat \<Rightarrow> string" where
  "to_string n = (if n < 10 then [digit_char n] else to_string (n div 10) @ [digit_char (n mod 10)])"

declare to_string.simps [simp del]

definition digits_value :: "nat \<Rightarrow> string \<Rightarrow> nat" where
  "digits_value a s = foldl (\<lambda>v c. v * 10 + (ord c - 48)) a s"

lemma digits_value_simps [simp]:
  "digits_value a [] = a"
  "digits_value a (c # s) = digits_value (a * 10 + (ord c - 48)) s"
  by (simp_all add: digits_value_def)

lemma digits_value_append [simp]: "digits_value a (s @ t) = digits_value (digits_value a s) t"
  by (simp add: digits_value_def)

lemma digits_value_ge: "a \<le> digits_value a s"
proof (induction s arbitrary: a)
  case (Cons c s)
  have "a \<le> a * 10 + (ord c - 48)" by simp
  also have "\<dots> \<le> digits_value (a * 10 + (ord c - 48)) s" by (rule Cons.IH)
  finally show ?case by simp
qed simp

lemma ord_digit_char [simp]: "d < 10 \<Longrightarrow> ord (digit_char d) = 48 + d"
  by (simp add: digit_char_def)

lemma is_digit_digit_char [simp]: "d < 10 \<Longrightarrow> is_digit_char (digit_char d)"
  by (simp add: is_digit_char_def)

lemma to_string_nonempty [simp]: "to_string n \<noteq> []"
  by (subst to_string.simps) simp

lemma to_string_digits: "list_all is_digit_char (to_string n)"
proof (induction n rule: to_string.induct)
  case (1 n)
  then show ?case
    by (subst to_string.simps) auto
qed

lemma digits_value_to_string [simp]: "digits_value 0 (to_string n) = n"
proof (induction n rule: to_string.induct)
  case (1 n)
  show ?case
  proof (cases "n < 10")
    case True
    then show ?thesis by (subst to_string.simps) simp
  next
    case False
    with 1 have "digits_value 0 (to_string (n div 10)) = n div 10" by simp
    with False show ?thesis by (subst to_string.simps) simp
  qed
qed

lemma length_to_string: "n < 10 ^ Suc k \<Longrightarrow> length (to_string n) \<le> Suc k"
proof (induction k arbitrary: n)
  case 0
  then show ?case by (subst to_string.simps) simp
next
  case (Suc k)
  show ?case
  proof (cases "n < 10")
    case True
    then show ?thesis by (subst to_string.simps) simp
  next
    case False
    from Suc.prems have "n div 10 < 10 ^ Suc k"
      by (simp add: less_mult_imp_div_less mult.commute)
    then have "length (to_string (n div 10)) \<le> Suc k" by (rule Suc.IH)
    with False show ?thesis by (subst to_string.simps) simp
  qed
qed

lemma length_to_string_uint64: "length (to_string (unat (x :: uint64))) \<le> 20"
proof -
  have "unat x < 2 ^ 64" using unat_less_64 [of x] by simp
  also have "(2 :: nat) ^ 64 \<le> 10 ^ Suc 19" by simp
  finally show ?thesis using length_to_string [of "unat x" 19] by simp
qed

lemma to_string_inject [simp]: "to_string m = to_string n \<longleftrightarrow> m = n"
  by (metis digits_value_to_string)

section \<open>Exceptions and state\<close>

text \<open>
  A computation of the world thread takes the world and returns the world after it, with either a
  thrown exception or a value. Reads are plain functions of the world; only the calls that change
  the world or may throw are sequenced with \<open>bindE\<close>.
\<close>

datatype exn = StdException string | OtherException

type_synonym ('w, 'a) comp = "'w \<Rightarrow> (exn + 'a) \<times> 'w"

definition returnE :: "'a \<Rightarrow> ('w, 'a) comp" where
  "returnE x = (\<lambda>w. (Inr x, w))"

definition bindE :: "('w, 'a) comp \<Rightarrow> ('a \<Rightarrow> ('w, 'b) comp) \<Rightarrow> ('w, 'b) comp" where
  "bindE m f = (\<lambda>w. case m w of (Inl e, w') \<Rightarrow> (Inl e, w') | (Inr x, w') \<Rightarrow> f x w')"

definition readE :: "('w \<Rightarrow> 'a) \<Rightarrow> ('w, 'a) comp" where
  "readE f = (\<lambda>w. (Inr (f w), w))"

lemma returnE_apply [simp]: "returnE x w = (Inr x, w)"
  by (simp add: returnE_def)

lemma readE_apply [simp]: "readE f w = (Inr (f w), w)"
  by (simp add: readE_def)

lemma bindE_returnE [simp]: "bindE (returnE x) f = f x"
  by (simp add: bindE_def returnE_def fun_eq_iff)

lemma bindE_readE [simp]: "bindE (readE g) f = (\<lambda>w. f (g w) w)"
  by (simp add: bindE_def readE_def fun_eq_iff)

lemma bindE_assoc: "bindE (bindE m f) g = bindE m (\<lambda>x. bindE (f x) g)"
  by (auto simp: bindE_def fun_eq_iff split: sum.splits prod.splits)

section \<open>Lists\<close>

lemma takeWhile_digits_append:
  assumes "list_all P xs" and "ys = [] \<or> \<not> P (hd ys)"
  shows "takeWhile P (xs @ ys) = xs" and "dropWhile P (xs @ ys) = ys"
  using assms by (induction xs) (cases ys; auto)+

lemma length_dropWhile_le' [consume_length]: "length (dropWhile P s) \<le> length s"
  by (induction s) auto

end
