(* ===== verification/Protocol_Types.thy ===== *)
theory Protocol_Types
  imports Prelude
begin

text \<open>
  The data of the verification protocol (\<open>PlayerbotVerificationProtocol.h\<close>): the limits, the
  enumerations with the wire names \<open>PlayerbotVerificationProtocol.cpp\<close> gives them, the error table
  \<open>MakeError\<close>, and the structures that travel between the socket thread and the world thread. C++
  scoped enumerators \<open>ErrorCode::X\<close> are written \<open>EC_X\<close>, \<open>Operation::X\<close> as \<open>Op_X\<close>, and so on. A
  \<open>float\<close> is kept as its 32 bits: the protocol code only copies and prints it.
\<close>

section \<open>Limits\<close>

definition SCHEMA_VERSION :: uint32 where "SCHEMA_VERSION = 2"
definition FRAME_HEADER_BYTES :: nat where "FRAME_HEADER_BYTES = 4"
definition MAX_FRAME_PAYLOAD_BYTES :: nat where "MAX_FRAME_PAYLOAD_BYTES = 64 * 1024"
definition MAX_RESPONSE_PAYLOAD_BYTES :: nat where "MAX_RESPONSE_PAYLOAD_BYTES = 60 * 1024"
definition MIN_TOKEN_BYTES :: nat where "MIN_TOKEN_BYTES = 32"
definition TOKEN_DIGEST_BYTES :: nat where "TOKEN_DIGEST_BYTES = 32"
definition MAX_LIST_LIMIT :: uint32 where "MAX_LIST_LIMIT = 100"
definition MAX_ANOMALY_LIMIT :: uint32 where "MAX_ANOMALY_LIMIT = 50"
definition SKILL_RANK_STEP :: uint32 where "SKILL_RANK_STEP = 75"
definition MAX_SKILL_MAXIMUM :: uint32 where "MAX_SKILL_MAXIMUM = 450"
definition MAX_ACTIVITY_LEASE_SECONDS :: uint32 where "MAX_ACTIVITY_LEASE_SECONDS = 45 * 60"
definition ACTIVITY_LEASE_TOKEN_HEX_LENGTH :: nat where "ACTIVITY_LEASE_TOKEN_HEX_LENGTH = 32"

lemmas protocol_limits =
  SCHEMA_VERSION_def FRAME_HEADER_BYTES_def MAX_FRAME_PAYLOAD_BYTES_def
  MAX_RESPONSE_PAYLOAD_BYTES_def MIN_TOKEN_BYTES_def TOKEN_DIGEST_BYTES_def MAX_LIST_LIMIT_def
  MAX_ANOMALY_LIMIT_def SKILL_RANK_STEP_def MAX_SKILL_MAXIMUM_def MAX_ACTIVITY_LEASE_SECONDS_def
  ACTIVITY_LEASE_TOKEN_HEX_LENGTH_def

section \<open>Errors\<close>

datatype ErrorCode =
    EC_None
  | EC_MalformedFrame
  | EC_FrameTooLarge
  | EC_MalformedRequest
  | EC_AuthenticationFailed
  | EC_UnsupportedSchemaVersion
  | EC_UnknownOperation
  | EC_InvalidGuid
  | EC_InvalidLimit
  | EC_InvalidCommand
  | EC_CommandRefused
  | EC_InvalidCondition
  | EC_UnsupportedDestination
  | EC_ResponseTooLarge
  | EC_OperationUnavailable
  | EC_QueueFull
  | EC_Timeout
  | EC_Shutdown
  | EC_BotNotFound
  | EC_BotUnavailable
  | EC_NotManagedPlayerbot
  | EC_RecoveryFailed
  | EC_MasterNotFound
  | EC_MasterIsBot
  | EC_InvalidRelationship
  | EC_InvalidSkill
  | EC_GameObjectNotFound
  | EC_NotRandomBot
  | EC_InvalidActivityLease
  | EC_ActivityLeaseConflict
  | EC_InternalError

record ProtocolError =
  error_code :: ErrorCode
  error_message :: string

primrec MakeError :: "ErrorCode \<Rightarrow> ProtocolError" where
    "MakeError EC_MalformedFrame = ProtocolError.make EC_MalformedFrame ''The frame is malformed.''"
  | "MakeError EC_FrameTooLarge = ProtocolError.make EC_FrameTooLarge ''The frame exceeds the 64 KiB limit.''"
  | "MakeError EC_MalformedRequest = ProtocolError.make EC_MalformedRequest ''The request schema is malformed.''"
  | "MakeError EC_AuthenticationFailed = ProtocolError.make EC_AuthenticationFailed ''Authentication failed.''"
  | "MakeError EC_UnsupportedSchemaVersion = ProtocolError.make EC_UnsupportedSchemaVersion ''The schema version is unsupported.''"
  | "MakeError EC_UnknownOperation = ProtocolError.make EC_UnknownOperation ''The operation is unknown.''"
  | "MakeError EC_InvalidGuid = ProtocolError.make EC_InvalidGuid ''A player GUID is invalid.''"
  | "MakeError EC_InvalidLimit = ProtocolError.make EC_InvalidLimit ''The list limit must be from 1 through 100.''"
  | "MakeError EC_InvalidCommand = ProtocolError.make EC_InvalidCommand ''The command is invalid.''"
  | "MakeError EC_CommandRefused = ProtocolError.make EC_CommandRefused ''The command is refused: process lifecycle and account administration are outside this bridge. Run it at the worldserver console instead.''"
  | "MakeError EC_InvalidCondition = ProtocolError.make EC_InvalidCondition ''The check condition is invalid.''"
  | "MakeError EC_UnsupportedDestination = ProtocolError.make EC_UnsupportedDestination ''The recovery destination is unsupported.''"
  | "MakeError EC_ResponseTooLarge = ProtocolError.make EC_ResponseTooLarge ''The response exceeds the aggregate budget.''"
  | "MakeError EC_OperationUnavailable = ProtocolError.make EC_OperationUnavailable ''The operation is unavailable.''"
  | "MakeError EC_QueueFull = ProtocolError.make EC_QueueFull ''The world operation queue is full.''"
  | "MakeError EC_Timeout = ProtocolError.make EC_Timeout ''The world operation timed out.''"
  | "MakeError EC_Shutdown = ProtocolError.make EC_Shutdown ''The verification server is shutting down.''"
  | "MakeError EC_BotNotFound = ProtocolError.make EC_BotNotFound ''The bot is not available.''"
  | "MakeError EC_BotUnavailable = ProtocolError.make EC_BotUnavailable ''The bot cannot be recovered in its current state.''"
  | "MakeError EC_NotManagedPlayerbot = ProtocolError.make EC_NotManagedPlayerbot ''The player is not a managed Playerbot.''"
  | "MakeError EC_RecoveryFailed = ProtocolError.make EC_RecoveryFailed ''The recovery operation failed.''"
  | "MakeError EC_MasterNotFound = ProtocolError.make EC_MasterNotFound ''The master is not available.''"
  | "MakeError EC_MasterIsBot = ProtocolError.make EC_MasterIsBot ''The master must be a real player.''"
  | "MakeError EC_InvalidRelationship = ProtocolError.make EC_InvalidRelationship ''The master relationship is invalid.''"
  | "MakeError EC_InvalidSkill = ProtocolError.make EC_InvalidSkill ''The skill value or maximum is invalid.''"
  | "MakeError EC_GameObjectNotFound = ProtocolError.make EC_GameObjectNotFound (''No spawned gameobject with that entry exists on the bot'' @ CHR 0x27 # ''s map.'')"
  | "MakeError EC_NotRandomBot = ProtocolError.make EC_NotRandomBot ''The player is not an online random bot.''"
  | "MakeError EC_InvalidActivityLease = ProtocolError.make EC_InvalidActivityLease ''The activity lease is malformed or outside its bounds.''"
  | "MakeError EC_ActivityLeaseConflict = ProtocolError.make EC_ActivityLeaseConflict (''Another owner holds the bot'' @ CHR 0x27 # ''s active activity lease.'')"
  | "MakeError EC_InternalError = ProtocolError.make EC_InternalError ''The operation failed internally.''"
  | "MakeError EC_None = ProtocolError.make EC_None []"

primrec ErrorCodeName :: "ErrorCode \<Rightarrow> string" where
    "ErrorCodeName EC_None = ''none''"
  | "ErrorCodeName EC_MalformedFrame = ''malformed_frame''"
  | "ErrorCodeName EC_FrameTooLarge = ''frame_too_large''"
  | "ErrorCodeName EC_MalformedRequest = ''malformed_request''"
  | "ErrorCodeName EC_AuthenticationFailed = ''authentication_failed''"
  | "ErrorCodeName EC_UnsupportedSchemaVersion = ''unsupported_schema_version''"
  | "ErrorCodeName EC_UnknownOperation = ''unknown_operation''"
  | "ErrorCodeName EC_InvalidGuid = ''invalid_guid''"
  | "ErrorCodeName EC_InvalidLimit = ''invalid_limit''"
  | "ErrorCodeName EC_InvalidCommand = ''invalid_command''"
  | "ErrorCodeName EC_CommandRefused = ''command_refused''"
  | "ErrorCodeName EC_InvalidCondition = ''invalid_condition''"
  | "ErrorCodeName EC_UnsupportedDestination = ''unsupported_destination''"
  | "ErrorCodeName EC_ResponseTooLarge = ''response_too_large''"
  | "ErrorCodeName EC_OperationUnavailable = ''operation_unavailable''"
  | "ErrorCodeName EC_QueueFull = ''queue_full''"
  | "ErrorCodeName EC_Timeout = ''timeout''"
  | "ErrorCodeName EC_Shutdown = ''shutdown''"
  | "ErrorCodeName EC_BotNotFound = ''bot_not_found''"
  | "ErrorCodeName EC_BotUnavailable = ''bot_unavailable''"
  | "ErrorCodeName EC_NotManagedPlayerbot = ''not_managed_playerbot''"
  | "ErrorCodeName EC_RecoveryFailed = ''recovery_failed''"
  | "ErrorCodeName EC_MasterNotFound = ''master_not_found''"
  | "ErrorCodeName EC_MasterIsBot = ''master_is_bot''"
  | "ErrorCodeName EC_InvalidRelationship = ''invalid_relationship''"
  | "ErrorCodeName EC_InvalidSkill = ''invalid_skill''"
  | "ErrorCodeName EC_GameObjectNotFound = ''gameobject_not_found''"
  | "ErrorCodeName EC_NotRandomBot = ''not_random_bot''"
  | "ErrorCodeName EC_InvalidActivityLease = ''invalid_activity_lease''"
  | "ErrorCodeName EC_ActivityLeaseConflict = ''activity_lease_conflict''"
  | "ErrorCodeName EC_InternalError = ''internal_error''"

section \<open>Operations and requests\<close>

datatype Operation =
    Op_Status
  | Op_List
  | Op_Inspect
  | Op_Anomalies
  | Op_Check
  | Op_Command
  | Op_Recover
  | Op_SetSkill
  | Op_TeleportToGameObject
  | Op_HoldActivity
  | Op_InspectActivityLease
  | Op_ReleaseActivity
  | Op_GmCommand
  | Op_ReloadConfig

text \<open>\<open>std::map<std::string, V>\<close> with its \<open>operator[]\<close> stores and \<open>find\<close> reads.\<close>

record Request =
  requestId :: uint64
  operation :: Operation
  botGuid :: uint32
  masterGuid :: uint32
  afterGuid :: uint32
  limit :: uint32
  command :: string
  condition :: string
  destination :: string
  numbers :: "string \<rightharpoonup> uint64"
  strings :: "string \<rightharpoonup> string"

definition empty_request :: Request where
  "empty_request = \<lparr>requestId = 0, operation = Op_Status, botGuid = 0, masterGuid = 0, afterGuid = 0,
     limit = 0, command = [], condition = [], destination = [], numbers = Map.empty, strings = Map.empty\<rparr>"

record RequestParseResult =
  request :: "Request option"
  responseRequestId :: uint64
  parse_error :: ProtocolError

section \<open>Recovery audit data\<close>

datatype RecoveryDestination =
    RD_Missing
  | RD_Homebind
  | RD_Unsupported

primrec RecoveryDestinationName :: "RecoveryDestination \<Rightarrow> string" where
    "RecoveryDestinationName RD_Missing = ''missing''"
  | "RecoveryDestinationName RD_Homebind = ''homebind''"
  | "RecoveryDestinationName RD_Unsupported = ''unsupported''"

datatype RecoveryOutcome =
    RO_Recovered
  | RO_AlreadyAtHomebind
  | RO_InvalidRequest
  | RO_Unauthorized
  | RO_BotNotFound
  | RO_BotNotAvailable
  | RO_NotManagedPlayerbot
  | RO_UnsupportedDestination
  | RO_RecoveryFailed
  | RO_RecoveryTimedOut

primrec RecoveryOutcomeName :: "RecoveryOutcome \<Rightarrow> string" where
    "RecoveryOutcomeName RO_Recovered = ''recovered''"
  | "RecoveryOutcomeName RO_AlreadyAtHomebind = ''already_at_homebind''"
  | "RecoveryOutcomeName RO_InvalidRequest = ''invalid_request''"
  | "RecoveryOutcomeName RO_Unauthorized = ''unauthorized''"
  | "RecoveryOutcomeName RO_BotNotFound = ''bot_not_found''"
  | "RecoveryOutcomeName RO_BotNotAvailable = ''bot_not_available''"
  | "RecoveryOutcomeName RO_NotManagedPlayerbot = ''not_managed_playerbot''"
  | "RecoveryOutcomeName RO_UnsupportedDestination = ''unsupported_destination''"
  | "RecoveryOutcomeName RO_RecoveryFailed = ''recovery_failed''"
  | "RecoveryOutcomeName RO_RecoveryTimedOut = ''recovery_timed_out''"

datatype RecoveryReason =
    RR_HomebindTeleportAccepted
  | RR_CurrentHomebind
  | RR_PendingHomebind
  | RR_MalformedRequest
  | RR_InvalidGuid
  | RR_UnsupportedSchema
  | RR_UnknownOperation
  | RR_InvalidToolInput
  | RR_AuthenticationFailed
  | RR_CharacterNotFound
  | RR_CharacterOffline
  | RR_CharacterNotInWorld
  | RR_Dead
  | RR_InCombat
  | RR_Rooted
  | RR_InFlight
  | RR_BattlegroundQueue
  | RR_Battleground
  | RR_Arena
  | RR_OnTransport
  | RR_TeleportInProgress
  | RR_PlayerbotAiMissing
  | RR_DestinationNotHomebind
  | RR_InvalidHomebind
  | RR_TeleportRejected
  | RR_OperationUnavailable
  | RR_QueueFull
  | RR_ShuttingDown
  | RR_InternalError
  | RR_ResponseTooLarge
  | RR_AdapterConfiguration
  | RR_ServerUnreachable
  | RR_ProtocolMismatch
  | RR_InvalidServerResponse
  | RR_QueueTimeoutBeforeClaim
  | RR_ExecutionTimeoutAfterClaim
  | RR_ClientLockTimeout
  | RR_SocketTimeout
  | RR_ResponseTimeout

primrec RecoveryReasonName :: "RecoveryReason \<Rightarrow> string" where
    "RecoveryReasonName RR_HomebindTeleportAccepted = ''homebind_teleport_accepted''"
  | "RecoveryReasonName RR_CurrentHomebind = ''current_homebind''"
  | "RecoveryReasonName RR_PendingHomebind = ''pending_homebind''"
  | "RecoveryReasonName RR_MalformedRequest = ''malformed_request''"
  | "RecoveryReasonName RR_InvalidGuid = ''invalid_guid''"
  | "RecoveryReasonName RR_UnsupportedSchema = ''unsupported_schema''"
  | "RecoveryReasonName RR_UnknownOperation = ''unknown_operation''"
  | "RecoveryReasonName RR_InvalidToolInput = ''invalid_tool_input''"
  | "RecoveryReasonName RR_AuthenticationFailed = ''authentication_failed''"
  | "RecoveryReasonName RR_CharacterNotFound = ''character_not_found''"
  | "RecoveryReasonName RR_CharacterOffline = ''character_offline''"
  | "RecoveryReasonName RR_CharacterNotInWorld = ''character_not_in_world''"
  | "RecoveryReasonName RR_Dead = ''dead''"
  | "RecoveryReasonName RR_InCombat = ''in_combat''"
  | "RecoveryReasonName RR_Rooted = ''rooted''"
  | "RecoveryReasonName RR_InFlight = ''in_flight''"
  | "RecoveryReasonName RR_BattlegroundQueue = ''battleground_queue''"
  | "RecoveryReasonName RR_Battleground = ''battleground''"
  | "RecoveryReasonName RR_Arena = ''arena''"
  | "RecoveryReasonName RR_OnTransport = ''on_transport''"
  | "RecoveryReasonName RR_TeleportInProgress = ''teleport_in_progress''"
  | "RecoveryReasonName RR_PlayerbotAiMissing = ''playerbot_ai_missing''"
  | "RecoveryReasonName RR_DestinationNotHomebind = ''destination_not_homebind''"
  | "RecoveryReasonName RR_InvalidHomebind = ''invalid_homebind''"
  | "RecoveryReasonName RR_TeleportRejected = ''teleport_rejected''"
  | "RecoveryReasonName RR_OperationUnavailable = ''operation_unavailable''"
  | "RecoveryReasonName RR_QueueFull = ''queue_full''"
  | "RecoveryReasonName RR_ShuttingDown = ''shutting_down''"
  | "RecoveryReasonName RR_InternalError = ''internal_error''"
  | "RecoveryReasonName RR_ResponseTooLarge = ''response_too_large''"
  | "RecoveryReasonName RR_AdapterConfiguration = ''adapter_configuration''"
  | "RecoveryReasonName RR_ServerUnreachable = ''server_unreachable''"
  | "RecoveryReasonName RR_ProtocolMismatch = ''protocol_mismatch''"
  | "RecoveryReasonName RR_InvalidServerResponse = ''invalid_server_response''"
  | "RecoveryReasonName RR_QueueTimeoutBeforeClaim = ''queue_timeout_before_claim''"
  | "RecoveryReasonName RR_ExecutionTimeoutAfterClaim = ''execution_timeout_after_claim''"
  | "RecoveryReasonName RR_ClientLockTimeout = ''client_lock_timeout''"
  | "RecoveryReasonName RR_SocketTimeout = ''socket_timeout''"
  | "RecoveryReasonName RR_ResponseTimeout = ''response_timeout''"

datatype RecoveryMutationState =
    MS_NotStarted
  | MS_Completed
  | MS_UnknownAfterExecutionStarted

primrec RecoveryMutationStateName :: "RecoveryMutationState \<Rightarrow> string" where
    "RecoveryMutationStateName MS_NotStarted = ''not_started''"
  | "RecoveryMutationStateName MS_Completed = ''completed''"
  | "RecoveryMutationStateName MS_UnknownAfterExecutionStarted = ''unknown_after_execution_started''"

datatype RecoveryPersistenceState =
    PS_NotRequested
  | PS_Deferred

primrec RecoveryPersistenceStateName :: "RecoveryPersistenceState \<Rightarrow> string" where
    "RecoveryPersistenceStateName PS_NotRequested = ''not_requested''"
  | "RecoveryPersistenceStateName PS_Deferred = ''deferred''"

text \<open>A \<open>float\<close>, as its IEEE single precision bits.\<close>

type_synonym float32 = "32 word"

record RecoveryPosition =
  mapId :: uint32
  zoneId :: uint32
  areaId :: uint32
  pos_x :: float32
  pos_y :: float32
  pos_z :: float32
  orientation :: float32

record RecoveryAuditRecord =
  timestampMs :: uint64
  audit_requestId :: "uint64 option"
  audit_botGuid :: "uint32 option"
  audit_botName :: "string option"
  audit_destination :: RecoveryDestination
  beforePosition :: "RecoveryPosition option"
  acceptedDestination :: "RecoveryPosition option"
  observedPosition :: "RecoveryPosition option"
  observedAtDestination :: bool
  movementReset :: bool
  travelReset :: bool
  taxiReset :: bool
  outcome :: RecoveryOutcome
  reason :: RecoveryReason
  mutationState :: RecoveryMutationState
  persistenceState :: RecoveryPersistenceState

text \<open>The record with the default member initialisers of the struct.\<close>

definition default_audit :: RecoveryAuditRecord where
  "default_audit = \<lparr>timestampMs = 0, audit_requestId = None, audit_botGuid = None,
     audit_botName = None, audit_destination = RD_Missing, beforePosition = None,
     acceptedDestination = None, observedPosition = None, observedAtDestination = False,
     movementReset = False, travelReset = False, taxiReset = False, outcome = RO_InvalidRequest,
     reason = RR_MalformedRequest, mutationState = MS_NotStarted, persistenceState = PS_NotRequested\<rparr>"

section \<open>Responses\<close>

record Response =
  ok :: bool
  resultJson :: string
  response_error :: ProtocolError
  recoveryAudit :: "RecoveryAuditRecord option"

definition Success :: "string \<Rightarrow> Response" where
  "Success json = \<lparr>ok = True, resultJson = json, response_error = ProtocolError.make EC_None [],
     recoveryAudit = None\<rparr>"

definition Failure :: "ErrorCode \<Rightarrow> string \<Rightarrow> Response" where
  "Failure code message = \<lparr>ok = False, resultJson = [],
     response_error = ProtocolError.make code message, recoveryAudit = None\<rparr>"

lemma Success_simps [simp]:
  "ok (Success j)" "resultJson (Success j) = j" "recoveryAudit (Success j) = None"
  by (simp_all add: Success_def)

lemma Failure_simps [simp]:
  "\<not> ok (Failure c m)" "resultJson (Failure c m) = []" "recoveryAudit (Failure c m) = None"
  "error_code (response_error (Failure c m)) = c"
  by (simp_all add: Failure_def ProtocolError.defs)

section \<open>Names\<close>

lemma error_code_MakeError [simp]: "error_code (MakeError c) = c"
  by (cases c) (simp_all add: ProtocolError.defs)

text \<open>The wire names are stable identifiers: distinct codes have distinct names.\<close>

definition plain_name_char :: "char \<Rightarrow> bool" where
  "plain_name_char c \<longleftrightarrow> c = CHR ''_'' \<or> (97 \<le> ord c \<and> ord c \<le> 122)"

end
