(* ===== verification/FlatJson.thy ===== *)
theory FlatJson
  imports Protocol_Types
begin

text \<open>
  \<open>AppendEscapedJsonString\<close> and the class \<open>FlatJsonParser\<close> of
  \<open>PlayerbotVerificationProtocol.cpp\<close>. The parser's state \<open>(input, position)\<close> is the suffix of the
  input from \<open>position\<close> on: advancing the position drops characters, \<open>position >= input.size()\<close> is
  the empty suffix, and restoring a saved position is using the old suffix again. A member function
  that returns \<open>std::optional\<close> or \<open>bool\<close> returns \<open>None\<close> for failure, and otherwise its value with the
  new suffix. \<open>FlatJsonFields\<close> is an association list with distinct keys, in insertion order.
\<close>

section \<open>Writing strings\<close>

definition HEX :: string where
  "HEX = ''0123456789abcdef''"

definition escape_char :: "char \<Rightarrow> string" where
  "escape_char c =
     (if c = CHR 0x22 then [CHR 0x5C, CHR 0x22]
      else if c = CHR 0x5C then [CHR 0x5C, CHR 0x5C]
      else if c = CHR 0x0A then [CHR 0x5C, CHR ''n'']
      else if c = CHR 0x0D then [CHR 0x5C, CHR ''r'']
      else if c = CHR 0x09 then [CHR 0x5C, CHR ''t'']
      else if c = CHR 0x08 then [CHR 0x5C, CHR ''b'']
      else if c = CHR 0x0C then [CHR 0x5C, CHR ''f'']
      else if ord c < 0x20
        then [CHR 0x5C, CHR ''u'', CHR ''0'', CHR ''0'', HEX ! (ord c div 16 mod 16), HEX ! (ord c mod 16)]
      else [c])"

definition AppendEscapedJsonString :: "string \<Rightarrow> string \<Rightarrow> string" where
  "AppendEscapedJsonString output value =
     output @ [CHR 0x22] @ concat (map escape_char value) @ [CHR 0x22]"

section \<open>Scanning\<close>

record FlatJsonValue =
  isString :: bool
  isUnsigned :: bool
  number :: uint64
  text_value :: string

definition default_value :: FlatJsonValue where
  "default_value = \<lparr>isString = False, isUnsigned = False, number = 0, text_value = []\<rparr>"

type_synonym FlatJsonFields = "(string \<times> FlatJsonValue) list"

definition is_space :: "char \<Rightarrow> bool" where
  "is_space c \<longleftrightarrow> c = CHR '' '' \<or> c = CHR 0x09 \<or> c = CHR 0x0A \<or> c = CHR 0x0D"

definition SkipWhitespace :: "string \<Rightarrow> string" where
  "SkipWhitespace s = dropWhile is_space s"

fun Consume :: "char \<Rightarrow> string \<Rightarrow> string option" where
  "Consume expected [] = None"
| "Consume expected (c # s) = (if c \<noteq> expected then None else Some s)"

text \<open>\<open>Consume\<close> called for its effect, its answer ignored.\<close>

definition TryConsume :: "char \<Rightarrow> string \<Rightarrow> string" where
  "TryConsume expected s = (case Consume expected s of None \<Rightarrow> s | Some r \<Rightarrow> r)"

definition hex_digit :: "char \<Rightarrow> uint32 option" where
  "hex_digit c =
     (if 48 \<le> ord c \<and> ord c \<le> 57 then Some (of_nat (ord c - 48))
      else if 97 \<le> ord c \<and> ord c \<le> 102 then Some (of_nat (ord c - 97 + 10))
      else if 65 \<le> ord c \<and> ord c \<le> 70 then Some (of_nat (ord c - 65 + 10))
      else None)"

fun hex_loop :: "uint32 \<Rightarrow> string \<Rightarrow> uint32 option" where
  "hex_loop value [] = Some value"
| "hex_loop value (c # cs) =
     (case hex_digit c of
        None \<Rightarrow> None
      | Some d \<Rightarrow> hex_loop (push_bit 4 value OR d) cs)"

definition ParseHex4 :: "string \<Rightarrow> (uint32 \<times> string) option" where
  "ParseHex4 s =
     (if length s < 4 then None
      else case hex_loop 0 (take 4 s) of
        None \<Rightarrow> None
      | Some value \<Rightarrow> Some (value, drop 4 s))"

definition char_of_code :: "uint32 \<Rightarrow> char" where
  "char_of_code w = char_at (unat w)"

definition AppendUtf8 :: "string \<Rightarrow> uint32 \<Rightarrow> string" where
  "AppendUtf8 output codepoint =
     (if codepoint < 0x80 then output @ [char_of_code codepoint]
      else if codepoint < 0x800 then
        output @ [char_of_code (0xC0 OR drop_bit 6 codepoint), char_of_code (0x80 OR (codepoint AND 0x3F))]
      else
        output @ [char_of_code (0xE0 OR drop_bit 12 codepoint),
                  char_of_code (0x80 OR (drop_bit 6 codepoint AND 0x3F)),
                  char_of_code (0x80 OR (codepoint AND 0x3F))])"

text \<open>The escapes of one character.\<close>

definition simple_escape :: "char \<Rightarrow> char option" where
  "simple_escape c =
     (if c = CHR 0x22 then Some (CHR 0x22)
      else if c = CHR 0x5C then Some (CHR 0x5C)
      else if c = CHR ''/'' then Some (CHR ''/'')
      else if c = CHR ''n'' then Some (CHR 0x0A)
      else if c = CHR ''r'' then Some (CHR 0x0D)
      else if c = CHR ''t'' then Some (CHR 0x09)
      else if c = CHR ''b'' then Some (CHR 0x08)
      else if c = CHR ''f'' then Some (CHR 0x0C)
      else None)"

text \<open>The escape after a backslash: the bytes appended to the result, and the rest of the input.\<close>

definition ParseEscape :: "string \<Rightarrow> string \<Rightarrow> (string \<times> string) option" where
  "ParseEscape result s =
     (case s of
        [] \<Rightarrow> None
      | escape # rest \<Rightarrow>
          (case simple_escape escape of
             Some c \<Rightarrow> Some (result @ [c], rest)
           | None \<Rightarrow>
               if escape = CHR ''u'' then
                 (case ParseHex4 rest of
                    None \<Rightarrow> None
                  | Some (codepoint, rest') \<Rightarrow>
                      if 0xD800 \<le> codepoint \<and> codepoint \<le> 0xDFFF then None
                      else Some (AppendUtf8 result codepoint, rest'))
               else None))"

lemma ParseHex4_length [consume_length]: "ParseHex4 s = Some (v, r) \<Longrightarrow> length r < length s"
  by (auto simp: ParseHex4_def split: if_splits option.splits)

lemma ParseEscape_length [consume_length]: "ParseEscape a s = Some (b, r) \<Longrightarrow> length r < length s"
  by (auto simp: ParseEscape_def dest: ParseHex4_length split: list.splits option.splits if_splits)

function StringLoop :: "string \<Rightarrow> string \<Rightarrow> (string \<times> string) option" where
  "StringLoop result s =
     (case s of
        [] \<Rightarrow> None
      | c # rest \<Rightarrow>
          if c = CHR 0x22 then Some (result, rest)
          else if c = CHR 0x5C then
            (case ParseEscape result rest of
               None \<Rightarrow> None
             | Some (result', rest') \<Rightarrow> StringLoop result' rest')
          else if ord c < 0x20 then None
          else StringLoop (result @ [c]) rest)"
  by pat_completeness auto
termination
  by (relation "measure (\<lambda>(a, s). length s)") (auto dest: ParseEscape_length)

declare StringLoop.simps [simp del]

definition ParseString :: "string \<Rightarrow> (string \<times> string) option" where
  "ParseString s = (case Consume (CHR 0x22) s of None \<Rightarrow> None | Some s' \<Rightarrow> StringLoop [] s')"

section \<open>Numbers\<close>

fun UnsignedLoop :: "uint64 \<Rightarrow> nat \<Rightarrow> string \<Rightarrow> (uint64 \<times> nat \<times> string) option" where
  "UnsignedLoop result digits [] = Some (result, digits, [])"
| "UnsignedLoop result digits (c # s) =
     (if is_digit_char c then
        (let digit = of_nat (ord c - 48) in
         if result > (uint64_max - digit) div 10 then None
         else UnsignedLoop (result * 10 + digit) (Suc digits) s)
      else Some (result, digits, c # s))"

definition ParseUnsigned :: "string \<Rightarrow> (FlatJsonValue \<times> string) option" where
  "ParseUnsigned s =
     (case UnsignedLoop 0 0 s of
        None \<Rightarrow> None
      | Some (result, digits, rest) \<Rightarrow>
          if digits = 0 \<or> digits > 20 then None
          else if rest \<noteq> [] \<and> (hd rest = CHR ''.'' \<or> hd rest = CHR ''e'' \<or> hd rest = CHR ''E'') then None
          else Some (default_value\<lparr>isUnsigned := True, number := result\<rparr>, rest))"

definition starts_digit :: "string \<Rightarrow> bool" where
  "starts_digit s \<longleftrightarrow> s \<noteq> [] \<and> is_digit_char (hd s)"

definition skip_digits :: "string \<Rightarrow> string" where
  "skip_digits s = dropWhile is_digit_char s"

definition skip_integer :: "string \<Rightarrow> string option" where
  "skip_integer s =
     (case s of
        [] \<Rightarrow> None
      | c # rest \<Rightarrow>
          if c = CHR ''0'' then (if starts_digit rest then None else Some rest)
          else if ord c < 49 \<or> ord c > 57 then None
          else Some (skip_digits s))"

definition skip_fraction :: "string \<Rightarrow> string option" where
  "skip_fraction s =
     (case s of
        [] \<Rightarrow> Some s
      | c # rest \<Rightarrow>
          if c = CHR ''.'' then (if starts_digit rest then Some (skip_digits rest) else None)
          else Some s)"

definition skip_exponent :: "string \<Rightarrow> string option" where
  "skip_exponent s =
     (case s of
        [] \<Rightarrow> Some s
      | c # rest \<Rightarrow>
          if c = CHR ''e'' \<or> c = CHR ''E'' then
            (let rest' = (if rest \<noteq> [] \<and> (hd rest = CHR ''+'' \<or> hd rest = CHR ''-'') then tl rest else rest) in
             if starts_digit rest' then Some (skip_digits rest') else None)
          else Some s)"

definition SkipNumber :: "string \<Rightarrow> string option" where
  "SkipNumber s =
     (let s' = TryConsume (CHR ''-'') s in
      Option.bind (skip_integer s') (\<lambda>s1. Option.bind (skip_fraction s1) skip_exponent))"

definition ConsumeLiteral :: "string \<Rightarrow> nat \<Rightarrow> string \<Rightarrow> string option" where
  "ConsumeLiteral literal len s = (if take len s = literal then Some (drop len s) else None)"

section \<open>Skipping nested values\<close>

definition MAX_NESTED_DEPTH :: nat where
  "MAX_NESTED_DEPTH = 32"

text \<open>
  \<open>depth\<close> is a \<open>uint32\<close> that never exceeds 33, so it is a natural number here. The loops of
  \<open>SkipArray\<close> and \<open>SkipObject\<close> are the functions \<open>ArrayLoop\<close> and \<open>ObjectLoop\<close>.
\<close>

function (sequential)
      SkipJsonValue :: "nat \<Rightarrow> string \<Rightarrow> string option"
  and SkipArray :: "nat \<Rightarrow> string \<Rightarrow> string option"
  and ArrayLoop :: "nat \<Rightarrow> string \<Rightarrow> string option"
  and SkipObject :: "nat \<Rightarrow> string \<Rightarrow> string option"
  and ObjectLoop :: "nat \<Rightarrow> string \<Rightarrow> string option" where
  "SkipJsonValue depth s =
     (if depth > MAX_NESTED_DEPTH then None
      else case s of
        [] \<Rightarrow> None
      | c # _ \<Rightarrow>
          if c = CHR 0x22 then map_option snd (ParseString s)
          else if c = CHR ''-'' \<or> is_digit_char c then SkipNumber s
          else if c = CHR ''t'' then ConsumeLiteral ''true'' 4 s
          else if c = CHR ''f'' then ConsumeLiteral ''false'' 5 s
          else if c = CHR ''n'' then ConsumeLiteral ''null'' 4 s
          else if c = CHR ''['' then SkipArray depth s
          else if c = CHR ''{'' then SkipObject depth s
          else None)"
| "SkipArray depth s =
     (let s' = SkipWhitespace (TryConsume (CHR ''['') s) in
      case Consume (CHR '']'') s' of
        Some s'' \<Rightarrow> Some s''
      | None \<Rightarrow> ArrayLoop depth s')"
| "ArrayLoop depth s =
     (case SkipJsonValue (Suc depth) s of
        None \<Rightarrow> None
      | Some r \<Rightarrow>
          (let s' = SkipWhitespace r in
           case Consume (CHR '','') s' of
             Some s'' \<Rightarrow> ArrayLoop depth (SkipWhitespace s'')
           | None \<Rightarrow> Consume (CHR '']'') s'))"
| "SkipObject depth s =
     (let s' = SkipWhitespace (TryConsume (CHR ''{'') s) in
      case Consume (CHR ''}'') s' of
        Some s'' \<Rightarrow> Some s''
      | None \<Rightarrow> ObjectLoop depth s')"
| "ObjectLoop depth s =
     (case ParseString s of
        None \<Rightarrow> None
      | Some (_, r) \<Rightarrow>
          (case Consume (CHR '':'') (SkipWhitespace r) of
             None \<Rightarrow> None
           | Some r1 \<Rightarrow>
               (case SkipJsonValue (Suc depth) (SkipWhitespace r1) of
                  None \<Rightarrow> None
                | Some r2 \<Rightarrow>
                    (let s' = SkipWhitespace r2 in
                     case Consume (CHR '','') s' of
                       Some s'' \<Rightarrow> ObjectLoop depth (SkipWhitespace s'')
                     | None \<Rightarrow> Consume (CHR ''}'') s'))))"
  by pat_completeness auto

lemma SkipWhitespace_length [consume_length]: "length (SkipWhitespace s) \<le> length s"
  by (simp add: SkipWhitespace_def length_dropWhile_le)

lemma Consume_length [consume_length]: "Consume c s = Some r \<Longrightarrow> length s = Suc (length r)"
  by (cases s) (auto split: if_splits)

lemma TryConsume_length [consume_length]: "length (TryConsume c s) \<le> length s"
  by (auto simp: TryConsume_def dest: Consume_length split: option.splits)

lemma StringLoop_length [consume_length]: "StringLoop a s = Some (b, r) \<Longrightarrow> length r < length s"
proof (induction a s rule: StringLoop.induct)
  case (1 a s)
  note eq = "1.prems" [unfolded StringLoop.simps [of a s]]
  show ?case
  proof (cases s)
    case Nil
    with eq show ?thesis by simp
  next
    case (Cons c rest)
    consider (quote) "c = CHR 0x22" | (escape) "c = CHR 0x5C" | (other) "c \<noteq> CHR 0x22" "c \<noteq> CHR 0x5C"
      by blast
    then show ?thesis
    proof cases
      case quote
      with eq Cons show ?thesis by simp
    next
      case escape
      with eq Cons obtain a' rest' where e: "ParseEscape a rest = Some (a', rest')"
        and l: "StringLoop a' rest' = Some (b, r)"
        by (auto split: option.splits)
      from "1.IH"(1) [OF Cons _ escape e refl l] escape have "length r < length rest'" by simp
      with e Cons show ?thesis by (auto dest: ParseEscape_length)
    next
      case other
      with eq Cons "1.IH"(2) [OF Cons] show ?thesis by (auto split: if_splits)
    qed
  qed
qed

lemma ParseString_length [consume_length]: "ParseString s = Some (v, r) \<Longrightarrow> length r < length s"
  by (auto simp: ParseString_def dest!: Consume_length StringLoop_length split: option.splits)

lemma skip_digits_length [consume_length]: "length (skip_digits s) \<le> length s"
  by (simp add: skip_digits_def length_dropWhile_le)

lemma skip_integer_length: "skip_integer s = Some r \<Longrightarrow> length r \<le> length s"
  using skip_digits_length [of s] by (auto simp: skip_integer_def split: list.splits if_splits)

lemma skip_fraction_length: "skip_fraction s = Some r \<Longrightarrow> length r \<le> length s"
  by (auto simp: skip_fraction_def intro: le_trans [OF skip_digits_length] split: list.splits if_splits)

lemma skip_exponent_length: "skip_exponent s = Some r \<Longrightarrow> length r \<le> length s"
  by (auto simp: skip_exponent_def Let_def intro!: le_trans [OF skip_digits_length]
      split: list.splits if_splits)

lemma SkipNumber_length [consume_length]: "SkipNumber s = Some r \<Longrightarrow> length r \<le> length s"
  using TryConsume_length [of "CHR ''-''" s]
  by (auto simp: SkipNumber_def Let_def bind_eq_Some_conv
      dest!: skip_integer_length skip_fraction_length skip_exponent_length)

lemma ConsumeLiteral_length [consume_length]: "ConsumeLiteral l n s = Some r \<Longrightarrow> length r \<le> length s"
  by (auto simp: ConsumeLiteral_def split: if_splits)

lemma SkipWhitespace_le: "length s \<le> n \<Longrightarrow> length (SkipWhitespace s) \<le> n"
  using SkipWhitespace_length [of s] by simp

lemma SkipWhitespace_less: "length s < n \<Longrightarrow> length (SkipWhitespace s) < n"
  using SkipWhitespace_length [of s] by simp

lemma Consume_space_length: "Consume c (SkipWhitespace s) = Some r \<Longrightarrow> length r < length s"
  using SkipWhitespace_length [of s] by (auto dest!: Consume_length)

lemma open_length: "length (SkipWhitespace (TryConsume c s)) \<le> length s"
  by (rule SkipWhitespace_le [OF TryConsume_length])

lemma open_close_length: "Consume d (SkipWhitespace (TryConsume c s)) = Some r \<Longrightarrow> length r \<le> length s"
  using open_length [of c s] by (auto dest!: Consume_length)

text \<open>
  Termination: a nested value is one level deeper, and the depth stops at \<open>MAX_NESTED_DEPTH\<close>; a
  loop's next round has a shorter input, since a value never gives input back. That last fact is
  about the function itself, so it is proved first on the domain of the recursion.
\<close>

abbreviation skip_dom :: "((nat \<times> string + nat \<times> string) + nat \<times> string + nat \<times> string + nat \<times> string) \<Rightarrow> bool"
  where "skip_dom \<equiv> SkipJsonValue_SkipArray_ArrayLoop_SkipObject_ObjectLoop_dom"

lemma skip_dom_length:
  "skip_dom (Inl (Inl (d1, s1))) \<Longrightarrow> SkipJsonValue d1 s1 = Some r \<Longrightarrow> length r \<le> length s1"
  "skip_dom (Inl (Inr (d2, s2))) \<Longrightarrow> SkipArray d2 s2 = Some r \<Longrightarrow> length r \<le> length s2"
  "skip_dom (Inr (Inl (d3, s3))) \<Longrightarrow> ArrayLoop d3 s3 = Some r \<Longrightarrow> length r \<le> length s3"
  "skip_dom (Inr (Inr (Inl (d4, s4)))) \<Longrightarrow> SkipObject d4 s4 = Some r \<Longrightarrow> length r \<le> length s4"
  "skip_dom (Inr (Inr (Inr (d5, s5)))) \<Longrightarrow> ObjectLoop d5 s5 = Some r \<Longrightarrow> length r \<le> length s5"
proof (induction d1 s1 and d2 s2 and d3 s3 and d4 s4 and d5 s5
    arbitrary: r and r and r and r and r
    rule: SkipJsonValue_SkipArray_ArrayLoop_SkipObject_ObjectLoop.pinduct)
  case (1 d s)
  then show ?case
    by (auto simp: SkipJsonValue.psimps dest!: ParseString_length SkipNumber_length ConsumeLiteral_length
        split: if_splits list.splits)
next
  case (2 d s)
  show ?case
  proof (cases "Consume (CHR '']'') (SkipWhitespace (TryConsume (CHR ''['') s))")
    case None
    with 2 have "length r \<le> length (SkipWhitespace (TryConsume (CHR ''['') s))"
      by (simp add: SkipArray.psimps Let_def)
    also have "\<dots> \<le> length s" by (rule open_length)
    finally show ?thesis .
  next
    case (Some r')
    with 2 show ?thesis by (simp add: SkipArray.psimps Let_def open_close_length)
  qed
next
  case (3 d s)
  then obtain r1 where r1: "SkipJsonValue (Suc d) s = Some r1"
    by (auto simp: ArrayLoop.psimps split: option.splits)
  with "3.IH"(1) have le: "length r1 \<le> length s" by simp
  show ?case
  proof (cases "Consume (CHR '','') (SkipWhitespace r1)")
    case None
    with 3 r1 have "Consume (CHR '']'') (SkipWhitespace r1) = Some r"
      by (simp add: ArrayLoop.psimps Let_def)
    with le show ?thesis by (auto dest: Consume_space_length)
  next
    case (Some r2)
    with 3 r1 have "length r \<le> length (SkipWhitespace r2)"
      by (simp add: ArrayLoop.psimps Let_def)
    with le Consume_space_length [OF Some] SkipWhitespace_length [of r2] show ?thesis by linarith
  qed
next
  case (4 d s)
  show ?case
  proof (cases "Consume (CHR ''}'') (SkipWhitespace (TryConsume (CHR ''{'') s))")
    case None
    with 4 have "length r \<le> length (SkipWhitespace (TryConsume (CHR ''{'') s))"
      by (simp add: SkipObject.psimps Let_def)
    also have "\<dots> \<le> length s" by (rule open_length)
    finally show ?thesis .
  next
    case (Some r')
    with 4 show ?thesis by (simp add: SkipObject.psimps Let_def open_close_length)
  qed
next
  case (5 d s)
  then obtain k r0 r1 r2 where k: "ParseString s = Some (k, r0)"
    and c: "Consume (CHR '':'') (SkipWhitespace r0) = Some r1"
    and v: "SkipJsonValue (Suc d) (SkipWhitespace r1) = Some r2"
    by (auto simp: ObjectLoop.psimps split: option.splits)
  have "length r2 \<le> length (SkipWhitespace r1)"
    by (rule "5.IH"(1) [OF k refl c v])
  with ParseString_length [OF k] Consume_space_length [OF c] SkipWhitespace_length [of r1]
  have le: "length r2 \<le> length s" by linarith
  show ?case
  proof (cases "Consume (CHR '','') (SkipWhitespace r2)")
    case None
    with 5 k c v have "Consume (CHR ''}'') (SkipWhitespace r2) = Some r"
      by (simp add: ObjectLoop.psimps Let_def)
    with le show ?thesis by (auto dest: Consume_space_length)
  next
    case (Some r3)
    from "5.prems" "5.hyps" k c v Some have "ObjectLoop d (SkipWhitespace r3) = Some r"
      by (simp add: ObjectLoop.psimps Let_def)
    from "5.IH"(2) [OF k refl c v refl Some this] have "length r \<le> length (SkipWhitespace r3)" .
    with le Consume_space_length [OF Some] SkipWhitespace_length [of r3] show ?thesis by linarith
  qed
qed

definition depth_weight :: "nat \<Rightarrow> nat" where
  "depth_weight depth = Suc (2 * (Suc MAX_NESTED_DEPTH - depth))"

lemma depth_weight_pos: "0 < depth_weight d"
  by (simp add: depth_weight_def)

lemma depth_weight_less: "\<not> MAX_NESTED_DEPTH < Suc d \<Longrightarrow> depth_weight (Suc d) < depth_weight d"
  by (simp add: depth_weight_def)

lemma skip_total: "\<forall>x. skip_dom x"
proof (relation "measures
    [\<lambda>x. case x of Inl (Inl (d, s)) \<Rightarrow> if d > MAX_NESTED_DEPTH then 0 else depth_weight d
        | Inl (Inr (d, s)) \<Rightarrow> depth_weight d
        | Inr (Inl (d, s)) \<Rightarrow> depth_weight d
        | Inr (Inr (Inl (d, s))) \<Rightarrow> depth_weight d
        | Inr (Inr (Inr (d, s))) \<Rightarrow> depth_weight d,
     \<lambda>x. case x of Inl (Inl (d, s)) \<Rightarrow> length s
        | Inl (Inr (d, s)) \<Rightarrow> length s
        | Inr (Inl (d, s)) \<Rightarrow> length s
        | Inr (Inr (Inl (d, s))) \<Rightarrow> length s
        | Inr (Inr (Inr (d, s))) \<Rightarrow> length s,
     \<lambda>x. case x of Inl (Inl _) \<Rightarrow> 2
        | Inl (Inr _) \<Rightarrow> 1
        | Inr (Inl _) \<Rightarrow> 0
        | Inr (Inr (Inl _)) \<Rightarrow> 1
        | Inr (Inr (Inr _)) \<Rightarrow> (0::nat)]", goal_cases)
  case 1
  show ?case by simp
next
  case (2 d s x xs)
  then show ?case by simp
next
  case (3 d s x xs)
  then show ?case by simp
next
  case (4 d s x)
  with open_length [of "CHR ''[''" s] show ?case by (simp add: le_less)
next
  case (5 d s)
  then show ?case by (simp add: depth_weight_pos depth_weight_less)
next
  case (6 d s r1 x r2)
  from skip_dom_length(1) [OF 6(4) 6(1)] Consume_space_length [OF 6(3) [unfolded 6(2)]]
  have "length (SkipWhitespace r2) < length s" by (intro SkipWhitespace_less) simp
  then show ?case by simp
next
  case (7 d s x)
  with open_length [of "CHR ''{''" s] show ?case by (simp add: le_less)
next
  case (8 d s p k r r1)
  then show ?case by (simp add: depth_weight_pos depth_weight_less)
next
  case (9 d s p k r r1 r2 x r3)
  from 9(1,2) have p: "ParseString s = Some (k, r)" by simp
  from skip_dom_length(1) [OF 9(7) 9(4)] Consume_space_length [OF 9(6) [unfolded 9(5)]]
    ParseString_length [OF p] Consume_space_length [OF 9(3)] SkipWhitespace_length [of r1]
  have "length (SkipWhitespace r3) < length s" by (intro SkipWhitespace_less) simp
  then show ?case by simp
qed

termination SkipJsonValue
  by (rule skip_total)

declare SkipJsonValue.simps [simp del] SkipArray.simps [simp del] ArrayLoop.simps [simp del]
  SkipObject.simps [simp del] ObjectLoop.simps [simp del]

lemma SkipJsonValue_length [consume_length]: "SkipJsonValue d s = Some r \<Longrightarrow> length r \<le> length s"
  by (rule skip_dom_length(1) [OF skip_total [rule_format]])

section \<open>Values and objects\<close>

lemma UnsignedLoop_length [consume_length]:
  "UnsignedLoop v n s = Some (v', n', r) \<Longrightarrow> length r \<le> length s"
  by (induction v n s rule: UnsignedLoop.induct) (auto simp: Let_def split: if_splits)

lemma ParseUnsigned_length [consume_length]: "ParseUnsigned s = Some (v, r) \<Longrightarrow> length r \<le> length s"
  by (auto simp: ParseUnsigned_def dest: UnsignedLoop_length split: option.splits if_splits)

definition ParseValue :: "string \<Rightarrow> (FlatJsonValue \<times> string) option" where
  "ParseValue s =
     (case s of
        [] \<Rightarrow> None
      | c # _ \<Rightarrow>
          if c = CHR 0x22 then
            (case ParseString s of
               None \<Rightarrow> None
             | Some (text, r) \<Rightarrow> Some (default_value\<lparr>isString := True, text_value := text\<rparr>, r))
          else
            (case (if is_digit_char c then ParseUnsigned s else None) of
               Some (value, r) \<Rightarrow> Some (value, r)
             | None \<Rightarrow>
                 (case SkipJsonValue 0 s of
                    None \<Rightarrow> None
                  | Some r \<Rightarrow> Some (default_value, r))))"

lemma ParseValue_length [consume_length]: "ParseValue s = Some (v, r) \<Longrightarrow> length r \<le> length s"
  by (auto simp: ParseValue_def dest: ParseString_length ParseUnsigned_length SkipJsonValue_length
      split: list.splits if_splits option.splits)

text \<open>
  \<open>std::map::emplace\<close> keeps the first value of a key; its second answer is whether it inserted.
  \<open>contains\<close> and \<open>find\<close> read by key. The optional set of duplicate keys is the parser's out
  parameter \<open>duplicateFields\<close>: without one, a duplicate key is an error.
\<close>

definition contains :: "FlatJsonFields \<Rightarrow> string \<Rightarrow> bool" where
  "contains fs name \<longleftrightarrow> map_of fs name \<noteq> None"

definition emplace :: "FlatJsonFields \<Rightarrow> string \<Rightarrow> FlatJsonValue \<Rightarrow> FlatJsonFields \<times> bool" where
  "emplace fs key value =
     (if contains fs key then (fs, False) else (fs @ [(key, value)], True))"

type_synonym duplicates = "string set option"

definition Finish :: "FlatJsonFields \<Rightarrow> duplicates \<Rightarrow> string \<Rightarrow> (FlatJsonFields \<times> duplicates) option" where
  "Finish fs dups s = (if SkipWhitespace s \<noteq> [] then None else Some (fs, dups))"

text \<open>One round of the loop: a key, a colon and a value are inserted, with what is left to read.\<close>

definition ParseField ::
  "FlatJsonFields \<Rightarrow> duplicates \<Rightarrow> string \<Rightarrow> (FlatJsonFields \<times> duplicates \<times> string) option" where
  "ParseField fs dups s =
     (case ParseString (SkipWhitespace s) of
        None \<Rightarrow> None
      | Some (key, r) \<Rightarrow>
          (case Consume (CHR '':'') (SkipWhitespace r) of
             None \<Rightarrow> None
           | Some r1 \<Rightarrow>
               (case ParseValue (SkipWhitespace r1) of
                  None \<Rightarrow> None
                | Some (value, r2) \<Rightarrow>
                    (let (fs', inserted) = emplace fs key value in
                     if inserted then Some (fs', dups, r2)
                     else (case dups of
                             None \<Rightarrow> None
                           | Some names \<Rightarrow> Some (fs', Some (insert key names), r2))))))"

lemma ParseField_length [consume_length]:
  assumes "ParseField fs dups s = Some (fs', dups', r)"
  shows "length r < length s"
proof -
  from assms obtain key val r0 r1 where k: "ParseString (SkipWhitespace s) = Some (key, r0)"
    and c: "Consume (CHR '':'') (SkipWhitespace r0) = Some r1"
    and v: "ParseValue (SkipWhitespace r1) = Some (val, r)"
    by (auto simp: ParseField_def Let_def split: option.splits prod.splits if_splits)
  from ParseString_length [OF k] Consume_space_length [OF c] ParseValue_length [OF v]
    SkipWhitespace_length [of s] SkipWhitespace_length [of r1]
  show ?thesis by linarith
qed

function FieldsLoop ::
  "FlatJsonFields \<Rightarrow> duplicates \<Rightarrow> string \<Rightarrow> (FlatJsonFields \<times> duplicates) option" where
  "FieldsLoop fs dups s =
     (case ParseField fs dups s of
        None \<Rightarrow> None
      | Some (fs', dups', r) \<Rightarrow>
          (let r' = SkipWhitespace r in
           case Consume (CHR '','') r' of
             Some r'' \<Rightarrow> FieldsLoop fs' dups' r''
           | None \<Rightarrow>
               (case Consume (CHR ''}'') r' of
                  Some r'' \<Rightarrow> Finish fs' dups' r''
                | None \<Rightarrow> None)))"
  by pat_completeness auto
termination
  by (relation "measure (\<lambda>(fs, dups, s). length s)")
     (auto dest!: ParseField_length Consume_space_length)

declare FieldsLoop.simps [simp del]

definition Parse :: "duplicates \<Rightarrow> string \<Rightarrow> (FlatJsonFields \<times> duplicates) option" where
  "Parse dups input =
     (case Consume (CHR ''{'') (SkipWhitespace input) of
        None \<Rightarrow> None
      | Some s \<Rightarrow>
          (let s' = SkipWhitespace s in
           case Consume (CHR ''}'') s' of
             Some s'' \<Rightarrow> Finish [] dups s''
           | None \<Rightarrow> FieldsLoop [] dups s'))"

end
