(* ===== verification/Json_Grammar.thy ===== *)
theory Json_Grammar
  imports FlatJson
begin

text \<open>
  What \<open>FlatJsonParser\<close> promises, stated without it: a grammar of JSON texts (strings with the value
  they denote, numbers, nested values up to the depth limit), and the two directions that show the
  parser accepts exactly that grammar. The decimal reader \<open>ParseUnsigned\<close> is characterised by the
  number the digits denote, which is where the 64 bit overflow check matters.
\<close>

section \<open>String literals\<close>

inductive string_body :: "string \<Rightarrow> string \<Rightarrow> bool" where
  sb_nil: "string_body [] []"
| sb_plain: "0x20 \<le> ord c \<Longrightarrow> c \<noteq> CHR 0x22 \<Longrightarrow> c \<noteq> CHR 0x5C \<Longrightarrow> string_body s v \<Longrightarrow>
     string_body (c # s) (c # v)"
| sb_escape: "simple_escape e = Some c \<Longrightarrow> string_body s v \<Longrightarrow>
     string_body (CHR 0x5C # e # s) (c # v)"
| sb_unicode: "length h = 4 \<Longrightarrow> hex_loop 0 h = Some cp \<Longrightarrow> \<not> (0xD800 \<le> cp \<and> cp \<le> 0xDFFF) \<Longrightarrow>
     string_body s v \<Longrightarrow> string_body (CHR 0x5C # CHR ''u'' # h @ s) (AppendUtf8 [] cp @ v)"

lemma AppendUtf8_append: "AppendUtf8 a cp = a @ AppendUtf8 [] cp"
  by (simp add: AppendUtf8_def)

lemma StringLoop_quote [simp]: "StringLoop a (CHR 0x22 # s) = Some (a, s)"
  by (subst StringLoop.simps) simp

lemma StringLoop_Nil [simp]: "StringLoop a [] = None"
  by (subst StringLoop.simps) simp

lemma StringLoop_plain:
  "0x20 \<le> ord c \<Longrightarrow> c \<noteq> CHR 0x22 \<Longrightarrow> c \<noteq> CHR 0x5C \<Longrightarrow> StringLoop a (c # s) = StringLoop (a @ [c]) s"
  by (subst StringLoop.simps) simp

lemma StringLoop_escape:
  "StringLoop a (CHR 0x5C # s) =
     (case ParseEscape a s of None \<Rightarrow> None | Some (a', s') \<Rightarrow> StringLoop a' s')"
  by (subst StringLoop.simps) simp

lemma StringLoop_control:
  "ord c < 0x20 \<Longrightarrow> StringLoop a (c # s) = None"
  by (subst StringLoop.simps) (auto simp: ord_def)

lemma ParseEscape_simple: "simple_escape e = Some c \<Longrightarrow> ParseEscape a (e # s) = Some (a @ [c], s)"
  by (simp add: ParseEscape_def)

lemma simple_escape_u [simp]: "simple_escape (CHR ''u'') = None"
  by (simp add: simple_escape_def)

lemma ParseEscape_unicode:
  "length h = 4 \<Longrightarrow> hex_loop 0 h = Some cp \<Longrightarrow> \<not> (0xD800 \<le> cp \<and> cp \<le> 0xDFFF) \<Longrightarrow>
     ParseEscape a (CHR ''u'' # h @ s) = Some (AppendUtf8 a cp, s)"
  by (auto simp: ParseEscape_def ParseHex4_def)

lemma StringLoop_complete:
  "string_body b v \<Longrightarrow> StringLoop a (b @ CHR 0x22 # r) = Some (a @ v, r)"
proof (induction b v arbitrary: a rule: string_body.induct)
  case (sb_unicode h cp s v)
  then show ?case
    by (simp add: StringLoop_escape ParseEscape_unicode AppendUtf8_append [of a])
qed (simp_all add: StringLoop_plain StringLoop_escape ParseEscape_simple)

lemma ParseEscape_cases:
  assumes "ParseEscape a s = Some (a', r)"
  obtains (simple) e c where "s = e # r" "simple_escape e = Some c" "a' = a @ [c]"
  | (unicode) h cp where "s = CHR ''u'' # h @ r" "length h = 4" "hex_loop 0 h = Some cp"
      "\<not> (0xD800 \<le> cp \<and> cp \<le> 0xDFFF)" "a' = AppendUtf8 a cp"
proof (cases s)
  case Nil
  with assms show ?thesis by (simp add: ParseEscape_def)
next
  case (Cons e t)
  show ?thesis
  proof (cases "simple_escape e")
    case (Some c)
    with assms Cons show ?thesis by (intro simple) (auto simp: ParseEscape_def)
  next
    case None
    with assms Cons obtain cp where "e = CHR ''u''" and hex: "ParseHex4 t = Some (cp, r)"
      and "\<not> (0xD800 \<le> cp \<and> cp \<le> 0xDFFF)" "a' = AppendUtf8 a cp"
      by (auto simp: ParseEscape_def split: if_splits option.splits)
    moreover from hex have "t = take 4 t @ r" "length (take 4 t) = 4" "hex_loop 0 (take 4 t) = Some cp"
      by (auto simp: ParseHex4_def split: if_splits option.splits)
    ultimately show ?thesis using Cons by (intro unicode) auto
  qed
qed

lemma StringLoop_sound:
  "StringLoop a s = Some (w, r) \<Longrightarrow> \<exists>b v. s = b @ CHR 0x22 # r \<and> w = a @ v \<and> string_body b v"
proof (induction "length s" arbitrary: a s rule: less_induct)
  case less
  show ?case
  proof (cases s)
    case Nil
    with less.prems show ?thesis by simp
  next
    case (Cons c t)
    consider (quote) "c = CHR 0x22" | (escape) "c = CHR 0x5C" | (control) "ord c < 0x20"
      | (plain) "c \<noteq> CHR 0x22" "c \<noteq> CHR 0x5C" "0x20 \<le> ord c"
      by linarith
    then show ?thesis
    proof cases
      case quote
      with less.prems Cons show ?thesis by (intro exI [of _ "[]"]) (auto intro: sb_nil)
    next
      case control
      with less.prems Cons show ?thesis by (simp add: StringLoop_control)
    next
      case plain
      with less.prems Cons less.hyps [of t "a @ [c]"] show ?thesis
        by (fastforce simp: StringLoop_plain intro: sb_plain Cons_eq_appendI)
    next
      case escape
      with less.prems Cons obtain a' t' where e: "ParseEscape a t = Some (a', t')"
        and l: "StringLoop a' t' = Some (w, r)"
        by (auto simp: StringLoop_escape split: option.splits)
      from ParseEscape_length [OF e] Cons less.hyps [OF _ l] obtain b v
        where t': "t' = b @ CHR 0x22 # r" and w: "w = a' @ v" and b: "string_body b v"
        by fastforce
      from e show ?thesis
      proof (cases rule: ParseEscape_cases)
        case (simple e c')
        with t' w Cons escape sb_escape [OF simple(2) b] show ?thesis
          by (intro exI [of _ "CHR 0x5C # e # b"] exI [of _ "c' # v"]) simp
      next
        case (unicode h cp)
        with t' w Cons escape sb_unicode [OF unicode(2-4) b] show ?thesis
          by (intro exI [of _ "CHR 0x5C # CHR ''u'' # h @ b"] exI [of _ "AppendUtf8 [] cp @ v"])
             (simp add: AppendUtf8_append [of a])
      qed
    qed
  qed
qed

lemma ParseString_iff:
  "ParseString s = Some (v, r) \<longleftrightarrow> (\<exists>b. s = CHR 0x22 # b @ CHR 0x22 # r \<and> string_body b v)"
proof
  assume "ParseString s = Some (v, r)"
  then obtain s' where "s = CHR 0x22 # s'" and "StringLoop [] s' = Some (v, r)"
    by (cases s) (auto simp: ParseString_def split: if_splits)
  then show "\<exists>b. s = CHR 0x22 # b @ CHR 0x22 # r \<and> string_body b v"
    by (auto dest!: StringLoop_sound)
next
  assume "\<exists>b. s = CHR 0x22 # b @ CHR 0x22 # r \<and> string_body b v"
  then show "ParseString s = Some (v, r)"
    by (auto simp: ParseString_def StringLoop_complete)
qed

text \<open>What the writer produces is the literal of the value written.\<close>

lemma all_less_16: "(\<forall>n < 16. P (n :: nat)) \<longleftrightarrow> list_all P [0..<16]"
  by (auto simp: list_all_iff)

lemma hex_digit_HEX: "n < 16 \<Longrightarrow> hex_digit (HEX ! n) = Some (of_nat n)"
proof -
  have "\<forall>n < 16. hex_digit (HEX ! n) = Some (of_nat n)"
    unfolding all_less_16 by (simp add: upt_rec HEX_def hex_digit_def ord_def)
  then show "n < 16 \<Longrightarrow> hex_digit (HEX ! n) = Some (of_nat n)" by blast
qed

lemma nibble_or: "n < 16 \<Longrightarrow> 16 OR of_nat n = (of_nat (16 + n) :: uint32)"
proof -
  have "\<forall>n < 16. 16 OR of_nat n = (of_nat (16 + n) :: uint32)"
    unfolding all_less_16 by (simp add: upt_rec)
  then show "n < 16 \<Longrightarrow> 16 OR of_nat n = (of_nat (16 + n) :: uint32)" by blast
qed

lemma hex_escape:
  assumes "n < 32"
  shows "hex_loop 0 [CHR ''0'', CHR ''0'', HEX ! (n div 16 mod 16), HEX ! (n mod 16)] = Some (of_nat n)"
proof -
  have z: "hex_digit (CHR ''0'') = Some 0"
    by (simp add: hex_digit_def ord_def)
  have lo: "hex_digit (HEX ! (n mod 16)) = Some (of_nat (n mod 16))"
    by (rule hex_digit_HEX) simp
  have hi: "hex_digit (HEX ! (n div 16 mod 16)) = Some (of_nat (n div 16 mod 16))"
    by (rule hex_digit_HEX) simp
  consider "n < 16" | m where "n = 16 + m" "m < 16"
    using assms by (cases "n < 16") (auto dest: le_Suc_ex simp: not_less)
  then have "push_bit 4 (of_nat (n div 16 mod 16)) OR of_nat (n mod 16) = (of_nat n :: uint32)"
  proof cases
    case 1
    then show ?thesis by simp
  next
    case (2 m)
    then have "n div 16 = 1" "n mod 16 = m" by simp_all
    with nibble_or [OF \<open>m < 16\<close>] \<open>n = 16 + m\<close> show ?thesis by (simp add: push_bit_eq_mult)
  qed
  with z lo hi show ?thesis by simp
qed

lemma escape_char_cases:
  obtains (escaped) e where "escape_char c = [CHR 0x5C, e]" "simple_escape e = Some c"
  | (hex) "escape_char c = CHR 0x5C # CHR ''u'' # [CHR ''0'', CHR ''0'', HEX ! (ord c div 16 mod 16), HEX ! (ord c mod 16)]"
      "ord c < 0x20"
  | (plain) "escape_char c = [c]" "0x20 \<le> ord c" "c \<noteq> CHR 0x22" "c \<noteq> CHR 0x5C"
proof -
  consider "c = CHR 0x22" | "c = CHR 0x5C" | "c = CHR 0x0A" | "c = CHR 0x0D" | "c = CHR 0x09"
    | "c = CHR 0x08" | "c = CHR 0x0C"
    | "c \<notin> {CHR 0x22, CHR 0x5C, CHR 0x0A, CHR 0x0D, CHR 0x09, CHR 0x08, CHR 0x0C}"
    by blast
  then show ?thesis
  proof cases
    case 1
    then show ?thesis by (intro escaped [of "CHR 0x22"]) (simp_all add: escape_char_def simple_escape_def)
  next
    case 2
    then show ?thesis by (intro escaped [of "CHR 0x5C"]) (simp_all add: escape_char_def simple_escape_def)
  next
    case 3
    then show ?thesis by (intro escaped [of "CHR ''n''"]) (simp_all add: escape_char_def simple_escape_def)
  next
    case 4
    then show ?thesis by (intro escaped [of "CHR ''r''"]) (simp_all add: escape_char_def simple_escape_def)
  next
    case 5
    then show ?thesis by (intro escaped [of "CHR ''t''"]) (simp_all add: escape_char_def simple_escape_def)
  next
    case 6
    then show ?thesis by (intro escaped [of "CHR ''b''"]) (simp_all add: escape_char_def simple_escape_def)
  next
    case 7
    then show ?thesis by (intro escaped [of "CHR ''f''"]) (simp_all add: escape_char_def simple_escape_def)
  next
    case 8
    then show ?thesis
      by (cases "ord c < 0x20") (auto simp: escape_char_def intro: hex plain)
  qed
qed

lemma escape_char_body:
  assumes "string_body s v"
  shows "string_body (escape_char c @ s) (c # v)"
proof -
  have u: "string_body (CHR 0x5C # CHR ''u'' # [CHR ''0'', CHR ''0'', HEX ! (ord c div 16 mod 16), HEX ! (ord c mod 16)] @ s) (c # v)"
    if "ord c < 0x20"
  proof -
    have less: "(of_nat (ord c) :: uint32) < 0x80" and eq: "unat (of_nat (ord c) :: uint32) = ord c"
      using that by (auto simp: word_less_nat_alt unsigned_of_nat take_bit_eq_mod)
    then have "AppendUtf8 [] (of_nat (ord c)) = [c]"
      by (simp add: AppendUtf8_def char_of_code_def)
    moreover from less have "\<not> (0xD800 \<le> (of_nat (ord c) :: uint32) \<and> (of_nat (ord c) :: uint32) \<le> 0xDFFF)"
      by (auto simp: word_less_nat_alt word_le_nat_alt)
    ultimately show ?thesis
      using sb_unicode [OF _ hex_escape _ assms, of "ord c"] that by simp
  qed
  show ?thesis
  proof (cases c rule: escape_char_cases)
    case (escaped e)
    then show ?thesis using sb_escape [OF escaped(2) assms] by simp
  next
    case hex
    then show ?thesis using u by simp
  next
    case plain
    then show ?thesis using sb_plain [OF plain(2,3,4) assms] by simp
  qed
qed

lemma escape_body: "string_body (concat (map escape_char v)) v"
  by (induction v) (auto intro: sb_nil escape_char_body)

section \<open>Unsigned decimals\<close>

text \<open>
  The overflow guard \<open>result > (max - digit) / 10\<close> is exact: a run of digits is read if and only if
  the number it denotes fits 64 bits, and then no step wrapped.
\<close>

lemma unsigned_guard:
  assumes "d < 10"
  shows "(v :: uint64) \<le> (uint64_max - of_nat d) div 10 \<longleftrightarrow> unat v * 10 + d < 2 ^ 64"
proof -
  have d: "unat (of_nat d :: uint64) = d"
    using assms by (simp add: unsigned_of_nat take_bit_eq_mod)
  have "unat (uint64_max - of_nat d) = 2 ^ 64 - 1 - d"
    by (simp add: unat_sub d)
  then have "unat ((uint64_max - of_nat d) div 10) = (2 ^ 64 - 1 - d) div 10"
    by (simp add: unat_div_distrib)
  then have "v \<le> (uint64_max - of_nat d) div 10 \<longleftrightarrow> unat v \<le> (2 ^ 64 - 1 - d) div 10"
    by (simp add: word_le_nat_alt)
  also have "\<dots> \<longleftrightarrow> unat v * 10 \<le> 2 ^ 64 - 1 - d"
    by (simp add: less_eq_div_iff_mult_less_eq)
  also have "\<dots> \<longleftrightarrow> unat v * 10 + d < 2 ^ 64"
    using assms by auto
  finally show ?thesis .
qed

lemma unsigned_step:
  assumes "d < 10" and "unat (v :: uint64) * 10 + d < 2 ^ 64"
  shows "unat (v * 10 + of_nat d) = unat v * 10 + d"
proof -
  have "v * 10 + of_nat d = of_nat (unat v * 10 + d)" by simp
  also have "unat (of_nat (unat v * 10 + d) :: uint64) = unat v * 10 + d"
    using assms by (simp add: unsigned_of_nat take_bit_eq_mod del: of_nat_add of_nat_mult)
  finally show ?thesis .
qed

lemma digit_value: "is_digit_char c \<Longrightarrow> ord c - 48 < 10"
  by (auto simp: is_digit_char_def)

lemma UnsignedLoop_digits:
  assumes "list_all is_digit_char ds" and "\<not> starts_digit r"
  shows "UnsignedLoop v n (ds @ r) =
    (if digits_value (unat v) ds < 2 ^ 64 then Some (of_nat (digits_value (unat v) ds), n + length ds, r)
     else None)"
  using assms(1)
proof (induction ds arbitrary: v n)
  case Nil
  from assms(2) show ?case
    using unat_less_64 [of v] by (cases r) (auto simp: starts_digit_def)
next
  case (Cons c ds)
  let ?d = "ord c - 48"
  from Cons.prems have c: "is_digit_char c" and d: "?d < 10" by (auto intro: digit_value)
  show ?case
  proof (cases "unat v * 10 + ?d < 2 ^ 64")
    case True
    with d have "\<not> v > (uint64_max - of_nat ?d) div 10" by (simp add: unsigned_guard not_less)
    with c True d Cons show ?thesis by (simp add: Let_def unsigned_step)
  next
    case False
    with d have "v > (uint64_max - of_nat ?d) div 10" by (simp add: unsigned_guard not_le [symmetric])
    moreover have "\<not> digits_value (unat v * 10 + ?d) ds < 2 ^ 64"
      using False digits_value_ge [of "unat v * 10 + ?d" ds] by linarith
    ultimately show ?thesis using c by (simp add: Let_def)
  qed
qed

definition number_stop :: "string \<Rightarrow> bool" where
  "number_stop r \<longleftrightarrow> \<not> starts_digit r \<and> (r = [] \<or> hd r \<notin> {CHR ''.'', CHR ''e'', CHR ''E''})"

definition unsigned_text :: "string \<Rightarrow> bool" where
  "unsigned_text t \<longleftrightarrow> t \<noteq> [] \<and> list_all is_digit_char t \<and> length t \<le> 20 \<and> digits_value 0 t < 2 ^ 64"

definition unsigned_value :: "nat \<Rightarrow> FlatJsonValue" where
  "unsigned_value n = default_value\<lparr>isUnsigned := True, number := of_nat n\<rparr>"

definition string_value :: "string \<Rightarrow> FlatJsonValue" where
  "string_value s = default_value\<lparr>isString := True, text_value := s\<rparr>"

lemma split_digits:
  obtains ds r where "s = ds @ r" "list_all is_digit_char ds" "\<not> starts_digit r"
proof (rule that [of "takeWhile is_digit_char s" "dropWhile is_digit_char s"])
  show "list_all is_digit_char (takeWhile is_digit_char s)"
    by (auto simp: list_all_iff dest: set_takeWhileD)
  show "\<not> starts_digit (dropWhile is_digit_char s)"
    using hd_dropWhile [of is_digit_char s] by (auto simp: starts_digit_def)
qed simp

lemma ParseUnsigned_iff:
  "ParseUnsigned s = Some (v, r) \<longleftrightarrow>
     (\<exists>t. s = t @ r \<and> unsigned_text t \<and> number_stop r \<and> v = unsigned_value (digits_value 0 t))"
proof -
  obtain ds q where s: "s = ds @ q" and ds: "list_all is_digit_char ds" and q: "\<not> starts_digit q"
    by (rule split_digits)
  have uniq: "t = ds \<and> r = q" if "s = t @ r" "list_all is_digit_char t" "\<not> starts_digit r" for t
  proof -
    have "takeWhile is_digit_char (t @ r) = t" "takeWhile is_digit_char (ds @ q) = ds"
      using that ds q by (auto intro!: takeWhile_digits_append(1) simp: starts_digit_def)
    with that s show ?thesis by simp
  qed
  show ?thesis
  proof
    assume "ParseUnsigned s = Some (v, r)"
    with s ds q show "\<exists>t. s = t @ r \<and> unsigned_text t \<and> number_stop r \<and> v = unsigned_value (digits_value 0 t)"
      by (intro exI [of _ ds])
         (auto simp: ParseUnsigned_def UnsignedLoop_digits unsigned_text_def number_stop_def
           unsigned_value_def split: if_splits)
  next
    assume "\<exists>t. s = t @ r \<and> unsigned_text t \<and> number_stop r \<and> v = unsigned_value (digits_value 0 t)"
    then obtain t where t: "s = t @ r" "unsigned_text t" "number_stop r" "v = unsigned_value (digits_value 0 t)"
      by blast
    with uniq [of t] have "t = ds" "r = q" by (auto simp: unsigned_text_def number_stop_def)
    with t s ds q show "ParseUnsigned s = Some (v, r)"
      by (auto simp: ParseUnsigned_def UnsignedLoop_digits unsigned_text_def number_stop_def unsigned_value_def)
  qed
qed

section \<open>JSON numbers\<close>

definition digits1 :: "string \<Rightarrow> bool" where
  "digits1 t \<longleftrightarrow> t \<noteq> [] \<and> list_all is_digit_char t"

definition int_text :: "string \<Rightarrow> bool" where
  "int_text t \<longleftrightarrow> t = ''0'' \<or> (\<exists>c ds. t = c # ds \<and> 49 \<le> ord c \<and> ord c \<le> 57 \<and> list_all is_digit_char ds)"

definition frac_text :: "string \<Rightarrow> bool" where
  "frac_text t \<longleftrightarrow> t = [] \<or> (\<exists>ds. t = CHR ''.'' # ds \<and> digits1 ds)"

definition exp_text :: "string \<Rightarrow> bool" where
  "exp_text t \<longleftrightarrow> t = [] \<or>
     (\<exists>x sg ds. t = x # sg @ ds \<and> (x = CHR ''e'' \<or> x = CHR ''E'') \<and> sg \<in> {[], ''+'', ''-''} \<and> digits1 ds)"

definition number_text :: "string \<Rightarrow> bool" where
  "number_text t \<longleftrightarrow> (\<exists>m i f e. t = m @ i @ f @ e \<and> m \<in> {[], ''-''} \<and> int_text i \<and> frac_text f \<and> exp_text e)"

lemma digit_chars [simp]:
  "is_digit_char (CHR ''0'')" "\<not> is_digit_char (CHR ''-'')" "\<not> is_digit_char (CHR ''+'')"
  "\<not> is_digit_char (CHR ''.'')" "\<not> is_digit_char (CHR ''e'')" "\<not> is_digit_char (CHR ''E'')"
  "\<not> is_digit_char (CHR 0x22)" "\<not> is_digit_char (CHR '','')" "\<not> is_digit_char (CHR '':'')"
  "\<not> is_digit_char (CHR ''['')" "\<not> is_digit_char (CHR '']'')" "\<not> is_digit_char (CHR ''{'')"
  "\<not> is_digit_char (CHR ''}'')" "\<not> is_digit_char (CHR ''t'')" "\<not> is_digit_char (CHR ''f'')"
  "\<not> is_digit_char (CHR ''n'')"
  by (simp_all add: is_digit_char_def ord_def)

lemma starts_digit_simps [simp]:
  "\<not> starts_digit []" "starts_digit (c # s) \<longleftrightarrow> is_digit_char c"
  by (simp_all add: starts_digit_def)

lemma starts_digit_append: "t \<noteq> [] \<Longrightarrow> starts_digit (t @ r) \<longleftrightarrow> starts_digit t"
  by (simp add: starts_digit_def)

lemma skip_digits_append:
  "list_all is_digit_char t \<Longrightarrow> \<not> starts_digit r \<Longrightarrow> skip_digits (t @ r) = r"
  unfolding skip_digits_def by (rule takeWhile_digits_append(2)) (auto simp: starts_digit_def)

lemma skip_digits_split:
  obtains t where "s = t @ skip_digits s" "list_all is_digit_char t" "\<not> starts_digit (skip_digits s)"
    "starts_digit s \<longleftrightarrow> t \<noteq> []"
proof -
  obtain t r where s: "s = t @ r" "list_all is_digit_char t" "\<not> starts_digit r"
    by (rule split_digits)
  then have "skip_digits s = r" by (simp add: skip_digits_append)
  with s show ?thesis
    by (intro that [of t]) (cases t; auto)+
qed

lemma skip_integer_sound: "skip_integer s = Some r \<Longrightarrow> \<exists>t. s = t @ r \<and> int_text t"
proof -
  assume a: "skip_integer s = Some r"
  then obtain c s' where s: "s = c # s'" by (cases s) (auto simp: skip_integer_def)
  show ?thesis
  proof (cases "c = CHR ''0''")
    case True
    with a s show ?thesis
      by (intro exI [of _ "''0''"]) (auto simp: skip_integer_def int_text_def split: if_splits)
  next
    case False
    with a s have c: "49 \<le> ord c" "ord c \<le> 57" and r: "r = skip_digits (c # s')"
      by (auto simp: skip_integer_def split: if_splits)
    then have r': "r = skip_digits s'" by (simp add: skip_digits_def is_digit_char_def)
    obtain t where "s' = t @ skip_digits s'" "list_all is_digit_char t" by (rule skip_digits_split)
    with s c r' show ?thesis by (intro exI [of _ "c # t"]) (auto simp: int_text_def)
  qed
qed

lemma skip_integer_complete: "int_text t \<Longrightarrow> \<not> starts_digit r \<Longrightarrow> skip_integer (t @ r) = Some r"
  unfolding int_text_def
proof (elim disjE exE conjE)
  fix c ds
  assume "\<not> starts_digit r" "t = c # ds" "49 \<le> ord c" "ord c \<le> 57" "list_all is_digit_char ds"
  moreover from this have "skip_digits ((c # ds) @ r) = r"
    by (intro skip_digits_append) (auto simp: is_digit_char_def)
  moreover have "c \<noteq> CHR ''0''" using \<open>49 \<le> ord c\<close> by (auto simp: ord_def)
  ultimately show "skip_integer (t @ r) = Some r" by (simp add: skip_integer_def)
qed (simp add: skip_integer_def)

lemma skip_fraction_sound: "skip_fraction s = Some r \<Longrightarrow> \<exists>t. s = t @ r \<and> frac_text t"
proof (cases "\<exists>s'. s = CHR ''.'' # s'")
  case True
  then obtain s' where s: "s = CHR ''.'' # s'" by blast
  assume "skip_fraction s = Some r"
  with s have "starts_digit s'" "r = skip_digits s'" by (auto simp: skip_fraction_def split: if_splits)
  moreover obtain t where "s' = t @ skip_digits s'" "list_all is_digit_char t" "starts_digit s' \<longleftrightarrow> t \<noteq> []"
    by (rule skip_digits_split)
  ultimately show ?thesis
    using s by (intro exI [of _ "CHR ''.'' # t"]) (simp add: frac_text_def digits1_def)
next
  case False
  assume "skip_fraction s = Some r"
  with False show ?thesis
    by (intro exI [of _ "[]"]) (auto simp: skip_fraction_def frac_text_def split: list.splits if_splits)
qed

lemma skip_fraction_complete:
  assumes "frac_text t" and "\<not> starts_digit r" and "t = [] \<Longrightarrow> r = [] \<or> hd r \<noteq> CHR ''.''"
  shows "skip_fraction (t @ r) = Some r"
proof (cases "t = []")
  case True
  with assms(3) show ?thesis by (cases r) (auto simp: skip_fraction_def)
next
  case False
  with assms(1) obtain ds where t: "t = CHR ''.'' # ds" and ds: "ds \<noteq> []" "list_all is_digit_char ds"
    by (auto simp: frac_text_def digits1_def)
  from ds have "starts_digit (ds @ r)" by (cases ds) auto
  with t ds assms(2) show ?thesis by (simp add: skip_fraction_def skip_digits_append)
qed

lemma skip_exponent_sound: "skip_exponent s = Some r \<Longrightarrow> \<exists>t. s = t @ r \<and> exp_text t"
proof (cases "\<exists>x s'. s = x # s' \<and> (x = CHR ''e'' \<or> x = CHR ''E'')")
  case True
  then obtain x s' where s: "s = x # s'" and x: "x = CHR ''e'' \<or> x = CHR ''E''" by blast
  define signed where "signed \<longleftrightarrow> s' \<noteq> [] \<and> (hd s' = CHR ''+'' \<or> hd s' = CHR ''-'')"
  define sg where "sg = (if signed then [hd s'] else [])"
  define q where q: "q = (if s' \<noteq> [] \<and> (hd s' = CHR ''+'' \<or> hd s' = CHR ''-'') then tl s' else s')"
  have sg: "s' = sg @ q" "sg \<in> {[], ''+'', ''-''}"
    by (auto simp: sg_def q signed_def)
  assume "skip_exponent s = Some r"
  with s x q have "starts_digit q" "r = skip_digits q"
    by (auto simp: skip_exponent_def Let_def split: if_splits)
  moreover obtain t where "q = t @ skip_digits q" "list_all is_digit_char t" "starts_digit q \<longleftrightarrow> t \<noteq> []"
    by (rule skip_digits_split)
  ultimately have "s = (x # sg @ t) @ r" "digits1 t" using s sg by (auto simp: digits1_def)
  with x sg(2) show ?thesis unfolding exp_text_def by blast
next
  case False
  assume "skip_exponent s = Some r"
  with False show ?thesis
    by (intro exI [of _ "[]"]) (auto simp: skip_exponent_def exp_text_def split: list.splits if_splits)
qed

lemma skip_exponent_complete:
  assumes "exp_text t" and "\<not> starts_digit r" and "t = [] \<Longrightarrow> r = [] \<or> hd r \<notin> {CHR ''e'', CHR ''E''}"
  shows "skip_exponent (t @ r) = Some r"
proof (cases "t = []")
  case True
  with assms(3) show ?thesis by (cases r) (auto simp: skip_exponent_def)
next
  case False
  with assms(1) obtain x sg ds where t: "t = x # sg @ ds" and x: "x = CHR ''e'' \<or> x = CHR ''E''"
    and sg: "sg \<in> {[], ''+'', ''-''}" and ds: "ds \<noteq> []" "list_all is_digit_char ds"
    by (auto simp: exp_text_def digits1_def)
  from ds have d: "starts_digit (ds @ r)" by (cases ds) auto
  moreover have "\<not> (hd (ds @ r) = CHR ''+'' \<or> hd (ds @ r) = CHR ''-'')"
    using d by (cases "ds @ r") auto
  ultimately show ?thesis
    using t x sg ds assms(2) by (auto simp: skip_exponent_def Let_def skip_digits_append)
qed

lemma TryConsume_split: "s = (if s \<noteq> [] \<and> hd s = c then [c] else []) @ TryConsume c s"
  by (cases s) (auto simp: TryConsume_def)

lemma SkipNumber_sound: "SkipNumber s = Some r \<Longrightarrow> \<exists>t. s = t @ r \<and> number_text t"
proof -
  assume "SkipNumber s = Some r"
  then obtain r1 r2 where "skip_integer (TryConsume (CHR ''-'') s) = Some r1"
    "skip_fraction r1 = Some r2" "skip_exponent r2 = Some r"
    by (auto simp: SkipNumber_def Let_def bind_eq_Some_conv)
  then obtain i f e where p: "TryConsume (CHR ''-'') s = i @ f @ e @ r" "int_text i" "frac_text f" "exp_text e"
    by (metis skip_integer_sound skip_fraction_sound skip_exponent_sound)
  obtain m where "s = m @ TryConsume (CHR ''-'') s" "m \<in> {[], ''-''}"
    using TryConsume_split [of s "CHR ''-''"] by (auto split: if_splits)
  with p have "s = (m @ i @ f @ e) @ r" "m \<in> {[], ''-''}" by simp_all
  with p show ?thesis unfolding number_text_def by blast
qed

lemma int_text_starts: "int_text i \<Longrightarrow> i \<noteq> [] \<and> starts_digit i"
  by (auto simp: int_text_def) (simp_all add: is_digit_char_def)

lemma SkipNumber_complete:
  assumes "number_text t" and "number_stop r"
  shows "SkipNumber (t @ r) = Some r"
proof -
  from assms(1) obtain m i f e where t: "t = m @ i @ f @ e" and m: "m \<in> {[], ''-''}"
    and i: "int_text i" and f: "frac_text f" and e: "exp_text e"
    unfolding number_text_def by blast
  have "TryConsume (CHR ''-'') (t @ r) = i @ f @ e @ r"
    using m int_text_starts [OF i] unfolding t by (cases i) (auto simp: TryConsume_def)
  moreover have "\<not> starts_digit (f @ e @ r)" and "\<not> starts_digit (e @ r)"
    using f e assms(2) by (auto simp: frac_text_def exp_text_def number_stop_def)
  then have "skip_integer (i @ f @ e @ r) = Some (f @ e @ r)" and "skip_fraction (f @ e @ r) = Some (e @ r)"
    using i f e assms(2)
    by (auto intro!: skip_integer_complete skip_fraction_complete simp: exp_text_def number_stop_def)
  moreover have "skip_exponent (e @ r) = Some r"
    using e assms(2) by (auto intro!: skip_exponent_complete simp: number_stop_def)
  ultimately show ?thesis by (simp add: SkipNumber_def Let_def)
qed

section \<open>Nested values\<close>

text \<open>
  The grammar of a value at nesting depth \<open>d\<close>. \<open>array_rest\<close> and \<open>object_rest\<close> are what follows the
  opening bracket and its white space, up to and including the closing bracket.
\<close>

definition blank :: "string \<Rightarrow> bool" where
  "blank w \<longleftrightarrow> list_all is_space w"

inductive json_text :: "nat \<Rightarrow> string \<Rightarrow> bool"
  and array_rest :: "nat \<Rightarrow> string \<Rightarrow> bool"
  and object_rest :: "nat \<Rightarrow> string \<Rightarrow> bool" where
  jt_string: "d \<le> MAX_NESTED_DEPTH \<Longrightarrow> string_body b v \<Longrightarrow> json_text d (CHR 0x22 # b @ [CHR 0x22])"
| jt_number: "d \<le> MAX_NESTED_DEPTH \<Longrightarrow> number_text t \<Longrightarrow> json_text d t"
| jt_literal: "d \<le> MAX_NESTED_DEPTH \<Longrightarrow> t \<in> {''true'', ''false'', ''null''} \<Longrightarrow> json_text d t"
| jt_array_empty: "d \<le> MAX_NESTED_DEPTH \<Longrightarrow> blank w \<Longrightarrow> json_text d (CHR ''['' # w @ '']'')"
| jt_array: "d \<le> MAX_NESTED_DEPTH \<Longrightarrow> blank w \<Longrightarrow> array_rest d t \<Longrightarrow> json_text d (CHR ''['' # w @ t)"
| jt_object_empty: "d \<le> MAX_NESTED_DEPTH \<Longrightarrow> blank w \<Longrightarrow> json_text d (CHR ''{'' # w @ ''}'')"
| jt_object: "d \<le> MAX_NESTED_DEPTH \<Longrightarrow> blank w \<Longrightarrow> object_rest d t \<Longrightarrow> json_text d (CHR ''{'' # w @ t)"
| ar_last: "json_text (Suc d) v \<Longrightarrow> blank w \<Longrightarrow> array_rest d (v @ w @ '']'')"
| ar_more: "json_text (Suc d) v \<Longrightarrow> blank w \<Longrightarrow> blank w' \<Longrightarrow> array_rest d t \<Longrightarrow>
     array_rest d (v @ w @ CHR '','' # w' @ t)"
| or_last: "string_body k x \<Longrightarrow> blank w1 \<Longrightarrow> blank w2 \<Longrightarrow> json_text (Suc d) v \<Longrightarrow> blank w3 \<Longrightarrow>
     object_rest d (CHR 0x22 # k @ CHR 0x22 # w1 @ CHR '':'' # w2 @ v @ w3 @ ''}'')"
| or_more: "string_body k x \<Longrightarrow> blank w1 \<Longrightarrow> blank w2 \<Longrightarrow> json_text (Suc d) v \<Longrightarrow> blank w3 \<Longrightarrow> blank w4 \<Longrightarrow>
     object_rest d t \<Longrightarrow>
     object_rest d (CHR 0x22 # k @ CHR 0x22 # w1 @ CHR '':'' # w2 @ v @ w3 @ CHR '','' # w4 @ t)"

definition starts_clean :: "string \<Rightarrow> bool" where
  "starts_clean t \<longleftrightarrow> t \<noteq> [] \<and> \<not> is_space (hd t)"

lemma space_chars [simp]:
  "\<not> is_space (CHR 0x22)" "\<not> is_space (CHR '','')" "\<not> is_space (CHR '':'')" "\<not> is_space (CHR ''['')"
  "\<not> is_space (CHR '']'')" "\<not> is_space (CHR ''{'')" "\<not> is_space (CHR ''}'')" "\<not> is_space (CHR ''-'')"
  "\<not> is_space (CHR ''t'')" "\<not> is_space (CHR ''f'')" "\<not> is_space (CHR ''n'')"
  by (simp_all add: is_space_def)

lemma starts_clean_Cons [simp]: "starts_clean (c # s) \<longleftrightarrow> \<not> is_space c"
  by (simp add: starts_clean_def)

lemma starts_clean_append [intro]: "starts_clean s \<Longrightarrow> starts_clean (s @ t)"
  by (simp add: starts_clean_def)

lemma SkipWhitespace_blank: "blank w \<Longrightarrow> starts_clean t \<Longrightarrow> SkipWhitespace (w @ t) = t"
  unfolding SkipWhitespace_def blank_def
  by (rule takeWhile_digits_append(2)) (auto simp: starts_clean_def)

lemma SkipWhitespace_clean: "starts_clean t \<Longrightarrow> SkipWhitespace t = t"
  using SkipWhitespace_blank [of "[]" t] by (simp add: blank_def)

lemma SkipWhitespace_split:
  obtains w where "s = w @ SkipWhitespace s" "blank w" "SkipWhitespace s = [] \<or> starts_clean (SkipWhitespace s)"
proof (rule that [of "takeWhile is_space s"])
  show "blank (takeWhile is_space s)"
    by (auto simp: blank_def list_all_iff dest: set_takeWhileD)
  show "SkipWhitespace s = [] \<or> starts_clean (SkipWhitespace s)"
    using hd_dropWhile [of is_space s] by (auto simp: starts_clean_def SkipWhitespace_def)
qed (simp add: SkipWhitespace_def)

lemma digit_not_space: "is_digit_char c \<Longrightarrow> \<not> is_space c"
  by (auto simp: is_digit_char_def is_space_def ord_def)

lemma number_text_head:
  assumes "number_text t"
  obtains c s where "t = c # s" "c = CHR ''-'' \<or> is_digit_char c"
proof -
  from assms obtain m i f e where t: "t = m @ i @ f @ e" "m \<in> {[], ''-''}" "int_text i"
    unfolding number_text_def by blast
  with int_text_starts [OF t(3)] show ?thesis
    by (cases i) (auto intro: that)
qed

definition value_start :: "string \<Rightarrow> bool" where
  "value_start t \<longleftrightarrow> starts_clean t \<and> hd t \<notin> {CHR '']'', CHR ''}'', CHR '','', CHR '':''}"

lemma json_text_start:
  "json_text d1 t1 \<Longrightarrow> value_start t1"
  "array_rest d2 t2 \<Longrightarrow> value_start t2"
  "object_rest d3 t3 \<Longrightarrow> value_start t3"
proof (induction rule: json_text_array_rest_object_rest.inducts)
  case (jt_number d t)
  then show ?case
    by (elim number_text_head) (auto simp: value_start_def digit_not_space)
qed (auto simp: value_start_def starts_clean_def)

lemma number_stop_simps [simp]:
  "number_stop []" "is_space c \<Longrightarrow> number_stop (c # s)"
  "number_stop (CHR '','' # s)" "number_stop (CHR '']'' # s)" "number_stop (CHR ''}'' # s)"
  by (auto simp: number_stop_def dest: digit_not_space) (simp_all add: is_space_def)

lemma number_stop_blank:
  "blank w \<Longrightarrow> number_stop t \<Longrightarrow> number_stop (w @ t)"
  by (cases w) (auto simp: blank_def)

lemma skip_literal:
  assumes "t \<in> {''true'', ''false'', ''null''}" and "d \<le> MAX_NESTED_DEPTH"
  shows "SkipJsonValue d (t @ r) = Some r"
  using assms by (subst SkipJsonValue.simps) (auto simp: ConsumeLiteral_def)

lemma skip_number:
  assumes "number_text t" and "d \<le> MAX_NESTED_DEPTH" and "number_stop r"
  shows "SkipJsonValue d (t @ r) = Some r"
proof -
  obtain c s where t: "t = c # s" and c: "c = CHR ''-'' \<or> is_digit_char c"
    by (rule number_text_head [OF assms(1)])
  from c have "c \<noteq> CHR 0x22" by auto
  moreover have "SkipNumber (t @ r) = Some r"
    by (rule SkipNumber_complete [OF assms(1,3)])
  ultimately show ?thesis
    using assms(2) t c by (subst SkipJsonValue.simps) auto
qed

lemma skip_string:
  assumes "string_body b v" and "d \<le> MAX_NESTED_DEPTH"
  shows "SkipJsonValue d (CHR 0x22 # b @ CHR 0x22 # r) = Some r"
proof -
  have "ParseString (CHR 0x22 # b @ CHR 0x22 # r) = Some (v, r)"
    using assms(1) by (auto simp: ParseString_iff)
  with assms(2) show ?thesis by (subst SkipJsonValue.simps) simp
qed

lemma skip_array_simps:
  "d \<le> MAX_NESTED_DEPTH \<Longrightarrow> SkipJsonValue d (CHR ''['' # s) = SkipArray d (CHR ''['' # s)"
  "d \<le> MAX_NESTED_DEPTH \<Longrightarrow> SkipJsonValue d (CHR ''{'' # s) = SkipObject d (CHR ''{'' # s)"
  by (simp_all add: SkipJsonValue.simps)

lemma SkipArray_open:
  assumes "blank w" and "value_start t"
  shows "SkipArray d (CHR ''['' # w @ t) = ArrayLoop d t"
proof -
  from assms(2) obtain c s where "t = c # s" "c \<noteq> CHR '']''"
    by (cases t) (auto simp: value_start_def starts_clean_def)
  moreover have "SkipWhitespace (w @ t) = t"
    using assms by (intro SkipWhitespace_blank) (auto simp: value_start_def)
  ultimately show ?thesis by (simp add: SkipArray.simps TryConsume_def Let_def)
qed

lemma SkipObject_open:
  assumes "blank w" and "value_start t"
  shows "SkipObject d (CHR ''{'' # w @ t) = ObjectLoop d t"
proof -
  from assms(2) obtain c s where "t = c # s" "c \<noteq> CHR ''}''"
    by (cases t) (auto simp: value_start_def starts_clean_def)
  moreover have "SkipWhitespace (w @ t) = t"
    using assms by (intro SkipWhitespace_blank) (auto simp: value_start_def)
  ultimately show ?thesis by (simp add: SkipObject.simps TryConsume_def Let_def)
qed

lemma ObjectLoop_member:
  assumes "string_body k x" and "blank w1" and "blank w2" and "value_start v"
  shows "ObjectLoop d (CHR 0x22 # k @ CHR 0x22 # w1 @ CHR '':'' # w2 @ v) =
    (case SkipJsonValue (Suc d) v of
       None \<Rightarrow> None
     | Some r2 \<Rightarrow>
         (case Consume (CHR '','') (SkipWhitespace r2) of
            Some s'' \<Rightarrow> ObjectLoop d (SkipWhitespace s'')
          | None \<Rightarrow> Consume (CHR ''}'') (SkipWhitespace r2)))"
proof -
  have "ParseString (CHR 0x22 # k @ CHR 0x22 # w1 @ CHR '':'' # w2 @ v) = Some (x, w1 @ CHR '':'' # w2 @ v)"
    using assms(1) by (auto simp: ParseString_iff)
  moreover have "SkipWhitespace (w1 @ CHR '':'' # w2 @ v) = CHR '':'' # w2 @ v"
    using assms(2) by (rule SkipWhitespace_blank) simp
  moreover have "SkipWhitespace (w2 @ v) = v"
    using assms(3,4) by (intro SkipWhitespace_blank) (auto simp: value_start_def)
  ultimately show ?thesis
    by (subst ObjectLoop.simps) (cases "SkipJsonValue (Suc d) v"; simp add: Let_def)
qed

lemma skip_complete:
  "json_text d1 t1 \<Longrightarrow> number_stop r \<Longrightarrow> SkipJsonValue d1 (t1 @ r) = Some r"
  "array_rest d2 t2 \<Longrightarrow> ArrayLoop d2 (t2 @ r) = Some r"
  "object_rest d3 t3 \<Longrightarrow> ObjectLoop d3 (t3 @ r) = Some r"
proof (induction arbitrary: r and r and r rule: json_text_array_rest_object_rest.inducts)
  case (jt_string d b v)
  then show ?case by (simp add: skip_string)
next
  case (jt_number d t)
  then show ?case by (simp add: skip_number)
next
  case (jt_literal d t)
  then show ?case by (simp add: skip_literal)
next
  case (jt_array_empty d w)
  have "SkipWhitespace (w @ CHR '']'' # r) = CHR '']'' # r"
    using jt_array_empty(2) by (rule SkipWhitespace_blank) simp
  with jt_array_empty show ?case
    by (simp add: skip_array_simps SkipArray.simps TryConsume_def Let_def)
next
  case (jt_object_empty d w)
  have "SkipWhitespace (w @ CHR ''}'' # r) = CHR ''}'' # r"
    using jt_object_empty(2) by (rule SkipWhitespace_blank) simp
  with jt_object_empty show ?case
    by (simp add: skip_array_simps SkipObject.simps TryConsume_def Let_def)
next
  case (jt_array d w t)
  then have "value_start (t @ r)"
    using json_text_start(2) by (auto simp: value_start_def starts_clean_def)
  with jt_array show ?case by (simp add: skip_array_simps SkipArray_open)
next
  case (jt_object d w t)
  then have "value_start (t @ r)"
    using json_text_start(3) by (auto simp: value_start_def starts_clean_def)
  with jt_object show ?case by (simp add: skip_array_simps SkipObject_open)
next
  case (ar_last d v w)
  have "SkipWhitespace (w @ CHR '']'' # r) = CHR '']'' # r"
    using ar_last(2) by (rule SkipWhitespace_blank) simp
  with ar_last show ?case
    by (subst ArrayLoop.simps) (simp add: number_stop_blank Let_def)
next
  case (ar_more d v w w' t)
  have 1: "SkipWhitespace (w @ CHR '','' # w' @ t @ r) = CHR '','' # w' @ t @ r"
    using ar_more(2) by (rule SkipWhitespace_blank) simp
  have 2: "SkipWhitespace (w' @ t @ r) = t @ r"
    using ar_more(3) json_text_start(2) [OF ar_more(4)]
    by (intro SkipWhitespace_blank) (auto simp: value_start_def)
  from 1 2 ar_more show ?case
    by (subst ArrayLoop.simps) (simp add: number_stop_blank Let_def)
next
  case (or_last k x w1 w2 d v w3)
  have 1: "SkipWhitespace (w3 @ CHR ''}'' # r) = CHR ''}'' # r"
    using or_last(5) by (rule SkipWhitespace_blank) simp
  have "value_start (v @ w3 @ CHR ''}'' # r)"
    using json_text_start(1) [OF or_last(4)] by (auto simp: value_start_def starts_clean_def)
  with 1 or_last show ?case
    by (simp add: ObjectLoop_member number_stop_blank)
next
  case (or_more k x w1 w2 d v w3 w4 t)
  have 1: "SkipWhitespace (w3 @ CHR '','' # w4 @ t @ r) = CHR '','' # w4 @ t @ r"
    using or_more(5) by (rule SkipWhitespace_blank) simp
  have 2: "SkipWhitespace (w4 @ t @ r) = t @ r"
    using or_more(6) json_text_start(3) [OF or_more(7)]
    by (intro SkipWhitespace_blank) (auto simp: value_start_def)
  have "value_start (v @ w3 @ CHR '','' # w4 @ t @ r)"
    using json_text_start(1) [OF or_more(4)] by (auto simp: value_start_def starts_clean_def)
  with 1 2 or_more show ?case
    by (simp add: ObjectLoop_member number_stop_blank)
qed

lemma Consume_Some [simp]: "Consume c s = Some r \<longleftrightarrow> s = c # r"
  by (cases s) auto

lemma ConsumeLiteral_Some: "ConsumeLiteral l n s = Some r \<Longrightarrow> s = l @ r"
  by (auto simp: ConsumeLiteral_def split: if_splits)

lemma close_sound:
  assumes "SkipWhitespace r = c # r'"
  obtains w where "r = w @ c # r'" "blank w"
  using SkipWhitespace_split [of r] assms by metis

lemma skip_sound:
  "SkipJsonValue d1 s1 = Some r \<Longrightarrow> \<exists>t. s1 = t @ r \<and> json_text d1 t"
  "SkipArray d2 s2 = Some r \<Longrightarrow> d2 \<le> MAX_NESTED_DEPTH \<Longrightarrow> s2 = CHR ''['' # q2 \<Longrightarrow>
     \<exists>t. s2 = t @ r \<and> json_text d2 t"
  "ArrayLoop d3 s3 = Some r \<Longrightarrow> \<exists>t. s3 = t @ r \<and> array_rest d3 t"
  "SkipObject d4 s4 = Some r \<Longrightarrow> d4 \<le> MAX_NESTED_DEPTH \<Longrightarrow> s4 = CHR ''{'' # q4 \<Longrightarrow>
     \<exists>t. s4 = t @ r \<and> json_text d4 t"
  "ObjectLoop d5 s5 = Some r \<Longrightarrow> \<exists>t. s5 = t @ r \<and> object_rest d5 t"
proof (induction d1 s1 and d2 s2 and d3 s3 and d4 s4 and d5 s5
    arbitrary: r and r q2 and r and r q4 and r
    rule: SkipJsonValue_SkipArray_ArrayLoop_SkipObject_ObjectLoop.induct)
  case (1 d s)
  from "1.prems" have d: "d \<le> MAX_NESTED_DEPTH" and "s \<noteq> []"
    by (auto simp: SkipJsonValue.simps [of d s] split: if_splits)
  then obtain c s' where s: "s = c # s'" by (cases s) auto
  note eq = "1.prems" [unfolded SkipJsonValue.simps [of d s]]
  consider (string) "c = CHR 0x22" | (num) "c = CHR ''-'' \<or> is_digit_char c" "c \<noteq> CHR 0x22"
    | (lit) "c = CHR ''t'' \<or> c = CHR ''f'' \<or> c = CHR ''n''"
    | (arr) "c = CHR ''[''" | (obj) "c = CHR ''{''" | (bad) "c \<noteq> CHR 0x22" "\<not> (c = CHR ''-'' \<or> is_digit_char c)"
      "c \<noteq> CHR ''t''" "c \<noteq> CHR ''f''" "c \<noteq> CHR ''n''" "c \<noteq> CHR ''[''" "c \<noteq> CHR ''{''"
    by blast
  then show ?case
  proof cases
    case string
    with eq s d obtain v where "ParseString s = Some (v, r)"
      by auto
    then obtain b where "s = CHR 0x22 # b @ CHR 0x22 # r" "string_body b v" by (auto simp: ParseString_iff)
    then show ?thesis using d by (intro exI [of _ "CHR 0x22 # b @ [CHR 0x22]"]) (auto intro: jt_string)
  next
    case num
    with eq s d have "SkipNumber s = Some r" by auto
    then show ?thesis using d by (auto dest!: SkipNumber_sound intro: jt_number)
  next
    case lit
    with eq s d have "\<exists>l \<in> {''true'', ''false'', ''null''}. s = l @ r"
      by (auto dest!: ConsumeLiteral_Some)
    then show ?thesis using d by (blast intro: jt_literal)
  next
    case arr
    with eq s d have "SkipArray d s = Some r" by simp
    with 1(1) [OF _ s] arr d s show ?thesis by simp
  next
    case obj
    with eq s d have "SkipObject d s = Some r" by simp
    with 1(2) [OF _ s] obj d s show ?thesis by simp
  next
    case bad
    with eq s d show ?thesis by simp
  qed
next
  case (2 d s)
  let ?t = "SkipWhitespace q2"
  obtain w where w: "q2 = w @ ?t" "blank w" by (rule SkipWhitespace_split)
  have tc: "TryConsume (CHR ''['') s = q2" using "2.prems" by (simp add: TryConsume_def)
  show ?case
  proof (cases "\<exists>q. ?t = CHR '']'' # q")
    case True
    with "2.prems" tc have "?t = CHR '']'' # r" by (auto simp: SkipArray.simps Let_def)
    with w "2.prems" show ?thesis
      by (intro exI [of _ "CHR ''['' # w @ '']''"]) (auto intro: jt_array_empty)
  next
    case False
    then have n: "Consume (CHR '']'') ?t = None" by (cases ?t) auto
    with "2.prems"(1) tc have "ArrayLoop d ?t = Some r" by (simp add: SkipArray.simps Let_def)
    with "2.IH" [of ?t] n tc obtain t where "?t = t @ r" "array_rest d t" by auto
    with w "2.prems" show ?thesis
      by (intro exI [of _ "CHR ''['' # w @ t"]) (auto intro: jt_array)
  qed
next
  case (3 d s)
  from "3.prems" obtain r1 where r1: "SkipJsonValue (Suc d) s = Some r1"
    by (auto simp: ArrayLoop.simps [of d s] split: option.splits)
  with "3.IH"(1) obtain v where v: "s = v @ r1" "json_text (Suc d) v" by blast
  show ?case
  proof (cases "\<exists>q. SkipWhitespace r1 = CHR '','' # q")
    case True
    then obtain q where q: "SkipWhitespace r1 = CHR '','' # q" by blast
    with "3.prems" r1 have "ArrayLoop d (SkipWhitespace q) = Some r"
      by (simp add: ArrayLoop.simps [of d s])
    with "3.IH"(2) [OF r1 refl, of q] q obtain t where t: "SkipWhitespace q = t @ r" "array_rest d t" by auto
    obtain w where w: "r1 = w @ CHR '','' # q" "blank w" by (rule close_sound [OF q])
    obtain w' where w': "q = w' @ SkipWhitespace q" "blank w'" by (rule SkipWhitespace_split)
    from v w w' t ar_more [OF v(2) w(2) w'(2) t(2)] show ?thesis
      by (intro exI [of _ "v @ w @ CHR '','' # w' @ t"]) auto
  next
    case False
    then have "Consume (CHR '','') (SkipWhitespace r1) = None" by (cases "SkipWhitespace r1") auto
    with "3.prems" r1 have "SkipWhitespace r1 = CHR '']'' # r"
      by (simp add: ArrayLoop.simps [of d s])
    then obtain w where "r1 = w @ CHR '']'' # r" "blank w" by (rule close_sound)
    with v ar_last [OF v(2)] show ?thesis by (intro exI [of _ "v @ w @ '']''"]) auto
  qed
next
  case (4 d s)
  let ?t = "SkipWhitespace q4"
  obtain w where w: "q4 = w @ ?t" "blank w" by (rule SkipWhitespace_split)
  have tc: "TryConsume (CHR ''{'') s = q4" using "4.prems" by (simp add: TryConsume_def)
  show ?case
  proof (cases "\<exists>q. ?t = CHR ''}'' # q")
    case True
    with "4.prems" tc have "?t = CHR ''}'' # r" by (auto simp: SkipObject.simps Let_def)
    with w "4.prems" show ?thesis
      by (intro exI [of _ "CHR ''{'' # w @ ''}''"]) (auto intro: jt_object_empty)
  next
    case False
    then have n: "Consume (CHR ''}'') ?t = None" by (cases ?t) auto
    with "4.prems"(1) tc have "ObjectLoop d ?t = Some r" by (simp add: SkipObject.simps Let_def)
    with "4.IH" [of ?t] n tc obtain t where "?t = t @ r" "object_rest d t" by auto
    with w "4.prems" show ?thesis
      by (intro exI [of _ "CHR ''{'' # w @ t"]) (auto intro: jt_object)
  qed
next
  case (5 d s)
  from "5.prems" obtain x r0 r1 r2 where p: "ParseString s = Some (x, r0)"
    and c: "Consume (CHR '':'') (SkipWhitespace r0) = Some r1"
    and j: "SkipJsonValue (Suc d) (SkipWhitespace r1) = Some r2"
    by (auto simp: ObjectLoop.simps [of d s] split: option.splits)
  from p obtain k where k: "s = CHR 0x22 # k @ CHR 0x22 # r0" "string_body k x"
    by (auto simp: ParseString_iff)
  obtain w1 where w1: "r0 = w1 @ CHR '':'' # r1" "blank w1"
    using c close_sound by (metis Consume_Some)
  obtain w2 where w2: "r1 = w2 @ SkipWhitespace r1" "blank w2" by (rule SkipWhitespace_split)
  from "5.IH"(1) [OF p refl c j] obtain v where v: "SkipWhitespace r1 = v @ r2" "json_text (Suc d) v"
    by blast
  show ?case
  proof (cases "\<exists>q. SkipWhitespace r2 = CHR '','' # q")
    case True
    then obtain q where q: "SkipWhitespace r2 = CHR '','' # q" by blast
    with "5.prems" p c j have "ObjectLoop d (SkipWhitespace q) = Some r"
      by (simp add: ObjectLoop.simps [of d s])
    with "5.IH"(2) [OF p refl c j refl, of q] q obtain t where t: "SkipWhitespace q = t @ r" "object_rest d t"
      by auto
    obtain w3 where w3: "r2 = w3 @ CHR '','' # q" "blank w3" by (rule close_sound [OF q])
    obtain w4 where w4: "q = w4 @ SkipWhitespace q" "blank w4" by (rule SkipWhitespace_split)
    from or_more [OF k(2) w1(2) w2(2) v(2) w3(2) w4(2) t(2)] k w1 w2 v w3 w4 t show ?thesis
      by (intro exI [of _ "CHR 0x22 # k @ CHR 0x22 # w1 @ CHR '':'' # w2 @ v @ w3 @ CHR '','' # w4 @ t"]) auto
  next
    case False
    then have "Consume (CHR '','') (SkipWhitespace r2) = None" by (cases "SkipWhitespace r2") auto
    with "5.prems" p c j have "SkipWhitespace r2 = CHR ''}'' # r"
      by (simp add: ObjectLoop.simps [of d s])
    then obtain w3 where w3: "r2 = w3 @ CHR ''}'' # r" "blank w3" by (rule close_sound)
    from or_last [OF k(2) w1(2) w2(2) v(2) w3(2)] k w1 w2 v w3 show ?thesis
      by (intro exI [of _ "CHR 0x22 # k @ CHR 0x22 # w1 @ CHR '':'' # w2 @ v @ w3 @ ''}''"]) auto
  qed
qed

end
