(* ===== verification/Flat_Object.thy ===== *)
theory Flat_Object
  imports Json_Grammar
begin

text \<open>
  The contract of \<open>FlatJsonParser::Parse\<close>: the grammar of a flat request object with the list of
  fields it denotes, in textual order, and what the parser makes of that list (first value of a key
  wins; a repeated key is an error, or is reported in \<open>duplicateFields\<close>). The parser accepts exactly
  this grammar. The renderer at the end is the reference for what a client sends.
\<close>

section \<open>Field values\<close>

inductive flat_value :: "string \<Rightarrow> FlatJsonValue \<Rightarrow> bool" where
  fv_string: "string_body b v \<Longrightarrow> flat_value (CHR 0x22 # b @ [CHR 0x22]) (string_value v)"
| fv_unsigned: "unsigned_text t \<Longrightarrow> flat_value t (unsigned_value (digits_value 0 t))"
| fv_other: "json_text 0 t \<Longrightarrow> hd t \<noteq> CHR 0x22 \<Longrightarrow> \<not> unsigned_text t \<Longrightarrow> flat_value t default_value"

lemma unsigned_text_start: "unsigned_text t \<Longrightarrow> t \<noteq> [] \<and> starts_digit t"
  by (cases t) (auto simp: unsigned_text_def)

lemma flat_value_start:
  assumes "flat_value t v"
  shows "value_start t"
  using assms
proof (cases rule: flat_value.cases)
  case fv_unsigned
  then show ?thesis
    using unsigned_text_start [of t] digit_not_space [of "hd t"]
    by (cases t) (auto simp: value_start_def)
next
  case fv_other
  then show ?thesis by (simp add: json_text_start(1))
qed (auto simp: value_start_def)

inductive_cases json_text_any: "json_text d t"

lemma json_text_digit:
  assumes "json_text d t" and "starts_digit t"
  shows "number_text t"
  using assms by (auto elim!: json_text_any)

lemma exp_text_nondigit: "exp_text e \<Longrightarrow> e \<noteq> [] \<Longrightarrow> hd e \<in> {CHR ''e'', CHR ''E''}"
  by (auto simp: exp_text_def)

lemma frac_text_nondigit: "frac_text f \<Longrightarrow> f \<noteq> [] \<Longrightarrow> hd f = CHR ''.''"
  by (auto simp: frac_text_def)

lemma number_text_split:
  assumes "number_text t" and "starts_digit t"
  obtains i q where "t = i @ q" "list_all is_digit_char i" "i \<noteq> []"
    "q = [] \<or> hd q \<in> {CHR ''.'', CHR ''e'', CHR ''E''}"
proof -
  from assms(1) obtain m i f e where t: "t = m @ i @ f @ e" and m: "m \<in> {[], ''-''}"
    and i: "int_text i" and f: "frac_text f" and e: "exp_text e"
    unfolding number_text_def by blast
  from m assms(2) t have "m = []" by auto
  moreover have "list_all is_digit_char i"
    using i by (auto simp: int_text_def) (simp add: is_digit_char_def)
  moreover have "f @ e = [] \<or> hd (f @ e) \<in> {CHR ''.'', CHR ''e'', CHR ''E''}"
    using exp_text_nondigit [OF e] frac_text_nondigit [OF f] by (cases "f = []") auto
  ultimately show ?thesis
    using t int_text_starts [OF i] by (intro that [of i "f @ e"]) auto
qed

lemma digits_prefix_unique:
  assumes "t @ r = t' @ r'" and "list_all is_digit_char t" and "list_all is_digit_char t'"
    and "\<not> starts_digit r" and "\<not> starts_digit r'"
  shows "t = t' \<and> r = r'"
proof -
  have "takeWhile is_digit_char (t @ r) = t"
    using assms(2,4) by (intro takeWhile_digits_append(1)) (auto simp: starts_digit_def)
  moreover have "takeWhile is_digit_char (t' @ r') = t'"
    using assms(3,5) by (intro takeWhile_digits_append(1)) (auto simp: starts_digit_def)
  ultimately show ?thesis using assms(1) by simp
qed

lemma number_text_not_unsigned:
  assumes "number_text t" and "starts_digit t" and "\<not> unsigned_text t" and "number_stop r"
  shows "ParseUnsigned (t @ r) = None"
proof (rule ccontr)
  assume "ParseUnsigned (t @ r) \<noteq> None"
  then obtain v r' where "ParseUnsigned (t @ r) = Some (v, r')" by auto
  then obtain t' where t': "t @ r = t' @ r'" and u: "unsigned_text t'" and s: "number_stop r'"
    by (auto simp: ParseUnsigned_iff)
  obtain i q where t: "t = i @ q" and i: "list_all is_digit_char i"
    and q: "q = [] \<or> hd q \<in> {CHR ''.'', CHR ''e'', CHR ''E''}"
    using number_text_split [OF assms(1,2)] by metis
  have "\<not> starts_digit (q @ r)"
    using q assms(4) by (cases q) (auto simp: number_stop_def)
  moreover have "i @ (q @ r) = t' @ r'" using t t' by simp
  ultimately have "i = t' \<and> q @ r = r'"
    using i u s by (intro digits_prefix_unique) (auto simp: unsigned_text_def number_stop_def)
  moreover from this s q have "q = []" by (cases q) (auto simp: number_stop_def)
  ultimately have "unsigned_text t" using u t by simp
  with assms(3) show False ..
qed

lemma ParseValue_complete:
  assumes "flat_value t v" and "number_stop r"
  shows "ParseValue (t @ r) = Some (v, r)"
  using assms(1)
proof (cases rule: flat_value.cases)
  case (fv_string b x)
  then have "ParseString (t @ r) = Some (x, r)" by (auto simp: ParseString_iff)
  with fv_string show ?thesis by (simp add: ParseValue_def string_value_def)
next
  case fv_unsigned
  then have "ParseUnsigned (t @ r) = Some (v, r)"
    using assms(2) by (auto simp: ParseUnsigned_iff)
  with unsigned_text_start [of t] fv_unsigned show ?thesis
    by (cases t) (auto simp: ParseValue_def)
next
  case fv_other
  have skip: "SkipJsonValue 0 (t @ r) = Some r"
    using fv_other(2) assms(2) by (rule skip_complete(1))
  from json_text_start(1) [OF fv_other(2)] obtain c s where t: "t = c # s"
    by (cases t) (auto simp: value_start_def starts_clean_def)
  have "ParseUnsigned (t @ r) = None" if "is_digit_char c"
  proof -
    from that have "starts_digit t" using t by simp
    with fv_other assms(2) json_text_digit show ?thesis
      by (simp add: number_text_not_unsigned)
  qed
  with skip fv_other show ?thesis unfolding t by (auto simp: ParseValue_def)
qed

lemma skip_fraction_dot_length: "skip_fraction (CHR ''.'' # x) = Some r \<Longrightarrow> length r \<le> length x"
  by (auto simp: skip_fraction_def skip_digits_length split: if_splits)

lemma skip_exponent_e_length:
  "c = CHR ''e'' \<or> c = CHR ''E'' \<Longrightarrow> skip_exponent (c # x) = Some r \<Longrightarrow> length r \<le> length x"
  by (auto simp: skip_exponent_def Let_def intro!: le_trans [OF skip_digits_length] split: if_splits)

lemma skip_fraction_same: "skip_fraction r = Some r \<Longrightarrow> r = [] \<or> hd r \<noteq> CHR ''.''"
  by (cases r) (auto dest: skip_fraction_dot_length)

lemma skip_exponent_same: "skip_exponent r = Some r \<Longrightarrow> r = [] \<or> hd r \<notin> {CHR ''e'', CHR ''E''}"
  by (cases r) (auto dest!: skip_exponent_e_length [rotated])

lemma SkipNumber_digits_stop:
  assumes "SkipNumber (t @ r) = Some r" and "unsigned_text t"
  shows "number_stop r"
proof -
  from assms(2) obtain c s where c: "t = c # s" "is_digit_char c" and ds: "list_all is_digit_char t"
    by (cases t) (auto simp: unsigned_text_def)
  then have "TryConsume (CHR ''-'') (t @ r) = t @ r" by (auto simp: TryConsume_def)
  with assms(1) obtain r1 r2 where s: "skip_integer (t @ r) = Some r1" "skip_fraction r1 = Some r2"
    "skip_exponent r2 = Some r"
    by (auto simp: SkipNumber_def Let_def bind_eq_Some_conv)
  then obtain i f e where i: "t @ r = i @ r1" and f: "r1 = f @ r2" "frac_text f"
    and e: "r2 = e @ r" "exp_text e"
    by (metis skip_integer_sound skip_fraction_sound skip_exponent_sound)
  then have t: "t = i @ f @ e" by simp
  with ds have "f = []" "e = []"
    using frac_text_nondigit [OF f(2)] exp_text_nondigit [OF e(2)]
    by (cases f; cases e; auto)+
  with f e have r: "r1 = r" "r2 = r" by simp_all
  with s have "\<not> starts_digit r"
    using c skip_digits_split [of "t @ r"]
    by (auto simp: skip_integer_def split: if_splits)
  with s r skip_fraction_same [of r] skip_exponent_same [of r] show ?thesis
    by (auto simp: number_stop_def)
qed

lemma ParseValue_sound:
  assumes "ParseValue s = Some (v, r)"
  shows "\<exists>t. s = t @ r \<and> flat_value t v"
proof -
  from assms obtain c s' where s: "s = c # s'" by (cases s) (auto simp: ParseValue_def)
  show ?thesis
  proof (cases "c = CHR 0x22")
    case True
    with assms s obtain x where "ParseString s = Some (x, r)" and v: "v = string_value x"
      by (auto simp: ParseValue_def string_value_def split: option.splits)
    then obtain b where "s = (CHR 0x22 # b @ [CHR 0x22]) @ r" "string_body b x"
      by (auto simp: ParseString_iff)
    with v show ?thesis using fv_string by blast
  next
    case False
    let ?u = "if is_digit_char c then ParseUnsigned s else None"
    show ?thesis
    proof (cases ?u)
      case (Some p)
      with assms s False have "ParseUnsigned s = Some (v, r)"
        by (auto simp: ParseValue_def split: if_splits prod.splits)
      then show ?thesis by (auto simp: ParseUnsigned_iff intro: fv_unsigned)
    next
      case None
      with assms s False have skip: "SkipJsonValue 0 s = Some r" and v: "v = default_value"
        by (auto simp: ParseValue_def split: option.splits)
      from skip_sound(1) [OF skip] obtain t where t: "s = t @ r" "json_text 0 t" by blast
      then have head: "hd t = c" "t \<noteq> []"
        using s json_text_start(1) [OF t(2)] by (auto simp: value_start_def starts_clean_def)
          (metis hd_append2 list.sel(1))
      have "\<not> unsigned_text t"
      proof
        assume u: "unsigned_text t"
        then have c: "is_digit_char c" using unsigned_text_start [OF u] head by (simp add: starts_digit_def)
        with skip s have "SkipNumber s = Some r"
          using False by (subst (asm) SkipJsonValue.simps) (auto split: if_splits)
        with t u have "number_stop r" by (auto intro: SkipNumber_digits_stop)
        with t u have "ParseUnsigned s \<noteq> None" by (auto simp: ParseUnsigned_iff)
        with None c show False by simp
      qed
      with t v head False show ?thesis by (auto intro: fv_other)
    qed
  qed
qed

section \<open>Objects\<close>

type_synonym raw_fields = "(string \<times> FlatJsonValue) list"

text \<open>\<open>fields_rest kvs t\<close>: from the first key to the closing brace, \<open>t\<close> holds the fields \<open>kvs\<close>.\<close>

inductive fields_rest :: "raw_fields \<Rightarrow> string \<Rightarrow> bool" where
  fr_last: "string_body k x \<Longrightarrow> blank w1 \<Longrightarrow> blank w2 \<Longrightarrow> flat_value t v \<Longrightarrow> blank w3 \<Longrightarrow>
     fields_rest [(x, v)] (CHR 0x22 # k @ CHR 0x22 # w1 @ CHR '':'' # w2 @ t @ w3 @ ''}'')"
| fr_more: "string_body k x \<Longrightarrow> blank w1 \<Longrightarrow> blank w2 \<Longrightarrow> flat_value t v \<Longrightarrow> blank w3 \<Longrightarrow> blank w4 \<Longrightarrow>
     fields_rest kvs u \<Longrightarrow>
     fields_rest ((x, v) # kvs) (CHR 0x22 # k @ CHR 0x22 # w1 @ CHR '':'' # w2 @ t @ w3 @ CHR '','' # w4 @ u)"

definition flat_object :: "raw_fields \<Rightarrow> string \<Rightarrow> bool" where
  "flat_object kvs s \<longleftrightarrow>
     (\<exists>w0 w1 t w2. s = w0 @ CHR ''{'' # w1 @ t @ w2 \<and> blank w0 \<and> blank w1 \<and> blank w2 \<and>
        (if kvs = [] then t = ''}'' else fields_rest kvs t))"

text \<open>What the parser keeps of the fields it has read.\<close>

fun keep_fields :: "FlatJsonFields \<Rightarrow> duplicates \<Rightarrow> raw_fields \<Rightarrow> (FlatJsonFields \<times> duplicates) option" where
  "keep_fields fs dups [] = Some (fs, dups)"
| "keep_fields fs dups ((k, v) # kvs) =
     (if \<not> contains fs k then keep_fields (fs @ [(k, v)]) dups kvs
      else case dups of
        None \<Rightarrow> None
      | Some names \<Rightarrow> keep_fields fs (Some (insert k names)) kvs)"

lemma contains_iff: "contains fs k \<longleftrightarrow> k \<in> fst ` set fs"
  by (simp add: contains_def map_of_eq_None_iff)

text \<open>Strict mode: success exactly for distinct keys, and then all fields are kept in order.\<close>

lemma keep_fields_strict:
  "keep_fields fs None kvs =
     (if distinct (map fst kvs) \<and> fst ` set fs \<inter> fst ` set kvs = {} then Some (fs @ kvs, None) else None)"
proof (induction kvs arbitrary: fs)
  case (Cons kv kvs)
  obtain k v where "kv = (k, v)" by (cases kv)
  with Cons show ?case by (auto simp: contains_iff)
qed simp

text \<open>Lenient mode: never fails, keeps the first value of every key and reports the repeated ones.\<close>

lemma keep_fields_lenient:
  "\<exists>fs' names'. keep_fields fs (Some names) kvs = Some (fs', Some names') \<and>
     map_of fs' = map_of kvs ++ map_of fs \<and>
     (\<forall>n. n \<in> names' \<longleftrightarrow> n \<in> names \<or>
        (if contains fs n then 0 else 1) < count_list (map fst kvs) n)"
proof (induction kvs arbitrary: fs names)
  case Nil
  then show ?case by simp
next
  case (Cons kv kvs)
  obtain k v where kv: "kv = (k, v)" by (cases kv)
  show ?case
  proof (cases "contains fs k")
    case True
    obtain fs' names' where IH: "keep_fields fs (Some (insert k names)) kvs = Some (fs', Some names')"
      "map_of fs' = map_of kvs ++ map_of fs"
      "\<And>n. n \<in> names' \<longleftrightarrow> n \<in> insert k names \<or>
        (if contains fs n then 0 else 1) < count_list (map fst kvs) n"
      using Cons by blast
    have "map_of (kv # kvs) ++ map_of fs = map_of kvs ++ map_of fs"
      using True kv by (auto simp: fun_eq_iff map_add_def contains_def split: option.splits)
    moreover have "n \<in> names' \<longleftrightarrow> n \<in> names \<or>
        (if contains fs n then 0 else 1) < count_list (map fst (kv # kvs)) n" for n
      using True kv IH(3) [of n] by (cases "n = k") simp_all
    moreover have "keep_fields fs (Some names) (kv # kvs) = Some (fs', Some names')"
      using IH(1) True kv by simp
    ultimately show ?thesis using IH(2) by metis
  next
    case False
    obtain fs' names' where IH: "keep_fields (fs @ [(k, v)]) (Some names) kvs = Some (fs', Some names')"
      "map_of fs' = map_of kvs ++ map_of (fs @ [(k, v)])"
      "\<And>n. n \<in> names' \<longleftrightarrow> n \<in> names \<or>
        (if contains (fs @ [(k, v)]) n then 0 else 1) < count_list (map fst kvs) n"
      using Cons by blast
    have "map_of kvs ++ map_of (fs @ [(k, v)]) = map_of (kv # kvs) ++ map_of fs"
      using False kv by (auto simp: fun_eq_iff map_add_def contains_def split: option.splits)
    moreover have "n \<in> names' \<longleftrightarrow> n \<in> names \<or>
        (if contains fs n then 0 else 1) < count_list (map fst (kv # kvs)) n" for n
      using False kv IH(3) [of n] by (cases "n = k") (simp_all add: contains_iff)
    moreover have "keep_fields fs (Some names) (kv # kvs) = Some (fs', Some names')"
      using IH(1) False kv by simp
    ultimately show ?thesis using IH(2) by metis
  qed
qed

lemma ParseField_complete:
  assumes "string_body k x" and "blank w0" and "blank w1" and "blank w2" and "flat_value t v" and "number_stop r"
  shows "ParseField fs dups (w0 @ CHR 0x22 # k @ CHR 0x22 # w1 @ CHR '':'' # w2 @ t @ r) =
    (if \<not> contains fs x then Some (fs @ [(x, v)], dups, r)
     else map_option (\<lambda>names. (fs, Some (insert x names), r)) dups)"
proof -
  have "SkipWhitespace (w0 @ CHR 0x22 # k @ CHR 0x22 # w1 @ CHR '':'' # w2 @ t @ r) =
      CHR 0x22 # k @ CHR 0x22 # w1 @ CHR '':'' # w2 @ t @ r"
    using assms(2) by (rule SkipWhitespace_blank) simp
  moreover have "ParseString (CHR 0x22 # k @ CHR 0x22 # w1 @ CHR '':'' # w2 @ t @ r) = Some (x, w1 @ CHR '':'' # w2 @ t @ r)"
    using assms(1) by (auto simp: ParseString_iff)
  moreover have "SkipWhitespace (w1 @ CHR '':'' # w2 @ t @ r) = CHR '':'' # w2 @ t @ r"
    using assms(3) by (rule SkipWhitespace_blank) simp
  moreover have "SkipWhitespace (w2 @ t @ r) = t @ r"
    using assms(4) flat_value_start [OF assms(5)]
    by (intro SkipWhitespace_blank) (auto simp: value_start_def)
  ultimately show ?thesis
    using ParseValue_complete [OF assms(5,6)]
    by (cases dups) (simp_all add: ParseField_def emplace_def)
qed

lemma ParseField_sound:
  assumes "ParseField fs dups s = Some (fs', dups', r)"
  obtains w0 k x w1 w2 t v where
    "s = w0 @ CHR 0x22 # k @ CHR 0x22 # w1 @ CHR '':'' # w2 @ t @ r"
    "string_body k x" "blank w0" "blank w1" "blank w2" "flat_value t v"
    "keep_fields fs dups [(x, v)] = Some (fs', dups')"
proof -
  from assms obtain x v r0 r1 where p: "ParseString (SkipWhitespace s) = Some (x, r0)"
    and c: "Consume (CHR '':'') (SkipWhitespace r0) = Some r1"
    and v: "ParseValue (SkipWhitespace r1) = Some (v, r)"
    and k: "keep_fields fs dups [(x, v)] = Some (fs', dups')"
    by (cases dups) (auto simp: ParseField_def emplace_def Let_def split: option.splits prod.splits if_splits)
  obtain w0 where w0: "s = w0 @ SkipWhitespace s" "blank w0" by (rule SkipWhitespace_split)
  obtain b where b: "SkipWhitespace s = CHR 0x22 # b @ CHR 0x22 # r0" "string_body b x"
    using p by (auto simp: ParseString_iff)
  obtain w1 where w1: "r0 = w1 @ CHR '':'' # r1" "blank w1"
    using c close_sound by (metis Consume_Some)
  obtain w2 where w2: "r1 = w2 @ SkipWhitespace r1" "blank w2" by (rule SkipWhitespace_split)
  obtain t where t: "SkipWhitespace r1 = t @ r" "flat_value t v"
    using ParseValue_sound [OF v] by blast
  show ?thesis
    by (rule that [of w0 b w1 w2 t x v]) (use w0 b w1 w2 t k in simp_all)
qed

lemma keep_fields_append:
  "keep_fields fs dups (xs @ ys) =
     (case keep_fields fs dups xs of None \<Rightarrow> None | Some (fs', dups') \<Rightarrow> keep_fields fs' dups' ys)"
  by (induction fs dups xs rule: keep_fields.induct) (auto split: option.splits)

lemma FieldsLoop_complete:
  assumes "fields_rest kvs u" and "blank w0"
  shows "FieldsLoop fs dups (w0 @ u @ r) =
    (case keep_fields fs dups kvs of None \<Rightarrow> None | Some (fs', dups') \<Rightarrow> Finish fs' dups' r)"
  using assms
proof (induction kvs u arbitrary: fs dups w0 rule: fields_rest.induct)
  case (fr_last k x w1 w2 t v w3)
  have "SkipWhitespace (w3 @ CHR ''}'' # r) = CHR ''}'' # r"
    using fr_last(5) by (rule SkipWhitespace_blank) simp
  moreover have "number_stop (w3 @ CHR ''}'' # r)"
    using fr_last(5) by (simp add: number_stop_blank)
  ultimately show ?case
    using fr_last ParseField_complete [OF fr_last(1,6,2,3,4), of "w3 @ CHR ''}'' # r" fs dups]
    by (subst FieldsLoop.simps) (cases dups; simp add: Let_def)
next
  case (fr_more k x w1 w2 t v w3 w4 kvs u)
  have "SkipWhitespace (w3 @ CHR '','' # w4 @ u @ r) = CHR '','' # w4 @ u @ r"
    using fr_more(5) by (rule SkipWhitespace_blank) simp
  moreover have "number_stop (w3 @ CHR '','' # w4 @ u @ r)"
    using fr_more(5) by (simp add: number_stop_blank)
  ultimately show ?case
    using fr_more.hyps fr_more.IH [OF fr_more(6)]
      ParseField_complete [OF fr_more(1) fr_more.prems fr_more(2,3,4), of "w3 @ CHR '','' # w4 @ u @ r" fs dups]
    by (subst FieldsLoop.simps) (cases dups; simp add: Let_def)
qed

lemma FieldsLoop_sound:
  "FieldsLoop fs dups s = Some res \<Longrightarrow>
     \<exists>w0 kvs u w2. s = w0 @ u @ w2 \<and> blank w0 \<and> fields_rest kvs u \<and> blank w2 \<and> keep_fields fs dups kvs = Some res"
proof (induction fs dups s rule: FieldsLoop.induct)
  case (1 fs dups s)
  from "1.prems" obtain fs1 dups1 r where p: "ParseField fs dups s = Some (fs1, dups1, r)"
    by (subst (asm) FieldsLoop.simps) (auto split: option.splits prod.splits)
  from p obtain w0 k x w1 w2 t v where s:
    "s = w0 @ CHR 0x22 # k @ CHR 0x22 # w1 @ CHR '':'' # w2 @ t @ r"
    "string_body k x" "blank w0" "blank w1" "blank w2" "flat_value t v"
    and k: "keep_fields fs dups [(x, v)] = Some (fs1, dups1)"
    by (rule ParseField_sound)
  show ?case
  proof (cases "\<exists>q. SkipWhitespace r = CHR '','' # q")
    case True
    then obtain q where q: "SkipWhitespace r = CHR '','' # q" by blast
    with "1.prems" p have "FieldsLoop fs1 dups1 q = Some res"
      by (subst (asm) FieldsLoop.simps) (simp add: Let_def)
    with "1.IH" [OF p refl refl refl, of q] q obtain w4 kvs u w5 where
      IH: "q = w4 @ u @ w5" "blank w4" "fields_rest kvs u" "blank w5" "keep_fields fs1 dups1 kvs = Some res"
      by auto
    obtain w3 where w3: "r = w3 @ CHR '','' # q" "blank w3" by (rule close_sound [OF q])
    have "keep_fields fs dups ((x, v) # kvs) = Some res"
      using keep_fields_append [of fs dups "[(x, v)]" kvs] k IH(5) by simp
    moreover have "fields_rest ((x, v) # kvs)
        (CHR 0x22 # k @ CHR 0x22 # w1 @ CHR '':'' # w2 @ t @ w3 @ CHR '','' # w4 @ u)"
      by (rule fr_more) (use s w3 IH in simp_all)
    ultimately show ?thesis using s w3 IH
      by (intro exI [of _ w0] exI [of _ "(x, v) # kvs"] exI [of _ w5]
          exI [of _ "CHR 0x22 # k @ CHR 0x22 # w1 @ CHR '':'' # w2 @ t @ w3 @ CHR '','' # w4 @ u"]) simp
  next
    case False
    then have "Consume (CHR '','') (SkipWhitespace r) = None" by (cases "SkipWhitespace r") auto
    with "1.prems" p obtain q where q: "SkipWhitespace r = CHR ''}'' # q" and f: "Finish fs1 dups1 q = Some res"
      by (subst (asm) FieldsLoop.simps) (auto simp: Let_def split: option.splits)
    obtain w3 where w3: "r = w3 @ CHR ''}'' # q" "blank w3" by (rule close_sound [OF q])
    from f have "SkipWhitespace q = []" and res: "res = (fs1, dups1)"
      by (auto simp: Finish_def split: if_splits)
    then have "blank q" using SkipWhitespace_split [of q] by (metis append_Nil2)
    moreover have "fields_rest [(x, v)] (CHR 0x22 # k @ CHR 0x22 # w1 @ CHR '':'' # w2 @ t @ w3 @ ''}'')"
      by (rule fr_last) (use s w3 in simp_all)
    ultimately show ?thesis using s w3 k res
      by (intro exI [of _ w0] exI [of _ "[(x, v)]"] exI [of _ q]
          exI [of _ "CHR 0x22 # k @ CHR 0x22 # w1 @ CHR '':'' # w2 @ t @ w3 @ ''}''"]) simp
  qed
qed

lemma fields_rest_start: "fields_rest kvs t \<Longrightarrow> \<exists>s. t = CHR 0x22 # s \<and> kvs \<noteq> []"
  by (cases rule: fields_rest.cases) auto

lemma Finish_blank: "blank w \<Longrightarrow> Finish fs dups w = Some (fs, dups)"
  by (simp add: Finish_def SkipWhitespace_def blank_def list_all_iff dropWhile_eq_Nil_conv)

lemma Parse_complete:
  assumes "flat_object kvs s"
  shows "Parse dups s = keep_fields [] dups kvs"
proof -
  from assms obtain w0 w1 t w2 where s: "s = w0 @ CHR ''{'' # w1 @ t @ w2"
    and w: "blank w0" "blank w1" "blank w2" and t: "if kvs = [] then t = ''}'' else fields_rest kvs t"
    unfolding flat_object_def by blast
  have open_brace: "SkipWhitespace s = CHR ''{'' # w1 @ t @ w2"
    unfolding s using w(1) by (rule SkipWhitespace_blank) simp
  show ?thesis
  proof (cases "kvs = []")
    case True
    have "SkipWhitespace (w1 @ CHR ''}'' # w2) = CHR ''}'' # w2"
      using w(2) by (rule SkipWhitespace_blank) simp
    with True t open_brace w(3) show ?thesis
      by (simp add: Parse_def Let_def Finish_blank)
  next
    case False
    with t have f: "fields_rest kvs t" by simp
    then obtain q where q: "t = CHR 0x22 # q" by (blast dest: fields_rest_start)
    then have "SkipWhitespace (w1 @ t @ w2) = t @ w2"
      using w(2) by (intro SkipWhitespace_blank) auto
    moreover have "FieldsLoop [] dups (t @ w2) = keep_fields [] dups kvs"
      using FieldsLoop_complete [OF f, of "[]" "[]" dups w2] w(3)
      by (auto simp: Finish_blank blank_def split: option.splits)
    ultimately show ?thesis using open_brace q by (simp add: Parse_def Let_def)
  qed
qed

lemma Parse_sound:
  assumes "Parse dups s = Some res"
  obtains kvs where "flat_object kvs s" "keep_fields [] dups kvs = Some res"
proof -
  from assms obtain q where q: "SkipWhitespace s = CHR ''{'' # q"
    by (auto simp: Parse_def split: option.splits)
  obtain w0 where w0: "s = w0 @ CHR ''{'' # q" "blank w0" by (rule close_sound [OF q])
  obtain w1 where w1: "q = w1 @ SkipWhitespace q" "blank w1" by (rule SkipWhitespace_split)
  show ?thesis
  proof (cases "\<exists>u. SkipWhitespace q = CHR ''}'' # u")
    case True
    then obtain u where u: "SkipWhitespace q = CHR ''}'' # u" by blast
    with assms q have f: "Finish [] dups u = Some res" by (simp add: Parse_def Let_def)
    then have "SkipWhitespace u = []" and res: "res = ([], dups)"
      by (auto simp: Finish_def split: if_splits)
    then have "blank u" using SkipWhitespace_split [of u] by (metis append_Nil2)
    with w0 w1 u have "flat_object [] s"
      unfolding flat_object_def
      by (intro exI [of _ w0] exI [of _ w1] exI [of _ "''}''"] exI [of _ u]) simp
    with res show ?thesis by (intro that [of "[]"]) simp_all
  next
    case False
    then have "Consume (CHR ''}'') (SkipWhitespace q) = None" by (cases "SkipWhitespace q") auto
    with assms q have "FieldsLoop [] dups (SkipWhitespace q) = Some res"
      by (simp add: Parse_def Let_def)
    then obtain v kvs u w2 where u: "SkipWhitespace q = v @ u @ w2" "blank v" "fields_rest kvs u" "blank w2"
      and k: "keep_fields [] dups kvs = Some res"
      by (auto dest!: FieldsLoop_sound)
    have "flat_object kvs s"
      unfolding flat_object_def
      using w0 w1 u fields_rest_start [OF u(3)]
      by (intro exI [of _ w0] exI [of _ "w1 @ v"] exI [of _ u] exI [of _ w2]) (auto simp: blank_def)
    with k show ?thesis by (intro that)
  qed
qed

text \<open>
  C10: the strict parser accepts a payload exactly when it is one flat JSON object (with any JSON white
  space between tokens, values nested at most 32 deep, nothing after the closing brace) whose keys are
  pairwise different, and its answer is the list of its fields in order.
\<close>

theorem Parse_strict_iff:
  "Parse None s = Some (fs, dups) \<longleftrightarrow> flat_object fs s \<and> distinct (map fst fs) \<and> dups = None"
proof
  assume "Parse None s = Some (fs, dups)"
  then obtain kvs where "flat_object kvs s" "keep_fields [] None kvs = Some (fs, dups)"
    by (rule Parse_sound)
  then show "flat_object fs s \<and> distinct (map fst fs) \<and> dups = None"
    by (auto simp: keep_fields_strict split: if_splits)
next
  assume "flat_object fs s \<and> distinct (map fst fs) \<and> dups = None"
  then show "Parse None s = Some (fs, dups)"
    by (auto simp: Parse_complete [of fs s] keep_fields_strict)
qed

text \<open>
  With a set to report duplicates in, the parser accepts every flat object, repeated keys or
  not; the value it keeps for a key is the first one written, and the reported names are exactly
  the keys written more than once.
\<close>

theorem Parse_lenient_first_wins:
  assumes "flat_object kvs s"
  shows "\<exists>fs names. Parse (Some {}) s = Some (fs, Some names) \<and> map_of fs = map_of kvs \<and>
    (\<forall>n. n \<in> names \<longleftrightarrow> 1 < count_list (map fst kvs) n)"
  using keep_fields_lenient [of "[]" "{}" kvs] assms
  by (simp add: Parse_complete contains_def)

section \<open>The string codec\<close>

text \<open>What every user of JSON strings relies on: reading undoes writing, whatever follows.\<close>

locale json_string_codec =
  fixes encode :: "string \<Rightarrow> string"
    and decode :: "string \<Rightarrow> (string \<times> string) option"
  assumes decode_encode: "decode (encode v @ r) = Some (v, r)"
begin

lemma encode_inject: "encode v = encode v' \<longleftrightarrow> v = v'"
proof
  assume "encode v = encode v'"
  then have "decode (encode v @ []) = decode (encode v' @ [])" by simp
  then show "v = v'" by (simp only: decode_encode option.inject prod.inject)
qed simp

lemma encode_prefix_free: "encode v @ r = encode v' @ r' \<longleftrightarrow> v = v' \<and> r = r'"
proof
  assume "encode v @ r = encode v' @ r'"
  then have "decode (encode v @ r) = decode (encode v' @ r')" by simp
  then show "v = v' \<and> r = r'" by (simp only: decode_encode option.inject prod.inject)
qed simp

end

lemma AppendEscaped_literal:
  "AppendEscapedJsonString out v = out @ CHR 0x22 # concat (map escape_char v) @ [CHR 0x22]"
  by (simp add: AppendEscapedJsonString_def)

interpretation json_codec: json_string_codec "AppendEscapedJsonString []" ParseString
proof
  fix v r
  have "string_body (concat (map escape_char v)) v" by (rule escape_body)
  then show "ParseString (AppendEscapedJsonString [] v @ r) = Some (v, r)"
    by (auto simp: AppendEscaped_literal ParseString_iff)
qed

section \<open>Rendering a request object\<close>

text \<open>A reference for what a client sends: compact JSON with string and unsigned fields.\<close>

datatype wire_value = WireNumber uint64 | WireString string

fun render_value :: "wire_value \<Rightarrow> string" where
  "render_value (WireNumber n) = to_string (unat n)"
| "render_value (WireString s) = AppendEscapedJsonString [] s"

fun wire_field :: "wire_value \<Rightarrow> FlatJsonValue" where
  "wire_field (WireNumber n) = unsigned_value (unat n)"
| "wire_field (WireString s) = string_value s"

definition wire_fields :: "(string \<times> wire_value) list \<Rightarrow> FlatJsonFields" where
  "wire_fields kvs = map (\<lambda>(k, v). (k, wire_field v)) kvs"

lemma wire_fields_simps [simp]:
  "wire_fields [] = []" "wire_fields ((k, v) # kvs) = (k, wire_field v) # wire_fields kvs"
  by (simp_all add: wire_fields_def)

lemma map_fst_wire_fields [simp]: "map fst (wire_fields kvs) = map fst kvs"
  by (induction kvs) auto

lemma map_of_wire_fields: "map_of (wire_fields kvs) k = map_option wire_field (map_of kvs k)"
  by (induction kvs) auto

lemma wire_field_reads [simp]:
  "isUnsigned (wire_field (WireNumber n))" "number (wire_field (WireNumber n)) = n"
  "\<not> isString (wire_field (WireNumber n))" "isString (wire_field (WireString x))"
  "text_value (wire_field (WireString x)) = x" "\<not> isUnsigned (wire_field (WireString x))"
  by (simp_all add: unsigned_value_def string_value_def default_value_def)

lemma default_value_reads [simp]: "\<not> isUnsigned default_value" "\<not> isString default_value"
  by (simp_all add: default_value_def)

fun render_fields :: "(string \<times> wire_value) list \<Rightarrow> string" where
  "render_fields [] = ''}''"
| "render_fields [(k, v)] = AppendEscapedJsonString [] k @ CHR '':'' # render_value v @ ''}''"
| "render_fields ((k, v) # kvs) =
     AppendEscapedJsonString [] k @ CHR '':'' # render_value v @ CHR '','' # render_fields kvs"

definition render_object :: "(string \<times> wire_value) list \<Rightarrow> string" where
  "render_object kvs = CHR ''{'' # render_fields kvs"

lemma blank_Nil [simp]: "blank []"
  by (simp add: blank_def)

lemma unsigned_text_to_string: "unsigned_text (to_string (unat (n :: uint64)))"
  using unat_less_64 [of n] length_to_string_uint64 [of n]
  by (simp add: unsigned_text_def to_string_digits)

lemma flat_value_render: "flat_value (render_value v) (wire_field v)"
proof (cases v)
  case (WireNumber n)
  with fv_unsigned [OF unsigned_text_to_string [of n]] show ?thesis by simp
next
  case (WireString s)
  with fv_string [OF escape_body [of s]] show ?thesis by (simp add: AppendEscaped_literal)
qed

lemma fields_rest_render:
  "kvs \<noteq> [] \<Longrightarrow> fields_rest (wire_fields kvs) (render_fields kvs)"
proof (induction kvs rule: render_fields.induct)
  case (2 k v)
  from fr_last [OF escape_body [of k] blank_Nil blank_Nil flat_value_render [of v] blank_Nil]
  show ?case by (simp add: AppendEscaped_literal)
next
  case (3 k v kv kvs)
  then have "fields_rest (wire_fields (kv # kvs)) (render_fields (kv # kvs))"
    by simp
  from fr_more [OF escape_body [of k] blank_Nil blank_Nil flat_value_render [of v] blank_Nil blank_Nil this]
  show ?case by (simp add: AppendEscaped_literal)
qed simp

lemma flat_object_render: "flat_object (wire_fields kvs) (render_object kvs)"
proof (cases "kvs = []")
  case True
  then show ?thesis
    unfolding flat_object_def render_object_def
    by (intro exI [of _ "[]"] exI [of _ "''}''"]) simp
next
  case False
  then show ?thesis
    using fields_rest_render [OF False] fields_rest_start
    unfolding flat_object_def render_object_def
    by (intro exI [of _ "[]"] exI [of _ "render_fields kvs"]) simp
qed

lemma Parse_render:
  assumes "distinct (map fst kvs)"
  shows "Parse None (render_object kvs) = Some (wire_fields kvs, None)"
  using assms by (simp add: Parse_complete [OF flat_object_render] keep_fields_strict)

theorem Parse_lenient_first_wins_witness:
  "\<exists>fs names. Parse (Some {}) (render_object [(''a'', WireNumber 1), (''b'', WireNumber 2), (''a'', WireNumber 3)]) =
      Some (fs, Some names) \<and> map_of fs ''a'' = Some (wire_field (WireNumber 1)) \<and>
      ''a'' \<in> names \<and> ''b'' \<notin> names"
proof -
  let ?kvs = "[(''a'', WireNumber 1), (''b'', WireNumber 2), (''a'', WireNumber 3)]"
  obtain fs names where "Parse (Some {}) (render_object ?kvs) = Some (fs, Some names)"
    "map_of fs = map_of (wire_fields ?kvs)"
    "\<forall>n. n \<in> names \<longleftrightarrow> 1 < count_list (map fst (wire_fields ?kvs)) n"
    using Parse_lenient_first_wins [OF flat_object_render [of ?kvs]] by blast
  then show ?thesis by (intro exI [of _ fs] exI [of _ names]) simp
qed

end
