(* ===== verification/Frame.thy ===== *)
theory Frame
  imports Protocol_Types
begin

text \<open>
  The frame layer: a payload preceded by its length as four bytes in network order
  (\<open>EncodeFrame\<close>, \<open>DecodeFrame\<close>), the token digest comparison of the authentication, and the gate on
  the environment token. The contract of the frame layer is the locale \<open>frame_codec\<close>.
\<close>

section \<open>Frames\<close>

record FrameDecodeResult =
  payload :: "string option"
  frame_error :: ProtocolError

definition length_header :: "uint32 \<Rightarrow> uint8 list" where
  "length_header len =
     [ucast (drop_bit 24 len AND 0xFF), ucast (drop_bit 16 len AND 0xFF),
      ucast (drop_bit 8 len AND 0xFF), ucast (len AND 0xFF)]"

definition EncodeFrame :: "string \<Rightarrow> uint8 list option" where
  "EncodeFrame p =
     (if length p > MAX_FRAME_PAYLOAD_BYTES then None
      else Some (length_header (of_nat (length p)) @ map byte_of_char p))"

definition header_length :: "uint8 \<Rightarrow> uint8 \<Rightarrow> uint8 \<Rightarrow> uint8 \<Rightarrow> uint32" where
  "header_length b0 b1 b2 b3 =
     push_bit 24 (ucast b0) OR push_bit 16 (ucast b1) OR push_bit 8 (ucast b2) OR ucast b3"

definition DecodeFrame :: "uint8 list \<Rightarrow> FrameDecodeResult" where
  "DecodeFrame frame =
     (if length frame < FRAME_HEADER_BYTES
      then \<lparr>payload = None, frame_error = MakeError EC_MalformedFrame\<rparr>
      else
        (let len = header_length (frame ! 0) (frame ! 1) (frame ! 2) (frame ! 3) in
         if unat len > MAX_FRAME_PAYLOAD_BYTES
         then \<lparr>payload = None, frame_error = MakeError EC_FrameTooLarge\<rparr>
         else if length frame \<noteq> FRAME_HEADER_BYTES + unat len
         then \<lparr>payload = None, frame_error = MakeError EC_MalformedFrame\<rparr>
         else \<lparr>payload = Some (map char_of_byte (drop FRAME_HEADER_BYTES frame)),
                frame_error = ProtocolError.make EC_None []\<rparr>))"

text \<open>The four header bytes and the length are the same data.\<close>

lemma header_length_bits:
  "bit (header_length b0 b1 b2 b3) n \<longleftrightarrow>
     (if n < 8 then bit b3 n else if n < 16 then bit b2 (n - 8)
      else if n < 24 then bit b1 (n - 16) else n < 32 \<and> bit b0 (n - 24))"
proof -
  have b: "\<not> bit (b :: uint8) m" if "8 \<le> m" for b m
    using that bit_imp_le_length [of b m] by auto
  show ?thesis
    unfolding header_length_def
    by (auto simp: bit_or_iff bit_push_bit_iff bit_ucast_iff b not_less)
qed

lemma bit_byte_mask: "bit (0xFF :: 'a :: len word) m \<longleftrightarrow> m < LENGTH('a) \<and> m < 8"
proof -
  have "(0xFF :: 'a word) = mask 8" by (simp add: mask_eq_exp_minus_1)
  moreover have "bit (mask 8 :: 'a word) m \<longleftrightarrow> m < LENGTH('a) \<and> m < 8" by (auto simp: bit_mask_iff)
  ultimately show ?thesis by (simp only:)
qed

lemma bit_byte_mask_int: "bit (0xFF :: int) m \<longleftrightarrow> m < 8"
proof -
  have "(0xFF :: int) = mask 8" by (simp add: mask_eq_exp_minus_1)
  moreover have "bit (mask 8 :: int) m \<longleftrightarrow> m < 8" by (simp add: bit_mask_iff)
  ultimately show ?thesis by (simp only:)
qed

lemma header_of_length:
  "header_length (ucast (drop_bit 24 len AND 0xFF)) (ucast (drop_bit 16 len AND 0xFF))
     (ucast (drop_bit 8 len AND 0xFF)) (ucast (len AND 0xFF)) = (len :: uint32)"
proof (rule bit_word_eqI)
  fix n
  assume "n < LENGTH(32)"
  then have n: "n < 32" by simp
  show "bit (header_length (ucast (drop_bit 24 len AND 0xFF)) (ucast (drop_bit 16 len AND 0xFF))
     (ucast (drop_bit 8 len AND 0xFF)) (ucast (len AND 0xFF))) n \<longleftrightarrow> bit len n"
    using n by (auto simp: header_length_bits bit_ucast_iff bit_and_iff bit_drop_bit_eq bit_byte_mask bit_byte_mask_int)
qed

lemma length_of_header:
  "length_header (header_length b0 b1 b2 b3) = [b0, b1, b2, b3]"
proof -
  have "ucast (drop_bit 24 (header_length b0 b1 b2 b3) AND 0xFF) = b0"
    "ucast (drop_bit 16 (header_length b0 b1 b2 b3) AND 0xFF) = b1"
    "ucast (drop_bit 8 (header_length b0 b1 b2 b3) AND 0xFF) = b2"
    "ucast (header_length b0 b1 b2 b3 AND 0xFF) = b3"
    by (rule bit_word_eqI; simp add: bit_ucast_iff bit_and_iff bit_drop_bit_eq bit_byte_mask bit_byte_mask_int header_length_bits)+
  then show ?thesis by (simp add: length_header_def)
qed

section \<open>The contract of the frame layer\<close>

text \<open>
  A frame codec turns the payloads it accepts into frames, and reading a frame gives a payload back
  exactly when the frame is the one written for it: frames are unambiguous, and nothing else is read
  as a frame.
\<close>

locale frame_codec =
  fixes encode :: "'p \<Rightarrow> 'b list option"
    and decode :: "'b list \<Rightarrow> 'p option"
  assumes decode_iff: "decode f = Some p \<longleftrightarrow> encode p = Some f"
begin

lemma decode_encode: "encode p = Some f \<Longrightarrow> decode f = Some p"
  by (simp add: decode_iff)

lemma encode_inject: "encode p = Some f \<Longrightarrow> encode q = Some f \<Longrightarrow> p = q"
  by (metis decode_iff option.inject)

lemma decode_inject: "decode f = Some p \<Longrightarrow> decode g = Some p \<Longrightarrow> f = g"
  by (metis decode_iff option.inject)

end

lemma length_header_length [simp]: "length (length_header len) = 4"
  by (simp add: length_header_def)

lemma header_of_length_header:
  "header_length (length_header len ! 0) (length_header len ! 1) (length_header len ! 2)
     (length_header len ! 3) = len"
  using header_of_length [of len] by (simp add: length_header_def)

lemma unat_of_nat_payload:
  "n \<le> MAX_FRAME_PAYLOAD_BYTES \<Longrightarrow> unat (of_nat n :: uint32) = n"
  by (simp add: MAX_FRAME_PAYLOAD_BYTES_def unsigned_of_nat take_bit_eq_mod)

lemma DecodeFrame_encoded:
  assumes "length p \<le> MAX_FRAME_PAYLOAD_BYTES"
  shows "DecodeFrame (length_header (of_nat (length p)) @ map byte_of_char p) =
    \<lparr>payload = Some p, frame_error = ProtocolError.make EC_None []\<rparr>"
proof -
  let ?h = "length_header (of_nat (length p))"
  have nth: "(?h @ map byte_of_char p) ! i = ?h ! i" if "i < 4" for i
    using that by (simp add: nth_append)
  have "map char_of_byte (map byte_of_char p) = p" by (induction p) auto
  then show ?thesis
    using assms unat_of_nat_payload [OF assms] header_of_length_header [of "of_nat (length p)"]
    by (simp add: DecodeFrame_def FRAME_HEADER_BYTES_def nth Let_def del: map_map)
qed

lemma four_bytes:
  "4 \<le> length f \<Longrightarrow> f = [f ! 0, f ! 1, f ! 2, f ! 3] @ drop 4 f"
  by (cases f; cases "tl f"; cases "tl (tl f)"; cases "tl (tl (tl f))"; auto)

lemma DecodeFrame_Some:
  assumes "payload (DecodeFrame f) = Some p"
  shows "length p \<le> MAX_FRAME_PAYLOAD_BYTES" and "f = length_header (of_nat (length p)) @ map byte_of_char p"
proof -
  let ?len = "header_length (f ! 0) (f ! 1) (f ! 2) (f ! 3)"
  from assms have f: "4 \<le> length f" and len: "unat ?len \<le> MAX_FRAME_PAYLOAD_BYTES"
    "length f = 4 + unat ?len" and p: "p = map char_of_byte (drop 4 f)"
    by (auto simp: DecodeFrame_def FRAME_HEADER_BYTES_def Let_def split: if_splits)
  then have lp: "length p = unat ?len" by simp
  with len show "length p \<le> MAX_FRAME_PAYLOAD_BYTES" by simp
  have "length_header (of_nat (length p)) = [f ! 0, f ! 1, f ! 2, f ! 3]"
    by (simp add: lp length_of_header)
  moreover have "map byte_of_char p = drop 4 f"
    unfolding p by (simp add: map_idI)
  ultimately show "f = length_header (of_nat (length p)) @ map byte_of_char p"
    using four_bytes [OF f] by simp
qed

interpretation frames: frame_codec EncodeFrame "\<lambda>f. payload (DecodeFrame f)"
proof
  fix f p
  show "payload (DecodeFrame f) = Some p \<longleftrightarrow> EncodeFrame p = Some f"
    using DecodeFrame_Some [of f p] DecodeFrame_encoded [of p]
    by (auto simp: EncodeFrame_def not_less)
qed

text \<open>
  C19: a frame decodes to a payload exactly when it is the encoding of that payload: decoding undoes
  encoding, and a byte string that is not an encoding (a short header, a length over 64 KiB, a
  payload shorter or longer than announced) is rejected.
\<close>

theorem decode_frame_iff: "payload (DecodeFrame f) = Some p \<longleftrightarrow> EncodeFrame p = Some f"
  by (rule frames.decode_iff)

text \<open>
  Which error a rejected frame gets: too large if and only if the announced length exceeds the
  limit, and malformed in every other case; an accepted frame has no error.
\<close>

theorem decode_frame_errors:
  "error_code (frame_error (DecodeFrame f)) =
    (if length f < 4 then EC_MalformedFrame
     else if unat (header_length (f ! 0) (f ! 1) (f ! 2) (f ! 3)) > 65536 then EC_FrameTooLarge
     else if length f \<noteq> 4 + unat (header_length (f ! 0) (f ! 1) (f ! 2) (f ! 3)) then EC_MalformedFrame
     else EC_None)"
  by (simp add: DecodeFrame_def FRAME_HEADER_BYTES_def MAX_FRAME_PAYLOAD_BYTES_def Let_def
      ProtocolError.defs)

section \<open>Token digests\<close>

type_synonym TokenDigest = "uint8 list"

text \<open>\<open>std::array<uint8, 32>\<close>: a list of that length. The loop accumulates every difference.\<close>

definition ConstantTimeTokenDigestEquals :: "TokenDigest \<Rightarrow> TokenDigest \<Rightarrow> bool" where
  "ConstantTimeTokenDigestEquals candidate expected =
     (foldl (\<lambda>difference index. difference OR (candidate ! index XOR expected ! index)) 0
        [0..<length candidate] = (0 :: uint8))"

lemma foldl_or_zero:
  "foldl (\<lambda>d i. d OR g i) (d0 :: uint8) xs = 0 \<longleftrightarrow> d0 = 0 \<and> (\<forall>i \<in> set xs. g i = 0)"
  by (induction xs arbitrary: d0) (auto simp: or_eq_0_iff)

lemma xor_zero_iff: "a XOR b = 0 \<longleftrightarrow> a = (b :: uint8)"
proof
  assume "a XOR b = 0"
  then have "(a XOR b) XOR b = b" by simp
  then show "a = b" by (simp add: xor.assoc)
qed simp

lemma digest_equals_iff:
  assumes "length candidate = length expected"
  shows "ConstantTimeTokenDigestEquals candidate expected \<longleftrightarrow> candidate = expected"
proof -
  have "ConstantTimeTokenDigestEquals candidate expected \<longleftrightarrow>
      (\<forall>i \<in> set [0..<length candidate]. candidate ! i XOR expected ! i = 0)"
    unfolding ConstantTimeTokenDigestEquals_def by (subst foldl_or_zero) blast
  also have "\<dots> \<longleftrightarrow> (\<forall>i < length candidate. candidate ! i = expected ! i)"
    by (simp add: xor_zero_iff Ball_def)
  also have "\<dots> \<longleftrightarrow> candidate = expected"
    using assms by (simp add: list_eq_iff_nth_eq)
  finally show ?thesis .
qed

text \<open>
  \<open>std::getenv\<close> is the argument \<open>env\<close>, and the SHA-256 of the cryptography library the argument
  \<open>sha256\<close>.
\<close>

definition DigestVerificationToken :: "(string \<Rightarrow> TokenDigest) \<Rightarrow> string \<Rightarrow> TokenDigest" where
  "DigestVerificationToken sha256 token = sha256 token"

definition VerificationTokenDigestFromEnvironment ::
  "(string \<Rightarrow> TokenDigest) \<Rightarrow> (string \<Rightarrow> string option) \<Rightarrow> TokenDigest option" where
  "VerificationTokenDigestFromEnvironment sha256 env =
     (case env ''PLAYERBOT_VERIFICATION_TOKEN'' of
        None \<Rightarrow> None
      | Some token \<Rightarrow>
          if length token < MIN_TOKEN_BYTES then None
          else Some (DigestVerificationToken sha256 token))"

end
