(* ===== verification/Request_Parser.thy ===== *)
theory Request_Parser
  imports Flat_Object Frame
begin

text \<open>
  The request parser of \<open>PlayerbotVerificationProtocol.cpp\<close>: the field helpers, the refusal of
  console command families, \<open>ParseCheck\<close>, and \<open>ParseRequestPayload\<close> with one definition per
  operation branch, tried in the order of the source.
\<close>

section \<open>Fields\<close>

definition reject :: "ErrorCode \<Rightarrow> RequestParseResult" where
  "reject code = \<lparr>request = None, responseRequestId = 0, parse_error = MakeError code\<rparr>"

definition accept :: "Request \<Rightarrow> RequestParseResult" where
  "accept r = \<lparr>request = Some r, responseRequestId = 0, parse_error = ProtocolError.make EC_None []\<rparr>"

lemma reject_simps [simp]:
  "request (reject c) = None" "responseRequestId (reject c) = 0" "parse_error (reject c) = MakeError c"
  by (simp_all add: reject_def)

lemma accept_simps [simp]:
  "request (accept r) = Some r" "responseRequestId (accept r) = 0"
  "parse_error (accept r) = ProtocolError.make EC_None []"
  by (simp_all add: accept_def)

definition HasExactFields :: "FlatJsonFields \<Rightarrow> string set \<Rightarrow> string set \<Rightarrow> bool" where
  "HasExactFields fs required optional \<longleftrightarrow>
     (\<forall>name \<in> required. contains fs name) \<and>
     list_all (\<lambda>(name, _). name \<in> required \<or> name \<in> optional) fs"

definition UnsignedField :: "FlatJsonFields \<Rightarrow> string \<Rightarrow> uint64 option" where
  "UnsignedField fs name =
     (case map_of fs name of
        None \<Rightarrow> None
      | Some v \<Rightarrow> if \<not> isUnsigned v then None else Some (number v))"

definition StringField :: "FlatJsonFields \<Rightarrow> string \<Rightarrow> string option" where
  "StringField fs name =
     (case map_of fs name of
        None \<Rightarrow> None
      | Some v \<Rightarrow> if \<not> isString v then None else Some (text_value v))"

definition IsValidGuid :: "uint64 \<Rightarrow> bool" where
  "IsValidGuid v \<longleftrightarrow> 0 < v \<and> v \<le> uint32_max"

definition IsActivityLeaseToken :: "string \<Rightarrow> bool" where
  "IsActivityLeaseToken token \<longleftrightarrow>
     length token = ACTIVITY_LEASE_TOKEN_HEX_LENGTH \<and>
     list_all (\<lambda>c. is_digit_char c \<or> 97 \<le> ord c \<and> ord c \<le> 102) token"

text \<open>On failure the request is left as it was.\<close>

definition StoreUInt32 :: "Request \<Rightarrow> FlatJsonFields \<Rightarrow> string \<Rightarrow> bool \<Rightarrow> Request option" where
  "StoreUInt32 r fs name allowZero =
     (case UnsignedField fs name of
        None \<Rightarrow> None
      | Some v \<Rightarrow>
          if v > uint32_max \<or> \<not> allowZero \<and> v = 0 then None
          else Some (r\<lparr>numbers := (numbers r)(name \<mapsto> v)\<rparr>))"

definition CommonFields :: "string set \<Rightarrow> string set" where
  "CommonFields operationFields =
     {''schemaVersion'', ''requestId'', ''token'', ''operation''} \<union> operationFields"

text \<open>A GUID field, as every operation reads it: present, unsigned and valid.\<close>

definition GuidField :: "FlatJsonFields \<Rightarrow> string \<Rightarrow> uint32 option" where
  "GuidField fs name =
     (case UnsignedField fs name of
        None \<Rightarrow> None
      | Some g \<Rightarrow> if \<not> IsValidGuid g then None else Some (ucast g))"

section \<open>Refused console commands\<close>

definition tolower_char :: "char \<Rightarrow> char" where
  "tolower_char c = (if 65 \<le> ord c \<and> ord c \<le> 90 then char_at (ord c + 32) else c)"

definition command_lead :: "char \<Rightarrow> bool" where
  "command_lead c \<longleftrightarrow> c = CHR '' '' \<or> c = CHR 0x09 \<or> c = CHR ''.''"

definition command_gap :: "char \<Rightarrow> bool" where
  "command_gap c \<longleftrightarrow> c = CHR '' '' \<or> c = CHR 0x09"

definition refused_words :: "string list" where
  "refused_words = [''server'', ''account'', ''quit'', ''exit'']"

definition IsRefusedGmCommand :: "string \<Rightarrow> bool" where
  "IsRefusedGmCommand cmd =
     (let rest = dropWhile command_lead cmd in
      if rest = [] then True
      else
        (let word = takeWhile (\<lambda>c. \<not> command_gap c) rest in
         list_ex (\<lambda>entry. length word = length entry \<and> list_all2 (\<lambda>l r. tolower_char l = r) word entry)
           refused_words))"

section \<open>Check conditions\<close>

text \<open>The condition table: the fields a condition requires and allows beside the common ones.\<close>

definition check_fields :: "string \<Rightarrow> (string set \<times> string set) option" where
  "check_fields cond =
     (if cond = ''transport_attached'' then Some ({}, {''transportEntry''})
      else if cond = ''transport_detached'' then Some ({}, {})
      else if cond = ''map'' then Some ({''mapId''}, {})
      else if cond = ''action'' then Some ({''afterSequence'', ''actionName'', ''actionResult''}, {})
      else if cond = ''profession_skill'' then Some ({''skillId'', ''minimumValue''}, {})
      else if cond = ''inventory'' then Some ({''itemId'', ''minimumCount''}, {})
      else if cond = ''money_at_most'' then Some ({''maximumCopper''}, {})
      else if cond = ''money_decrease'' then Some ({''baselineCopper''}, {})
      else if cond = ''known_recipe'' then Some ({''spellId''}, {})
      else if cond = ''economy'' then Some ({''afterSequence'', ''economyOutcome''}, {})
      else None)"

text \<open>The 32 bit fields of a condition, with whether zero is allowed, in the order they are stored.\<close>

definition check_uint32s :: "FlatJsonFields \<Rightarrow> string \<Rightarrow> (string \<times> bool) list" where
  "check_uint32s fs cond =
     (if cond = ''transport_attached'' \<and> contains fs ''transportEntry'' then [(''transportEntry'', False)]
      else if cond = ''map'' then [(''mapId'', True)]
      else if cond = ''profession_skill'' then [(''skillId'', False), (''minimumValue'', True)]
      else if cond = ''inventory'' then [(''itemId'', False), (''minimumCount'', True)]
      else if cond = ''known_recipe'' then [(''spellId'', False)]
      else [])"

fun store_uint32s :: "FlatJsonFields \<Rightarrow> Request \<Rightarrow> (string \<times> bool) list \<Rightarrow> Request option" where
  "store_uint32s fs r [] = Some r"
| "store_uint32s fs r ((name, allowZero) # rest) =
     (case StoreUInt32 r fs name allowZero of
        None \<Rightarrow> None
      | Some r' \<Rightarrow> store_uint32s fs r' rest)"

fun store_uint64s :: "FlatJsonFields \<Rightarrow> Request \<Rightarrow> string list \<Rightarrow> Request option" where
  "store_uint64s fs r [] = Some r"
| "store_uint64s fs r (name # rest) =
     (if contains fs name then
        (case UnsignedField fs name of
           None \<Rightarrow> None
         | Some v \<Rightarrow> store_uint64s fs (r\<lparr>numbers := (numbers r)(name \<mapsto> v)\<rparr>) rest)
      else store_uint64s fs r rest)"

fun store_strings :: "FlatJsonFields \<Rightarrow> Request \<Rightarrow> string list \<Rightarrow> Request option" where
  "store_strings fs r [] = Some r"
| "store_strings fs r (name # rest) =
     (if contains fs name then
        (case StringField fs name of
           None \<Rightarrow> None
         | Some v \<Rightarrow>
             if v = [] then None
             else store_strings fs (r\<lparr>strings := (strings r)(name \<mapsto> v)\<rparr>) rest)
      else store_strings fs r rest)"

text \<open>\<open>operator[]\<close> on a missing key gives the empty string.\<close>

definition string_at :: "Request \<Rightarrow> string \<Rightarrow> string" where
  "string_at r name = (case strings r name of None \<Rightarrow> [] | Some s \<Rightarrow> s)"

definition action_results :: "string list" where
  "action_results = [''success'', ''failure'', ''either'']"

definition economy_outcomes :: "string list" where
  "economy_outcomes =
     [''scheduled'', ''operation'', ''no_candidate'', ''failed_precondition'', ''released'', ''blocked'',
      ''quarantined'']"

definition ParseCheck :: "FlatJsonFields \<Rightarrow> Request \<Rightarrow> RequestParseResult" where
  "ParseCheck fs r =
     (case StringField fs ''condition'' of
        None \<Rightarrow> reject EC_InvalidCondition
      | Some cond \<Rightarrow>
          (case check_fields cond of
             None \<Rightarrow> reject EC_InvalidCondition
           | Some (required, optional) \<Rightarrow>
               if \<not> HasExactFields fs (CommonFields ({''botGuid'', ''condition''} \<union> required)) optional
               then reject EC_MalformedRequest
               else
                 (case store_uint32s fs (r\<lparr>condition := cond\<rparr>) (check_uint32s fs cond) of
                    None \<Rightarrow> reject EC_InvalidCondition
                  | Some r1 \<Rightarrow>
                      (case store_uint64s fs r1 [''afterSequence'', ''maximumCopper'', ''baselineCopper''] of
                         None \<Rightarrow> reject EC_InvalidCondition
                       | Some r2 \<Rightarrow>
                           (case store_strings fs r2 [''actionName'', ''actionResult'', ''economyOutcome''] of
                              None \<Rightarrow> reject EC_InvalidCondition
                            | Some r3 \<Rightarrow>
                                if cond = ''action'' \<and> string_at r3 ''actionResult'' \<notin> set action_results
                                then reject EC_InvalidCondition
                                else if cond = ''economy'' \<and>
                                        string_at r3 ''economyOutcome'' \<notin> set economy_outcomes
                                then reject EC_InvalidCondition
                                else accept r3)))))"

section \<open>The operations\<close>

definition ParseStatus :: "FlatJsonFields \<Rightarrow> Request \<Rightarrow> RequestParseResult" where
  "ParseStatus fs r =
     (if \<not> HasExactFields fs (CommonFields {}) {} then reject EC_MalformedRequest
      else accept (r\<lparr>operation := Op_Status\<rparr>))"

definition ParseList :: "FlatJsonFields \<Rightarrow> Request \<Rightarrow> RequestParseResult" where
  "ParseList fs r =
     (if \<not> HasExactFields fs (CommonFields {''afterGuid'', ''limit''}) {} then reject EC_MalformedRequest
      else
        (case UnsignedField fs ''afterGuid'' of
           None \<Rightarrow> reject EC_InvalidGuid
         | Some after \<Rightarrow>
             if after > uint32_max then reject EC_InvalidGuid
             else
               (case UnsignedField fs ''limit'' of
                  None \<Rightarrow> reject EC_InvalidLimit
                | Some lim \<Rightarrow>
                    if lim = 0 \<or> lim > ucast MAX_LIST_LIMIT then reject EC_InvalidLimit
                    else accept (r\<lparr>operation := Op_List, afterGuid := ucast after, limit := ucast lim\<rparr>))))"

text \<open>\<open>inspect\<close> and \<open>inspect_activity_lease\<close> have one field, the bot.\<close>

definition ParseBotOnly :: "Operation \<Rightarrow> FlatJsonFields \<Rightarrow> Request \<Rightarrow> RequestParseResult" where
  "ParseBotOnly op fs r =
     (if \<not> HasExactFields fs (CommonFields {''botGuid''}) {} then reject EC_MalformedRequest
      else
        (case GuidField fs ''botGuid'' of
           None \<Rightarrow> reject EC_InvalidGuid
         | Some guid \<Rightarrow> accept (r\<lparr>operation := op, botGuid := guid\<rparr>)))"

definition ParseInspect :: "FlatJsonFields \<Rightarrow> Request \<Rightarrow> RequestParseResult" where
  "ParseInspect = ParseBotOnly Op_Inspect"

definition ParseInspectActivityLease :: "FlatJsonFields \<Rightarrow> Request \<Rightarrow> RequestParseResult" where
  "ParseInspectActivityLease = ParseBotOnly Op_InspectActivityLease"

definition ParseAnomalies :: "FlatJsonFields \<Rightarrow> Request \<Rightarrow> RequestParseResult" where
  "ParseAnomalies fs r =
     (if \<not> HasExactFields fs (CommonFields {''limit''}) {} then reject EC_MalformedRequest
      else
        (case UnsignedField fs ''limit'' of
           None \<Rightarrow> (reject EC_InvalidLimit)\<lparr>parse_error :=
                     ProtocolError.make EC_InvalidLimit ''The anomaly limit must be from 1 through 50.''\<rparr>
         | Some lim \<Rightarrow>
             if lim = 0 \<or> lim > ucast MAX_ANOMALY_LIMIT
             then (reject EC_InvalidLimit)\<lparr>parse_error :=
                     ProtocolError.make EC_InvalidLimit ''The anomaly limit must be from 1 through 50.''\<rparr>
             else accept (r\<lparr>operation := Op_Anomalies, limit := ucast lim\<rparr>)))"

definition ParseCommand :: "FlatJsonFields \<Rightarrow> Request \<Rightarrow> RequestParseResult" where
  "ParseCommand fs r =
     (if \<not> HasExactFields fs (CommonFields {''botGuid'', ''masterGuid'', ''command''}) {}
      then reject EC_MalformedRequest
      else
        (case (GuidField fs ''botGuid'', GuidField fs ''masterGuid'') of
           (Some guid, Some master) \<Rightarrow>
             (case StringField fs ''command'' of
                None \<Rightarrow> reject EC_InvalidCommand
              | Some cmd \<Rightarrow>
                  if cmd = [] then reject EC_InvalidCommand
                  else accept (r\<lparr>operation := Op_Command, botGuid := guid, masterGuid := master,
                                 command := cmd\<rparr>))
         | _ \<Rightarrow> reject EC_InvalidGuid))"

definition ParseRecover :: "FlatJsonFields \<Rightarrow> Request \<Rightarrow> RequestParseResult" where
  "ParseRecover fs r =
     (if \<not> HasExactFields fs (CommonFields {''botGuid'', ''destination''}) {} then reject EC_MalformedRequest
      else
        (case GuidField fs ''botGuid'' of
           None \<Rightarrow> reject EC_InvalidGuid
         | Some guid \<Rightarrow>
             (case StringField fs ''destination'' of
                None \<Rightarrow> reject EC_MalformedRequest
              | Some dest \<Rightarrow>
                  if dest \<noteq> ''homebind'' then reject EC_UnsupportedDestination
                  else accept (r\<lparr>operation := Op_Recover, botGuid := guid, destination := dest\<rparr>))))"

definition number_at :: "Request \<Rightarrow> string \<Rightarrow> uint64" where
  "number_at r name = (case numbers r name of None \<Rightarrow> 0 | Some v \<Rightarrow> v)"

definition ParseSetSkill :: "FlatJsonFields \<Rightarrow> Request \<Rightarrow> RequestParseResult" where
  "ParseSetSkill fs r =
     (if \<not> HasExactFields fs (CommonFields {''botGuid'', ''skillId'', ''value'', ''maximum''}) {}
      then reject EC_MalformedRequest
      else
        (case GuidField fs ''botGuid'' of
           None \<Rightarrow> reject EC_InvalidGuid
         | Some guid \<Rightarrow>
             (case store_uint32s fs r [(''skillId'', False), (''value'', False), (''maximum'', False)] of
                None \<Rightarrow> reject EC_InvalidSkill
              | Some r' \<Rightarrow>
                  (let v = number_at r' ''value''; maximum = number_at r' ''maximum'' in
                   if maximum > ucast MAX_SKILL_MAXIMUM \<or> maximum mod ucast SKILL_RANK_STEP \<noteq> 0 \<or> v > maximum
                   then reject EC_InvalidSkill
                   else accept (r'\<lparr>operation := Op_SetSkill, botGuid := guid\<rparr>)))))"

definition ParseTeleportToGameObject :: "FlatJsonFields \<Rightarrow> Request \<Rightarrow> RequestParseResult" where
  "ParseTeleportToGameObject fs r =
     (if \<not> HasExactFields fs (CommonFields {''botGuid'', ''gameObjectEntry''}) {} then reject EC_MalformedRequest
      else
        (case GuidField fs ''botGuid'' of
           None \<Rightarrow> reject EC_InvalidGuid
         | Some guid \<Rightarrow>
             (case StoreUInt32 r fs ''gameObjectEntry'' False of
                None \<Rightarrow> reject EC_GameObjectNotFound
              | Some r' \<Rightarrow> accept (r'\<lparr>operation := Op_TeleportToGameObject, botGuid := guid\<rparr>))))"

definition ParseHoldActivity :: "FlatJsonFields \<Rightarrow> Request \<Rightarrow> RequestParseResult" where
  "ParseHoldActivity fs r =
     (if \<not> HasExactFields fs (CommonFields {''botGuid'', ''durationSeconds''}) {''leaseToken''}
      then reject EC_MalformedRequest
      else
        (case GuidField fs ''botGuid'' of
           None \<Rightarrow> reject EC_InvalidGuid
         | Some guid \<Rightarrow>
             (case StoreUInt32 r fs ''durationSeconds'' False of
                None \<Rightarrow> reject EC_InvalidActivityLease
              | Some r' \<Rightarrow>
                  if number_at r' ''durationSeconds'' > ucast MAX_ACTIVITY_LEASE_SECONDS
                  then reject EC_InvalidActivityLease
                  else if contains fs ''leaseToken'' then
                    (case StringField fs ''leaseToken'' of
                       None \<Rightarrow> reject EC_InvalidActivityLease
                     | Some token \<Rightarrow>
                         if \<not> IsActivityLeaseToken token then reject EC_InvalidActivityLease
                         else accept (r'\<lparr>strings := (strings r')(''leaseToken'' \<mapsto> token),
                                         operation := Op_HoldActivity, botGuid := guid\<rparr>))
                  else accept (r'\<lparr>operation := Op_HoldActivity, botGuid := guid\<rparr>))))"

definition ParseReleaseActivity :: "FlatJsonFields \<Rightarrow> Request \<Rightarrow> RequestParseResult" where
  "ParseReleaseActivity fs r =
     (if \<not> HasExactFields fs (CommonFields {''botGuid'', ''leaseToken''}) {} then reject EC_MalformedRequest
      else
        (case GuidField fs ''botGuid'' of
           None \<Rightarrow> reject EC_InvalidGuid
         | Some guid \<Rightarrow>
             (case StringField fs ''leaseToken'' of
                None \<Rightarrow> reject EC_InvalidActivityLease
              | Some token \<Rightarrow>
                  if \<not> IsActivityLeaseToken token then reject EC_InvalidActivityLease
                  else accept (r\<lparr>operation := Op_ReleaseActivity, botGuid := guid,
                                 strings := (strings r)(''leaseToken'' \<mapsto> token)\<rparr>))))"

definition ParseGmCommand :: "FlatJsonFields \<Rightarrow> Request \<Rightarrow> RequestParseResult" where
  "ParseGmCommand fs r =
     (if \<not> HasExactFields fs (CommonFields {''command''}) {} then reject EC_MalformedRequest
      else
        (case StringField fs ''command'' of
           None \<Rightarrow> reject EC_InvalidCommand
         | Some cmd \<Rightarrow>
             if cmd = [] then reject EC_InvalidCommand
             else if IsRefusedGmCommand cmd then reject EC_CommandRefused
             else accept (r\<lparr>operation := Op_GmCommand, command := cmd\<rparr>)))"

definition ParseReloadConfig :: "FlatJsonFields \<Rightarrow> Request \<Rightarrow> RequestParseResult" where
  "ParseReloadConfig fs r =
     (if \<not> HasExactFields fs (CommonFields {}) {} then reject EC_MalformedRequest
      else accept (r\<lparr>operation := Op_ReloadConfig\<rparr>))"

definition ParseCheckRequest :: "FlatJsonFields \<Rightarrow> Request \<Rightarrow> RequestParseResult" where
  "ParseCheckRequest fs r =
     (case GuidField fs ''botGuid'' of
        None \<Rightarrow> reject EC_InvalidGuid
      | Some guid \<Rightarrow> ParseCheck fs (r\<lparr>operation := Op_Check, botGuid := guid\<rparr>))"

lemmas parse_operation_defs [handler_defs] =
  ParseStatus_def ParseList_def ParseBotOnly_def ParseInspect_def ParseInspectActivityLease_def
  ParseAnomalies_def ParseCommand_def ParseRecover_def ParseSetSkill_def ParseTeleportToGameObject_def
  ParseHoldActivity_def ParseReleaseActivity_def ParseGmCommand_def ParseReloadConfig_def
  ParseCheckRequest_def

definition ParseOperation :: "string \<Rightarrow> FlatJsonFields \<Rightarrow> Request \<Rightarrow> RequestParseResult" where
  "ParseOperation name fs r =
     (if name = ''status'' then ParseStatus fs r
      else if name = ''list'' then ParseList fs r
      else if name = ''inspect'' then ParseInspect fs r
      else if name = ''anomalies'' then ParseAnomalies fs r
      else if name = ''command'' then ParseCommand fs r
      else if name = ''recover'' then ParseRecover fs r
      else if name = ''set_skill'' then ParseSetSkill fs r
      else if name = ''teleport_to_gameobject'' then ParseTeleportToGameObject fs r
      else if name = ''hold_activity'' then ParseHoldActivity fs r
      else if name = ''inspect_activity_lease'' then ParseInspectActivityLease fs r
      else if name = ''release_activity'' then ParseReleaseActivity fs r
      else if name = ''gm_command'' then ParseGmCommand fs r
      else if name = ''reload_config'' then ParseReloadConfig fs r
      else if name = ''check'' then ParseCheckRequest fs r
      else reject EC_UnknownOperation)"

definition ParseRequestPayload ::
  "(string \<Rightarrow> TokenDigest) \<Rightarrow> string \<Rightarrow> TokenDigest \<Rightarrow> RequestParseResult" where
  "ParseRequestPayload sha256 p expectedTokenDigest =
     (case Parse None p of
        None \<Rightarrow> reject EC_MalformedRequest
      | Some (fs, _) \<Rightarrow>
          (let rid = UnsignedField fs ''requestId'';
               authenticated =
                 (case StringField fs ''token'' of
                    None \<Rightarrow> False
                  | Some token \<Rightarrow>
                      ConstantTimeTokenDigestEquals (DigestVerificationToken sha256 token) expectedTokenDigest)
           in
           if \<not> authenticated
           then \<lparr>request = None, responseRequestId = (case rid of None \<Rightarrow> 0 | Some i \<Rightarrow> i),
                  parse_error = MakeError EC_AuthenticationFailed\<rparr>
           else
             (case UnsignedField fs ''schemaVersion'' of
                None \<Rightarrow> reject EC_MalformedRequest
              | Some version \<Rightarrow>
                  if version \<noteq> ucast SCHEMA_VERSION then reject EC_UnsupportedSchemaVersion
                  else
                    (case (rid, StringField fs ''operation'') of
                       (Some i, Some name) \<Rightarrow> ParseOperation name fs (empty_request\<lparr>requestId := i\<rparr>)
                     | _ \<Rightarrow> reject EC_MalformedRequest))))"

end
