(* ===== verification/Request_Spec.thy ===== *)
theory Request_Spec
  imports Request_Parser
begin

text \<open>
  The contract of \<open>ParseRequestPayload\<close>: typed requests with the validity rules the protocol
  promises, the fields a client writes for them, and the \<open>Request\<close> they become. The parser accepts
  exactly the payloads whose fields are those of a valid typed request under the expected token.
\<close>

section \<open>Typed requests\<close>

datatype ActionResult = AR_Success | AR_Failure | AR_Either

primrec action_result_name :: "ActionResult \<Rightarrow> string" where
  "action_result_name AR_Success = ''success''"
| "action_result_name AR_Failure = ''failure''"
| "action_result_name AR_Either = ''either''"

datatype EconomyOutcome =
    EO_Scheduled
  | EO_Operation
  | EO_NoCandidate
  | EO_FailedPrecondition
  | EO_Released
  | EO_Blocked
  | EO_Quarantined
  | EO_Unavailable

primrec EconomyOutcomeToken :: "EconomyOutcome \<Rightarrow> string" where
  "EconomyOutcomeToken EO_Scheduled = ''scheduled''"
| "EconomyOutcomeToken EO_Operation = ''operation''"
| "EconomyOutcomeToken EO_NoCandidate = ''no_candidate''"
| "EconomyOutcomeToken EO_FailedPrecondition = ''failed_precondition''"
| "EconomyOutcomeToken EO_Released = ''released''"
| "EconomyOutcomeToken EO_Blocked = ''blocked''"
| "EconomyOutcomeToken EO_Quarantined = ''quarantined''"
| "EconomyOutcomeToken EO_Unavailable = ''unavailable''"

datatype typed_condition =
    CTransportAttached "uint32 option"
  | CTransportDetached
  | CMap uint32
  | CAction uint64 string ActionResult
  | CProfessionSkill uint32 uint32
  | CInventory uint32 uint32
  | CMoneyAtMost uint64
  | CMoneyDecrease uint64
  | CKnownRecipe uint32
  | CEconomy uint64 EconomyOutcome

datatype typed_request =
    TStatus
  | TList uint32 uint32
  | TInspect uint32
  | TAnomalies uint32
  | TCheck uint32 typed_condition
  | TCommand uint32 uint32 string
  | TRecover uint32
  | TSetSkill uint32 uint32 uint32 uint32
  | TTeleportToGameObject uint32 uint32
  | THoldActivity uint32 uint32 "string option"
  | TInspectActivityLease uint32
  | TReleaseActivity uint32 string
  | TGmCommand string
  | TReloadConfig

fun valid_condition :: "typed_condition \<Rightarrow> bool" where
  "valid_condition (CTransportAttached entry) \<longleftrightarrow> entry \<noteq> Some 0"
| "valid_condition (CAction after name res) \<longleftrightarrow> name \<noteq> []"
| "valid_condition (CProfessionSkill skill minimum) \<longleftrightarrow> skill \<noteq> 0"
| "valid_condition (CInventory item minimum) \<longleftrightarrow> item \<noteq> 0"
| "valid_condition (CKnownRecipe spell) \<longleftrightarrow> spell \<noteq> 0"
| "valid_condition (CEconomy after eo) \<longleftrightarrow> eo \<noteq> EO_Unavailable"
| "valid_condition _ \<longleftrightarrow> True"

fun valid_request :: "typed_request \<Rightarrow> bool" where
  "valid_request (TList after n) \<longleftrightarrow> 0 < n \<and> n \<le> MAX_LIST_LIMIT"
| "valid_request (TInspect guid) \<longleftrightarrow> guid \<noteq> 0"
| "valid_request (TAnomalies n) \<longleftrightarrow> 0 < n \<and> n \<le> MAX_ANOMALY_LIMIT"
| "valid_request (TCheck guid c) \<longleftrightarrow> guid \<noteq> 0 \<and> valid_condition c"
| "valid_request (TCommand guid master cmd) \<longleftrightarrow> guid \<noteq> 0 \<and> master \<noteq> 0 \<and> cmd \<noteq> []"
| "valid_request (TRecover guid) \<longleftrightarrow> guid \<noteq> 0"
| "valid_request (TSetSkill guid skill v maximum) \<longleftrightarrow>
     guid \<noteq> 0 \<and> skill \<noteq> 0 \<and> 0 < v \<and> v \<le> maximum \<and> maximum \<le> MAX_SKILL_MAXIMUM \<and>
     maximum mod SKILL_RANK_STEP = 0"
| "valid_request (TTeleportToGameObject guid entry) \<longleftrightarrow> guid \<noteq> 0 \<and> entry \<noteq> 0"
| "valid_request (THoldActivity guid seconds token) \<longleftrightarrow>
     guid \<noteq> 0 \<and> 0 < seconds \<and> seconds \<le> MAX_ACTIVITY_LEASE_SECONDS \<and>
     (case token of None \<Rightarrow> True | Some t \<Rightarrow> IsActivityLeaseToken t)"
| "valid_request (TInspectActivityLease guid) \<longleftrightarrow> guid \<noteq> 0"
| "valid_request (TReleaseActivity guid token) \<longleftrightarrow> guid \<noteq> 0 \<and> IsActivityLeaseToken token"
| "valid_request (TGmCommand cmd) \<longleftrightarrow> \<not> IsRefusedGmCommand cmd"
| "valid_request _ \<longleftrightarrow> True"

section \<open>Their fields\<close>

abbreviation WireNumber32 :: "uint32 \<Rightarrow> wire_value" where
  "WireNumber32 n \<equiv> WireNumber (ucast n)"

fun condition_name :: "typed_condition \<Rightarrow> string" where
  "condition_name (CTransportAttached entry) = ''transport_attached''"
| "condition_name CTransportDetached = ''transport_detached''"
| "condition_name (CMap m) = ''map''"
| "condition_name (CAction after name res) = ''action''"
| "condition_name (CProfessionSkill skill minimum) = ''profession_skill''"
| "condition_name (CInventory item minimum) = ''inventory''"
| "condition_name (CMoneyAtMost maximum) = ''money_at_most''"
| "condition_name (CMoneyDecrease baseline) = ''money_decrease''"
| "condition_name (CKnownRecipe spell) = ''known_recipe''"
| "condition_name (CEconomy after eo) = ''economy''"

fun condition_wire :: "typed_condition \<Rightarrow> (string \<times> wire_value) list" where
  "condition_wire (CTransportAttached None) = []"
| "condition_wire (CTransportAttached (Some entry)) = [(''transportEntry'', WireNumber32 entry)]"
| "condition_wire CTransportDetached = []"
| "condition_wire (CMap m) = [(''mapId'', WireNumber32 m)]"
| "condition_wire (CAction after name res) =
     [(''afterSequence'', WireNumber after), (''actionName'', WireString name),
      (''actionResult'', WireString (action_result_name res))]"
| "condition_wire (CProfessionSkill skill minimum) =
     [(''skillId'', WireNumber32 skill), (''minimumValue'', WireNumber32 minimum)]"
| "condition_wire (CInventory item minimum) =
     [(''itemId'', WireNumber32 item), (''minimumCount'', WireNumber32 minimum)]"
| "condition_wire (CMoneyAtMost maximum) = [(''maximumCopper'', WireNumber maximum)]"
| "condition_wire (CMoneyDecrease baseline) = [(''baselineCopper'', WireNumber baseline)]"
| "condition_wire (CKnownRecipe spell) = [(''spellId'', WireNumber32 spell)]"
| "condition_wire (CEconomy after eo) =
     [(''afterSequence'', WireNumber after), (''economyOutcome'', WireString (EconomyOutcomeToken eo))]"

fun operation_name :: "typed_request \<Rightarrow> string" where
  "operation_name TStatus = ''status''"
| "operation_name (TList after n) = ''list''"
| "operation_name (TInspect guid) = ''inspect''"
| "operation_name (TAnomalies n) = ''anomalies''"
| "operation_name (TCheck guid c) = ''check''"
| "operation_name (TCommand guid master cmd) = ''command''"
| "operation_name (TRecover guid) = ''recover''"
| "operation_name (TSetSkill guid skill v maximum) = ''set_skill''"
| "operation_name (TTeleportToGameObject guid entry) = ''teleport_to_gameobject''"
| "operation_name (THoldActivity guid seconds token) = ''hold_activity''"
| "operation_name (TInspectActivityLease guid) = ''inspect_activity_lease''"
| "operation_name (TReleaseActivity guid token) = ''release_activity''"
| "operation_name (TGmCommand cmd) = ''gm_command''"
| "operation_name TReloadConfig = ''reload_config''"

fun request_wire :: "typed_request \<Rightarrow> (string \<times> wire_value) list" where
  "request_wire TStatus = []"
| "request_wire (TList after n) = [(''afterGuid'', WireNumber32 after), (''limit'', WireNumber32 n)]"
| "request_wire (TInspect guid) = [(''botGuid'', WireNumber32 guid)]"
| "request_wire (TAnomalies n) = [(''limit'', WireNumber32 n)]"
| "request_wire (TCheck guid c) =
     (''botGuid'', WireNumber32 guid) # (''condition'', WireString (condition_name c)) # condition_wire c"
| "request_wire (TCommand guid master cmd) =
     [(''botGuid'', WireNumber32 guid), (''masterGuid'', WireNumber32 master), (''command'', WireString cmd)]"
| "request_wire (TRecover guid) =
     [(''botGuid'', WireNumber32 guid), (''destination'', WireString ''homebind'')]"
| "request_wire (TSetSkill guid skill v maximum) =
     [(''botGuid'', WireNumber32 guid), (''skillId'', WireNumber32 skill), (''value'', WireNumber32 v),
      (''maximum'', WireNumber32 maximum)]"
| "request_wire (TTeleportToGameObject guid entry) =
     [(''botGuid'', WireNumber32 guid), (''gameObjectEntry'', WireNumber32 entry)]"
| "request_wire (THoldActivity guid seconds token) =
     [(''botGuid'', WireNumber32 guid), (''durationSeconds'', WireNumber32 seconds)] @
     (case token of None \<Rightarrow> [] | Some t \<Rightarrow> [(''leaseToken'', WireString t)])"
| "request_wire (TInspectActivityLease guid) = [(''botGuid'', WireNumber32 guid)]"
| "request_wire (TReleaseActivity guid token) =
     [(''botGuid'', WireNumber32 guid), (''leaseToken'', WireString token)]"
| "request_wire (TGmCommand cmd) = [(''command'', WireString cmd)]"
| "request_wire TReloadConfig = []"

definition wire :: "uint64 \<Rightarrow> string \<Rightarrow> typed_request \<Rightarrow> (string \<times> wire_value) list" where
  "wire rid token t =
     [(''schemaVersion'', WireNumber 2), (''requestId'', WireNumber rid), (''token'', WireString token),
      (''operation'', WireString (operation_name t))] @ request_wire t"

section \<open>The request they become\<close>

fun condition_numbers :: "typed_condition \<Rightarrow> string \<rightharpoonup> uint64" where
  "condition_numbers (CTransportAttached (Some entry)) = [''transportEntry'' \<mapsto> ucast entry]"
| "condition_numbers (CMap m) = [''mapId'' \<mapsto> ucast m]"
| "condition_numbers (CAction after name res) = [''afterSequence'' \<mapsto> after]"
| "condition_numbers (CProfessionSkill skill minimum) =
     [''skillId'' \<mapsto> ucast skill, ''minimumValue'' \<mapsto> ucast minimum]"
| "condition_numbers (CInventory item minimum) =
     [''itemId'' \<mapsto> ucast item, ''minimumCount'' \<mapsto> ucast minimum]"
| "condition_numbers (CMoneyAtMost maximum) = [''maximumCopper'' \<mapsto> maximum]"
| "condition_numbers (CMoneyDecrease baseline) = [''baselineCopper'' \<mapsto> baseline]"
| "condition_numbers (CKnownRecipe spell) = [''spellId'' \<mapsto> ucast spell]"
| "condition_numbers (CEconomy after eo) = [''afterSequence'' \<mapsto> after]"
| "condition_numbers _ = Map.empty"

fun condition_strings :: "typed_condition \<Rightarrow> string \<rightharpoonup> string" where
  "condition_strings (CAction after name res) =
     [''actionName'' \<mapsto> name, ''actionResult'' \<mapsto> action_result_name res]"
| "condition_strings (CEconomy after eo) = [''economyOutcome'' \<mapsto> EconomyOutcomeToken eo]"
| "condition_strings _ = Map.empty"

fun concretize :: "uint64 \<Rightarrow> typed_request \<Rightarrow> Request" where
  "concretize rid TStatus = empty_request\<lparr>requestId := rid, operation := Op_Status\<rparr>"
| "concretize rid (TList after n) =
     empty_request\<lparr>requestId := rid, operation := Op_List, afterGuid := after, limit := n\<rparr>"
| "concretize rid (TInspect guid) = empty_request\<lparr>requestId := rid, operation := Op_Inspect, botGuid := guid\<rparr>"
| "concretize rid (TAnomalies n) = empty_request\<lparr>requestId := rid, operation := Op_Anomalies, limit := n\<rparr>"
| "concretize rid (TCheck guid c) =
     empty_request\<lparr>requestId := rid, operation := Op_Check, botGuid := guid, condition := condition_name c,
       numbers := condition_numbers c, strings := condition_strings c\<rparr>"
| "concretize rid (TCommand guid master cmd) =
     empty_request\<lparr>requestId := rid, operation := Op_Command, botGuid := guid, masterGuid := master,
       command := cmd\<rparr>"
| "concretize rid (TRecover guid) =
     empty_request\<lparr>requestId := rid, operation := Op_Recover, botGuid := guid, destination := ''homebind''\<rparr>"
| "concretize rid (TSetSkill guid skill v maximum) =
     empty_request\<lparr>requestId := rid, operation := Op_SetSkill, botGuid := guid,
       numbers := [''skillId'' \<mapsto> ucast skill, ''value'' \<mapsto> ucast v, ''maximum'' \<mapsto> ucast maximum]\<rparr>"
| "concretize rid (TTeleportToGameObject guid entry) =
     empty_request\<lparr>requestId := rid, operation := Op_TeleportToGameObject, botGuid := guid,
       numbers := [''gameObjectEntry'' \<mapsto> ucast entry]\<rparr>"
| "concretize rid (THoldActivity guid seconds token) =
     empty_request\<lparr>requestId := rid, operation := Op_HoldActivity, botGuid := guid,
       numbers := [''durationSeconds'' \<mapsto> ucast seconds],
       strings := (case token of None \<Rightarrow> Map.empty | Some t \<Rightarrow> [''leaseToken'' \<mapsto> t])\<rparr>"
| "concretize rid (TInspectActivityLease guid) =
     empty_request\<lparr>requestId := rid, operation := Op_InspectActivityLease, botGuid := guid\<rparr>"
| "concretize rid (TReleaseActivity guid token) =
     empty_request\<lparr>requestId := rid, operation := Op_ReleaseActivity, botGuid := guid,
       strings := [''leaseToken'' \<mapsto> token]\<rparr>"
| "concretize rid (TGmCommand cmd) = empty_request\<lparr>requestId := rid, operation := Op_GmCommand, command := cmd\<rparr>"
| "concretize rid TReloadConfig = empty_request\<lparr>requestId := rid, operation := Op_ReloadConfig\<rparr>"

section \<open>Fields as maps\<close>

text \<open>The parser's helpers read the fields only through their lookup map.\<close>

definition flat_kind :: "FlatJsonValue \<Rightarrow> bool" where
  "flat_kind v \<longleftrightarrow> (\<exists>w. v = wire_field w) \<or> v = default_value"

lemma flat_value_kind:
  assumes "flat_value t v"
  shows "flat_kind v"
  using assms
proof (cases rule: flat_value.cases)
  case (fv_string b x)
  then have "v = wire_field (WireString x)" by simp
  then show ?thesis unfolding flat_kind_def by blast
next
  case fv_unsigned
  then have "digits_value 0 t < 2 ^ 64" by (simp add: unsigned_text_def)
  then have "unat (of_nat (digits_value 0 t) :: uint64) = digits_value 0 t"
    by (simp add: unsigned_of_nat take_bit_eq_mod)
  with fv_unsigned have "v = wire_field (WireNumber (of_nat (digits_value 0 t)))" by simp
  then show ?thesis unfolding flat_kind_def by blast
qed (simp add: flat_kind_def)

lemma fields_rest_kind: "fields_rest kvs t \<Longrightarrow> (k, v) \<in> set kvs \<Longrightarrow> flat_kind v"
  by (induction rule: fields_rest.induct) (auto dest: flat_value_kind)

lemma flat_object_kind: "flat_object kvs s \<Longrightarrow> (k, v) \<in> set kvs \<Longrightarrow> flat_kind v"
  by (auto simp: flat_object_def dest: fields_rest_kind split: if_splits)

definition well_typed :: "FlatJsonFields \<Rightarrow> bool" where
  "well_typed fs \<longleftrightarrow> (\<forall>(k, v) \<in> set fs. flat_kind v)"

lemma well_typed_lookup: "well_typed fs \<Longrightarrow> map_of fs k = Some v \<Longrightarrow> flat_kind v"
  by (auto simp: well_typed_def dest: map_of_SomeD)

lemma UnsignedField_Some:
  assumes "well_typed fs"
  shows "UnsignedField fs name = Some n \<longleftrightarrow> map_of fs name = Some (wire_field (WireNumber n))"
proof -
  have "v = wire_field (WireNumber (number v))" if "map_of fs name = Some v" "isUnsigned v" for v
  proof -
    from well_typed_lookup [OF assms that(1)] that(2) obtain w where "v = wire_field w"
      by (auto simp: flat_kind_def)
    with that(2) show ?thesis by (cases w) (auto simp del: wire_field.simps)
  qed
  then show ?thesis
    by (auto simp: UnsignedField_def simp del: wire_field.simps split: option.splits)
qed

lemma StringField_Some:
  assumes "well_typed fs"
  shows "StringField fs name = Some x \<longleftrightarrow> map_of fs name = Some (wire_field (WireString x))"
proof -
  have "v = wire_field (WireString (text_value v))" if "map_of fs name = Some v" "isString v" for v
  proof -
    from well_typed_lookup [OF assms that(1)] that(2) obtain w where "v = wire_field w"
      by (auto simp: flat_kind_def)
    with that(2) show ?thesis by (cases w) (auto simp del: wire_field.simps)
  qed
  then show ?thesis
    by (auto simp: StringField_def simp del: wire_field.simps split: option.splits)
qed

lemma HasExactFields_dom:
  "HasExactFields fs required optional \<longleftrightarrow>
     required \<subseteq> dom (map_of fs) \<and> dom (map_of fs) \<subseteq> required \<union> optional"
  unfolding HasExactFields_def contains_def list_all_iff dom_map_of_conv_image_fst map_of_eq_None_iff
  by auto

lemma map_of_eqI:
  assumes "dom m = fst ` set ws" and "list_all (\<lambda>(k, v). m k = Some v) ws"
  shows "m = map_of ws"
proof
  fix k
  show "m k = map_of ws k"
  proof (cases "k \<in> fst ` set ws")
    case True
    then obtain v where "map_of ws k = Some v"
      by (metis not_None_eq map_of_eq_None_iff)
    moreover from this have "(k, v) \<in> set ws" by (rule map_of_SomeD)
    ultimately show ?thesis using assms(2) by (auto simp: list_all_iff)
  next
    case False
    with assms(1) have "m k = None" by auto
    with False show ?thesis by (metis map_of_eq_None_iff)
  qed
qed

declare wire_field.simps [simp del]

lemma wire_field_inject [simp]: "wire_field v = wire_field w \<longleftrightarrow> v = w"
proof
  assume "wire_field v = wire_field w"
  then have "isString (wire_field v) = isString (wire_field w)"
    "number (wire_field v) = number (wire_field w)" "text_value (wire_field v) = text_value (wire_field w)"
    by simp_all
  then show "v = w" by (cases v; cases w) simp_all
qed simp

lemma narrow_field:
  "v \<le> uint32_max \<Longrightarrow> WireNumber v = WireNumber32 (ucast v)"
  by (simp add: ucast_64_32)

lemma GuidField_Some:
  assumes "well_typed fs"
  shows "GuidField fs name = Some g \<longleftrightarrow> g \<noteq> 0 \<and> map_of fs name = Some (wire_field (WireNumber32 g))"
proof
  assume "GuidField fs name = Some g"
  then obtain v where v: "UnsignedField fs name = Some v" "0 < v" "v \<le> uint32_max" "g = ucast v"
    by (auto simp: GuidField_def IsValidGuid_def split: option.splits if_splits)
  have "(ucast (ucast v :: uint32) :: uint64) = v" by (rule ucast_64_32 [OF v(3)])
  with v(2,4) have "g \<noteq> 0" by (metis ucast_32_eq_0 word_gt_0)
  moreover have "map_of fs name = Some (wire_field (WireNumber v))"
    using v(1) by (simp only: UnsignedField_Some [OF assms])
  ultimately show "g \<noteq> 0 \<and> map_of fs name = Some (wire_field (WireNumber32 g))"
    unfolding v(4) narrow_field [OF v(3), symmetric] by blast
next
  assume "g \<noteq> 0 \<and> map_of fs name = Some (wire_field (WireNumber32 g))"
  moreover from this have "UnsignedField fs name = Some (ucast g)" by (simp add: UnsignedField_Some [OF assms])
  ultimately show "GuidField fs name = Some g"
    by (simp add: GuidField_def IsValidGuid_def)
qed

lemma StoreUInt32_Some:
  assumes "well_typed fs"
  shows "StoreUInt32 r fs name allowZero = Some r' \<longleftrightarrow>
    (\<exists>v. map_of fs name = Some (wire_field (WireNumber32 v)) \<and> (allowZero \<or> v \<noteq> 0) \<and>
       r' = r\<lparr>numbers := (numbers r)(name \<mapsto> ucast v)\<rparr>)"
proof
  assume "StoreUInt32 r fs name allowZero = Some r'"
  then obtain v where v: "UnsignedField fs name = Some v" "v \<le> uint32_max" "allowZero \<or> v \<noteq> 0"
    "r' = r\<lparr>numbers := (numbers r)(name \<mapsto> v)\<rparr>"
    by (auto simp: StoreUInt32_def not_less split: option.splits if_splits)
  have u: "(ucast (ucast v :: uint32) :: uint64) = v" by (rule ucast_64_32 [OF v(2)])
  have "map_of fs name = Some (wire_field (WireNumber v))"
    using v(1) by (simp only: UnsignedField_Some [OF assms])
  moreover have "allowZero \<or> (ucast v :: uint32) \<noteq> 0"
    using v(3) u by (metis ucast_32_eq_0)
  ultimately show "\<exists>v. map_of fs name = Some (wire_field (WireNumber32 v)) \<and> (allowZero \<or> v \<noteq> 0) \<and>
       r' = r\<lparr>numbers := (numbers r)(name \<mapsto> ucast v)\<rparr>"
    using v(4) by (intro exI [of _ "ucast v"]) (simp add: u)
next
  assume "\<exists>v. map_of fs name = Some (wire_field (WireNumber32 v)) \<and> (allowZero \<or> v \<noteq> 0) \<and>
       r' = r\<lparr>numbers := (numbers r)(name \<mapsto> ucast v)\<rparr>"
  then obtain v where v: "UnsignedField fs name = Some (ucast (v :: uint32))" "allowZero \<or> v \<noteq> 0"
    "r' = r\<lparr>numbers := (numbers r)(name \<mapsto> ucast v)\<rparr>"
    by (auto simp: UnsignedField_Some [OF assms])
  then show "StoreUInt32 r fs name allowZero = Some r'"
    by (auto simp: StoreUInt32_def not_less)
qed

text \<open>A bounded field, read as a 64 bit number and compared with a 32 bit limit.\<close>

lemma ucast_le_limit:
  assumes "(v :: uint64) \<le> ucast (m :: uint32)"
  shows "v \<le> uint32_max" and "ucast v \<le> m"
proof -
  show v: "v \<le> uint32_max" using assms ucast_32_le_max [of m] by (rule order_trans)
  from assms show "ucast v \<le> m"
    by (simp add: word_le_nat_alt unat_ucast_32 [OF v])
qed

lemma ucast_mono_limit: "(n :: uint32) \<le> m \<Longrightarrow> (ucast n :: uint64) \<le> ucast m"
  by (simp add: word_le_nat_alt)

lemma ucast_le_iff [simp]: "(ucast (n :: uint32) :: uint64) \<le> ucast m \<longleftrightarrow> n \<le> m"
  by (simp add: word_le_nat_alt)

lemma ucast_mod_64: "(ucast (a :: uint32) :: uint64) mod ucast b = ucast (a mod b)"
  by (simp add: word_unat_eq_iff unat_mod)

section \<open>The fields of a typed request\<close>

definition common :: "FlatJsonFields \<Rightarrow> uint64 \<Rightarrow> string \<Rightarrow> string \<Rightarrow> bool" where
  "common fs rid token name \<longleftrightarrow>
     map_of fs ''schemaVersion'' = Some (wire_field (WireNumber 2)) \<and>
     map_of fs ''requestId'' = Some (wire_field (WireNumber rid)) \<and>
     map_of fs ''token'' = Some (wire_field (WireString token)) \<and>
     map_of fs ''operation'' = Some (wire_field (WireString name))"

definition carries :: "FlatJsonFields \<Rightarrow> (string \<times> wire_value) list \<Rightarrow> bool" where
  "carries fs ws \<longleftrightarrow> list_all (\<lambda>(k, w). map_of fs k = Some (wire_field w)) ws"

lemma carries_simps [simp]:
  "carries fs []" "carries fs ((k, w) # ws) \<longleftrightarrow> map_of fs k = Some (wire_field w) \<and> carries fs ws"
  "carries fs (ws @ ws') \<longleftrightarrow> carries fs ws \<and> carries fs ws'"
  by (simp_all add: carries_def)

lemma map_of_wire_iff:
  assumes "distinct (map fst ws)"
  shows "map_of fs = map_of (wire_fields ws) \<longleftrightarrow> dom (map_of fs) = fst ` set ws \<and> carries fs ws"
proof
  assume eq: "map_of fs = map_of (wire_fields ws)"
  have "fst ` set (wire_fields ws) = fst ` set ws"
    by (metis map_fst_wire_fields set_map)
  moreover have "carries fs ws"
    using assms unfolding carries_def eq
    by (auto simp: list_all_iff map_of_wire_fields)
  ultimately show "dom (map_of fs) = fst ` set ws \<and> carries fs ws"
    by (simp add: eq dom_map_of_conv_image_fst)
next
  assume a: "dom (map_of fs) = fst ` set ws \<and> carries fs ws"
  have "fst ` set (wire_fields ws) = fst ` set ws"
    by (metis map_fst_wire_fields set_map)
  moreover have "list_all (\<lambda>(k, v). map_of fs k = Some v) (wire_fields ws)"
    using a by (auto simp: carries_def list_all_iff wire_fields_def)
  ultimately show "map_of fs = map_of (wire_fields ws)"
    using a by (intro map_of_eqI) simp_all
qed

lemma wire_distinct: "distinct (map fst (wire rid token t))"
proof (cases t)
  case (TCheck g c)
  then show ?thesis by (cases c rule: condition_wire.cases) (simp_all add: wire_def)
next
  case (THoldActivity g s tk)
  then show ?thesis by (cases tk) (simp_all add: wire_def)
qed (simp_all add: wire_def)

lemma wire_keys: "fst ` set (wire rid token t) = CommonFields (fst ` set (request_wire t))"
  by (auto simp: wire_def CommonFields_def)

definition denotes :: "FlatJsonFields \<Rightarrow> uint64 \<Rightarrow> string \<Rightarrow> typed_request \<Rightarrow> bool" where
  "denotes fs rid token t \<longleftrightarrow> map_of fs = map_of (wire_fields (wire rid token t))"

lemma denotes_iff:
  "denotes fs rid token t \<longleftrightarrow>
     dom (map_of fs) = CommonFields (fst ` set (request_wire t)) \<and>
     common fs rid token (operation_name t) \<and> carries fs (request_wire t)"
  unfolding denotes_def map_of_wire_iff [OF wire_distinct] wire_keys
  by (auto simp: wire_def common_def)

lemma HasExactFields_exact: "HasExactFields fs required {} \<longleftrightarrow> dom (map_of fs) = required"
  by (auto simp: HasExactFields_dom)

lemma ucast_less_iff [simp]: "(ucast (n :: uint32) :: uint64) < ucast m \<longleftrightarrow> n < m"
  by (simp add: word_less_nat_alt)

lemma ucast_eq_iff [simp]: "(ucast (n :: uint32) :: uint64) = ucast m \<longleftrightarrow> n = m"
  by (metis ucast_32_64)

lemma ucast_32_not_above [simp]: "\<not> uint32_max < ucast (n :: uint32)"
  by (simp add: not_less)

section \<open>The operations accept the valid requests\<close>

abbreviation start :: "uint64 \<Rightarrow> Request" where
  "start rid \<equiv> empty_request\<lparr>requestId := rid\<rparr>"

definition accepts :: "FlatJsonFields \<Rightarrow> uint64 \<Rightarrow> string \<Rightarrow> typed_request \<Rightarrow> Request \<Rightarrow> bool" where
  "accepts fs rid token t r \<longleftrightarrow> denotes fs rid token t \<and> valid_request t \<and> r = concretize rid t"

lemma UnsignedField_None:
  "well_typed fs \<Longrightarrow> UnsignedField fs name = None \<longleftrightarrow> (\<forall>n. map_of fs name \<noteq> Some (wire_field (WireNumber n)))"
  by (metis UnsignedField_Some not_None_eq)

lemma StringField_None:
  "well_typed fs \<Longrightarrow> StringField fs name = None \<longleftrightarrow> (\<forall>x. map_of fs name \<noteq> Some (wire_field (WireString x)))"
  by (metis StringField_Some not_None_eq)

lemma GuidField_None:
  "well_typed fs \<Longrightarrow> GuidField fs name = None \<longleftrightarrow>
     (\<forall>g. g \<noteq> 0 \<longrightarrow> map_of fs name \<noteq> Some (wire_field (WireNumber32 g)))"
  by (metis GuidField_Some not_None_eq)

lemmas field_reads =
  UnsignedField_Some StringField_Some GuidField_Some UnsignedField_None StringField_None GuidField_None

lemma narrow_iff: "v \<le> uint32_max \<longleftrightarrow> (\<exists>n :: uint32. v = ucast n)"
  using ucast_64_32 [of v] by (metis ucast_32_le_max)

lemma narrow_limit: "(v :: uint64) \<le> ucast (m :: uint32) \<longleftrightarrow> (\<exists>n \<le> m. v = ucast n)"
  using ucast_le_limit [of v m] ucast_64_32 [of v] by (metis ucast_le_iff)

lemmas op_simps = accepts_def denotes_iff HasExactFields_exact not_less narrow_iff narrow_limit

lemma ParseStatus_iff:
  assumes "well_typed fs" "common fs rid token ''status''"
  shows "request (ParseStatus fs (start rid)) = Some r \<longleftrightarrow> accepts fs rid token TStatus r"
  using assms by (auto simp: ParseStatus_def op_simps)

lemma ParseList_iff:
  assumes "well_typed fs" "common fs rid token ''list''"
  shows "request (ParseList fs (start rid)) = Some r \<longleftrightarrow> (\<exists>a n. accepts fs rid token (TList a n) r)"
  using assms
  by (auto simp: ParseList_def op_simps field_reads word_gt_0 split: option.splits if_splits)

lemma ParseBotOnly_iff:
  assumes "well_typed fs"
  shows "request (ParseBotOnly op fs r0) = Some r \<longleftrightarrow>
    (\<exists>g. dom (map_of fs) = CommonFields {''botGuid''} \<and> g \<noteq> 0 \<and>
       map_of fs ''botGuid'' = Some (wire_field (WireNumber32 g)) \<and> r = r0\<lparr>operation := op, botGuid := g\<rparr>)"
  using assms
  by (auto simp: ParseBotOnly_def op_simps field_reads split: option.splits if_splits)

lemma ParseInspect_iff:
  assumes "well_typed fs" "common fs rid token ''inspect''"
  shows "request (ParseInspect fs (start rid)) = Some r \<longleftrightarrow> (\<exists>g. accepts fs rid token (TInspect g) r)"
  using assms by (auto simp: ParseInspect_def ParseBotOnly_iff op_simps)

lemma ParseInspectActivityLease_iff:
  assumes "well_typed fs" "common fs rid token ''inspect_activity_lease''"
  shows "request (ParseInspectActivityLease fs (start rid)) = Some r \<longleftrightarrow>
    (\<exists>g. accepts fs rid token (TInspectActivityLease g) r)"
  using assms by (auto simp: ParseInspectActivityLease_def ParseBotOnly_iff op_simps)

lemma ParseAnomalies_iff:
  assumes "well_typed fs" "common fs rid token ''anomalies''"
  shows "request (ParseAnomalies fs (start rid)) = Some r \<longleftrightarrow> (\<exists>n. accepts fs rid token (TAnomalies n) r)"
  using assms
  by (auto simp: ParseAnomalies_def op_simps field_reads word_gt_0 split: option.splits if_splits)

lemma ParseCommand_iff:
  assumes "well_typed fs" "common fs rid token ''command''"
  shows "request (ParseCommand fs (start rid)) = Some r \<longleftrightarrow>
    (\<exists>g m cmd. accepts fs rid token (TCommand g m cmd) r)"
  using assms
  by (auto simp: ParseCommand_def op_simps field_reads split: option.splits if_splits)

lemma ParseRecover_iff:
  assumes "well_typed fs" "common fs rid token ''recover''"
  shows "request (ParseRecover fs (start rid)) = Some r \<longleftrightarrow> (\<exists>g. accepts fs rid token (TRecover g) r)"
  using assms
  by (auto simp: ParseRecover_def op_simps field_reads split: option.splits if_splits)

lemma ParseGmCommand_iff:
  assumes "well_typed fs" "common fs rid token ''gm_command''"
  shows "request (ParseGmCommand fs (start rid)) = Some r \<longleftrightarrow> (\<exists>cmd. accepts fs rid token (TGmCommand cmd) r)"
proof -
  have "IsRefusedGmCommand []" by (simp add: IsRefusedGmCommand_def)
  then show ?thesis
    using assms
    by (auto simp: ParseGmCommand_def op_simps field_reads split: option.splits if_splits)
qed

lemma ParseReloadConfig_iff:
  assumes "well_typed fs" "common fs rid token ''reload_config''"
  shows "request (ParseReloadConfig fs (start rid)) = Some r \<longleftrightarrow> accepts fs rid token TReloadConfig r"
  using assms by (auto simp: ParseReloadConfig_def op_simps)

lemma ParseReleaseActivity_iff:
  assumes "well_typed fs" "common fs rid token ''release_activity''"
  shows "request (ParseReleaseActivity fs (start rid)) = Some r \<longleftrightarrow>
    (\<exists>g tk. accepts fs rid token (TReleaseActivity g tk) r)"
  using assms
  by (auto simp: ParseReleaseActivity_def op_simps field_reads empty_request_def split: option.splits if_splits)


lemma StoreUInt32_None:
  "well_typed fs \<Longrightarrow> StoreUInt32 r fs name allowZero = None \<longleftrightarrow>
     (\<forall>v. allowZero \<or> v \<noteq> 0 \<longrightarrow> map_of fs name \<noteq> Some (wire_field (WireNumber32 v)))"
  by (metis StoreUInt32_Some not_None_eq)

lemma start_simps [simp]:
  "numbers empty_request = Map.empty" "strings empty_request = Map.empty"
  by (simp_all add: empty_request_def)

lemma ParseTeleportToGameObject_iff:
  assumes "well_typed fs" "common fs rid token ''teleport_to_gameobject''"
  shows "request (ParseTeleportToGameObject fs (start rid)) = Some r \<longleftrightarrow>
    (\<exists>g e. accepts fs rid token (TTeleportToGameObject g e) r)"
  using assms
  by (auto simp: ParseTeleportToGameObject_def op_simps field_reads StoreUInt32_Some StoreUInt32_None
      split: option.splits if_splits)

lemma store_uint32s_Some:
  assumes "well_typed fs"
  shows "store_uint32s fs r [] = Some r' \<longleftrightarrow> r' = r"
    and "store_uint32s fs r ((name, allowZero) # rest) = Some r' \<longleftrightarrow>
      (\<exists>v. map_of fs name = Some (wire_field (WireNumber32 v)) \<and> (allowZero \<or> v \<noteq> 0) \<and>
         store_uint32s fs (r\<lparr>numbers := (numbers r)(name \<mapsto> ucast v)\<rparr>) rest = Some r')"
proof -
  show "store_uint32s fs r [] = Some r' \<longleftrightarrow> r' = r" by auto
  show "store_uint32s fs r ((name, allowZero) # rest) = Some r' \<longleftrightarrow>
      (\<exists>v. map_of fs name = Some (wire_field (WireNumber32 v)) \<and> (allowZero \<or> v \<noteq> 0) \<and>
         store_uint32s fs (r\<lparr>numbers := (numbers r)(name \<mapsto> ucast v)\<rparr>) rest = Some r')"
  proof (cases "StoreUInt32 r fs name allowZero")
    case None
    then show ?thesis using StoreUInt32_None [OF assms, of r name allowZero] by auto
  next
    case (Some r1)
    then obtain v where v: "map_of fs name = Some (wire_field (WireNumber32 v))" "allowZero \<or> v \<noteq> 0"
      "r1 = r\<lparr>numbers := (numbers r)(name \<mapsto> ucast v)\<rparr>"
      by (auto simp: StoreUInt32_Some [OF assms])
    with Some show ?thesis by auto
  qed
qed

lemma ParseSetSkill_cases:
  "request (ParseSetSkill fs r0) = Some r \<longleftrightarrow>
     HasExactFields fs (CommonFields {''botGuid'', ''skillId'', ''value'', ''maximum''}) {} \<and>
     (\<exists>g r'. GuidField fs ''botGuid'' = Some g \<and>
        store_uint32s fs r0 [(''skillId'', False), (''value'', False), (''maximum'', False)] = Some r' \<and>
        number_at r' ''maximum'' \<le> ucast MAX_SKILL_MAXIMUM \<and>
        number_at r' ''maximum'' mod ucast SKILL_RANK_STEP = 0 \<and>
        number_at r' ''value'' \<le> number_at r' ''maximum'' \<and>
        r = r'\<lparr>operation := Op_SetSkill, botGuid := g\<rparr>)"
  by (auto simp: ParseSetSkill_def Let_def not_less simp del: store_uint32s.simps del: mod_0_imp_dvd split: option.splits)

lemma ParseSetSkill_iff:
  assumes "well_typed fs" "common fs rid token ''set_skill''"
  shows "request (ParseSetSkill fs (start rid)) = Some r \<longleftrightarrow>
    (\<exists>g sk v m. accepts fs rid token (TSetSkill g sk v m) r)"
proof
  assume "request (ParseSetSkill fs (start rid)) = Some r"
  then obtain g sk v m where "dom (map_of fs) = CommonFields {''botGuid'', ''skillId'', ''value'', ''maximum''}"
    "g \<noteq> 0" "map_of fs ''botGuid'' = Some (wire_field (WireNumber32 g))"
    "sk \<noteq> 0" "map_of fs ''skillId'' = Some (wire_field (WireNumber32 sk))"
    "v \<noteq> 0" "map_of fs ''value'' = Some (wire_field (WireNumber32 v))"
    "m \<noteq> 0" "map_of fs ''maximum'' = Some (wire_field (WireNumber32 m))"
    "m \<le> MAX_SKILL_MAXIMUM" "m mod SKILL_RANK_STEP = 0" "v \<le> m"
    "r = concretize rid (TSetSkill g sk v m)"
    by (auto simp: ParseSetSkill_cases HasExactFields_exact GuidField_Some [OF assms(1)] number_at_def
        store_uint32s_Some [OF assms(1)] ucast_mod_64 simp del: store_uint32s.simps del: mod_0_imp_dvd)
  then show "\<exists>g sk v m. accepts fs rid token (TSetSkill g sk v m) r"
    using assms(2)
    by (intro exI [of _ g] exI [of _ sk] exI [of _ v] exI [of _ m])
       (simp add: accepts_def denotes_iff word_gt_0)
next
  assume "\<exists>g sk v m. accepts fs rid token (TSetSkill g sk v m) r"
  then obtain g sk v m where "accepts fs rid token (TSetSkill g sk v m) r" by blast
  moreover from this have "m \<noteq> 0" by (auto simp: accepts_def word_gt_0)
  ultimately show "request (ParseSetSkill fs (start rid)) = Some r"
    unfolding ParseSetSkill_cases
    by (auto simp: HasExactFields_exact GuidField_Some [OF assms(1)] number_at_def accepts_def denotes_iff
        store_uint32s_Some [OF assms(1)] ucast_mod_64 word_gt_0 simp del: store_uint32s.simps del: mod_0_imp_dvd)
qed

text \<open>The optional lease token of \<open>hold_activity\<close>: the fields are exact with it or without it.\<close>

lemma ParseHoldActivity_cases:
  "request (ParseHoldActivity fs r0) = Some r \<longleftrightarrow>
     HasExactFields fs (CommonFields {''botGuid'', ''durationSeconds''}) {''leaseToken''} \<and>
     (\<exists>g r'. GuidField fs ''botGuid'' = Some g \<and> StoreUInt32 r0 fs ''durationSeconds'' False = Some r' \<and>
        number_at r' ''durationSeconds'' \<le> ucast MAX_ACTIVITY_LEASE_SECONDS \<and>
        (if contains fs ''leaseToken''
         then (\<exists>tk. StringField fs ''leaseToken'' = Some tk \<and> IsActivityLeaseToken tk \<and>
           r = r'\<lparr>strings := (strings r')(''leaseToken'' \<mapsto> tk), operation := Op_HoldActivity, botGuid := g\<rparr>)
         else r = r'\<lparr>operation := Op_HoldActivity, botGuid := g\<rparr>))"
  by (auto simp: ParseHoldActivity_def not_less split: option.splits)

lemma HasExactFields_one_optional:
  "HasExactFields fs required {name} \<longleftrightarrow>
     dom (map_of fs) = (if contains fs name then insert name required else required)"
  if "name \<notin> required"
  using that by (auto simp: HasExactFields_dom contains_def)

lemma hold_denotes_token:
  "denotes fs rid token (THoldActivity g d tk) \<Longrightarrow> contains fs ''leaseToken'' \<longleftrightarrow> tk \<noteq> None"
  by (cases tk) (simp_all add: denotes_def contains_def wire_def)

lemma hold_common:
  "insert ''leaseToken'' (CommonFields {''botGuid'', ''durationSeconds''}) =
     CommonFields {''botGuid'', ''durationSeconds'', ''leaseToken''}"
  "''leaseToken'' \<notin> CommonFields {''botGuid'', ''durationSeconds''}"
  by (auto simp: CommonFields_def)

lemma ParseHoldActivity_iff:
  assumes "well_typed fs" "common fs rid token ''hold_activity''"
  shows "request (ParseHoldActivity fs (start rid)) = Some r \<longleftrightarrow>
    (\<exists>g d tk. accepts fs rid token (THoldActivity g d tk) r)"
proof
  assume "request (ParseHoldActivity fs (start rid)) = Some r"
  then obtain g r' where h: "HasExactFields fs (CommonFields {''botGuid'', ''durationSeconds''}) {''leaseToken''}"
    "GuidField fs ''botGuid'' = Some g" "StoreUInt32 (start rid) fs ''durationSeconds'' False = Some r'"
    "number_at r' ''durationSeconds'' \<le> ucast MAX_ACTIVITY_LEASE_SECONDS"
    and t: "if contains fs ''leaseToken''
         then (\<exists>tk. StringField fs ''leaseToken'' = Some tk \<and> IsActivityLeaseToken tk \<and>
           r = r'\<lparr>strings := (strings r')(''leaseToken'' \<mapsto> tk), operation := Op_HoldActivity, botGuid := g\<rparr>)
         else r = r'\<lparr>operation := Op_HoldActivity, botGuid := g\<rparr>"
    unfolding ParseHoldActivity_cases by blast
  from h(2) have g: "g \<noteq> 0" "map_of fs ''botGuid'' = Some (wire_field (WireNumber32 g))"
    by (simp_all add: GuidField_Some [OF assms(1)])
  from h(3) obtain d where d: "map_of fs ''durationSeconds'' = Some (wire_field (WireNumber32 d))" "d \<noteq> 0"
    and r': "r' = (start rid)\<lparr>numbers := [''durationSeconds'' \<mapsto> ucast d]\<rparr>"
    by (auto simp: StoreUInt32_Some [OF assms(1)])
  from h(4) have le: "d \<le> MAX_ACTIVITY_LEASE_SECONDS" by (simp add: r' number_at_def)
  show "\<exists>g d tk. accepts fs rid token (THoldActivity g d tk) r"
  proof (cases "contains fs ''leaseToken''")
    case True
    with t obtain tk where "map_of fs ''leaseToken'' = Some (wire_field (WireString tk))"
      "IsActivityLeaseToken tk" "r = concretize rid (THoldActivity g d (Some tk))"
      by (auto simp: r' StringField_Some [OF assms(1)])
    with h(1) g d le assms(2) True have "accepts fs rid token (THoldActivity g d (Some tk)) r"
      by (simp add: accepts_def denotes_iff word_gt_0 HasExactFields_one_optional [OF hold_common(2)] hold_common(1))
    then show ?thesis by blast
  next
    case False
    with t h(1) g d le assms(2) have "accepts fs rid token (THoldActivity g d None) r"
      by (simp add: r' accepts_def denotes_iff word_gt_0 HasExactFields_one_optional [OF hold_common(2)])
    then show ?thesis by blast
  qed
next
  assume "\<exists>g d tk. accepts fs rid token (THoldActivity g d tk) r"
  then obtain g d tk where a: "accepts fs rid token (THoldActivity g d tk) r" by blast
  then have c: "contains fs ''leaseToken'' \<longleftrightarrow> tk \<noteq> None"
    unfolding accepts_def by (blast dest: hold_denotes_token)
  show "request (ParseHoldActivity fs (start rid)) = Some r"
    unfolding ParseHoldActivity_cases HasExactFields_one_optional [OF hold_common(2)]
    using a c
    by (cases tk)
       (auto simp: GuidField_Some [OF assms(1)] StoreUInt32_Some [OF assms(1)] StringField_Some [OF assms(1)]
        number_at_def accepts_def denotes_iff word_gt_0 hold_common(1))
qed

end
