(* ===== verification/Check_Spec.thy ===== *)
theory Check_Spec
  imports Request_Spec
begin

text \<open>
  \<open>check\<close> requests: for each of the ten conditions, \<open>ParseCheck\<close> accepts exactly the fields of the
  typed condition of that name, and nothing under a name that is not one of the ten.
\<close>

lemma ParseCheck_cases:
  "request (ParseCheck fs r0) = Some r \<longleftrightarrow>
     (\<exists>cond required optional r1 r2.
        StringField fs ''condition'' = Some cond \<and> check_fields cond = Some (required, optional) \<and>
        HasExactFields fs (CommonFields ({''botGuid'', ''condition''} \<union> required)) optional \<and>
        store_uint32s fs (r0\<lparr>condition := cond\<rparr>) (check_uint32s fs cond) = Some r1 \<and>
        store_uint64s fs r1 [''afterSequence'', ''maximumCopper'', ''baselineCopper''] = Some r2 \<and>
        store_strings fs r2 [''actionName'', ''actionResult'', ''economyOutcome''] = Some r \<and>
        (cond = ''action'' \<longrightarrow> string_at r ''actionResult'' \<in> set action_results) \<and>
        (cond = ''economy'' \<longrightarrow> string_at r ''economyOutcome'' \<in> set economy_outcomes))"
  by (auto simp: ParseCheck_def simp del: store_uint32s.simps store_uint64s.simps store_strings.simps
      split: option.splits prod.splits)

lemma store_uint64s_Some:
  assumes "well_typed fs"
  shows "store_uint64s fs r [] = Some r' \<longleftrightarrow> r' = r"
    and "store_uint64s fs r (name # rest) = Some r' \<longleftrightarrow>
      (if contains fs name then
         (\<exists>v. map_of fs name = Some (wire_field (WireNumber v)) \<and>
            store_uint64s fs (r\<lparr>numbers := (numbers r)(name \<mapsto> v)\<rparr>) rest = Some r')
       else store_uint64s fs r rest = Some r')"
proof -
  show "store_uint64s fs r [] = Some r' \<longleftrightarrow> r' = r" by auto
  show "store_uint64s fs r (name # rest) = Some r' \<longleftrightarrow>
      (if contains fs name then
         (\<exists>v. map_of fs name = Some (wire_field (WireNumber v)) \<and>
            store_uint64s fs (r\<lparr>numbers := (numbers r)(name \<mapsto> v)\<rparr>) rest = Some r')
       else store_uint64s fs r rest = Some r')"
  proof (cases "UnsignedField fs name")
    case None
    then show ?thesis using UnsignedField_None [OF assms, of name] by simp
  next
    case (Some v)
    moreover from Some have "map_of fs name = Some (wire_field (WireNumber v))"
      by (simp only: UnsignedField_Some [OF assms])
    ultimately show ?thesis by simp
  qed
qed

lemma store_strings_Some:
  assumes "well_typed fs"
  shows "store_strings fs r [] = Some r' \<longleftrightarrow> r' = r"
    and "store_strings fs r (name # rest) = Some r' \<longleftrightarrow>
      (if contains fs name then
         (\<exists>v. map_of fs name = Some (wire_field (WireString v)) \<and> v \<noteq> [] \<and>
            store_strings fs (r\<lparr>strings := (strings r)(name \<mapsto> v)\<rparr>) rest = Some r')
       else store_strings fs r rest = Some r')"
proof -
  show "store_strings fs r [] = Some r' \<longleftrightarrow> r' = r" by auto
  show "store_strings fs r (name # rest) = Some r' \<longleftrightarrow>
      (if contains fs name then
         (\<exists>v. map_of fs name = Some (wire_field (WireString v)) \<and> v \<noteq> [] \<and>
            store_strings fs (r\<lparr>strings := (strings r)(name \<mapsto> v)\<rparr>) rest = Some r')
       else store_strings fs r rest = Some r')"
  proof (cases "StringField fs name")
    case None
    then show ?thesis using StringField_None [OF assms, of name] by simp
  next
    case (Some v)
    moreover from Some have "map_of fs name = Some (wire_field (WireString v))"
      by (simp only: StringField_Some [OF assms])
    ultimately show ?thesis by simp
  qed
qed

lemma contains_dom: "dom (map_of fs) = names \<Longrightarrow> contains fs name \<longleftrightarrow> name \<in> names"
  by (auto simp: contains_def)

text \<open>The field names of a check request, for the fields of its condition.\<close>

definition check_names :: "string set \<Rightarrow> string set" where
  "check_names required = CommonFields ({''botGuid'', ''condition''} \<union> required)"

lemma check_names_iff:
  "name \<in> check_names required \<longleftrightarrow>
     name \<in> {''schemaVersion'', ''requestId'', ''token'', ''operation'', ''botGuid'', ''condition''} \<or> name \<in> required"
  by (auto simp: check_names_def CommonFields_def)

definition check_ready :: "FlatJsonFields \<Rightarrow> uint64 \<Rightarrow> string \<Rightarrow> uint32 \<Rightarrow> string \<Rightarrow> bool" where
  "check_ready fs rid token g cond \<longleftrightarrow> well_typed fs \<and> common fs rid token ''check'' \<and> g \<noteq> 0 \<and>
     map_of fs ''botGuid'' = Some (wire_field (WireNumber32 g)) \<and>
     map_of fs ''condition'' = Some (wire_field (WireString cond))"

abbreviation check_start :: "uint64 \<Rightarrow> uint32 \<Rightarrow> Request" where
  "check_start rid g \<equiv> (start rid)\<lparr>operation := Op_Check, botGuid := g\<rparr>"

lemma accepts_check:
  assumes "check_ready fs rid token g (condition_name c)"
  shows "accepts fs rid token (TCheck g c) r \<longleftrightarrow>
    dom (map_of fs) = check_names (fst ` set (condition_wire c)) \<and> carries fs (condition_wire c) \<and>
    valid_condition c \<and> r = concretize rid (TCheck g c)"
  using assms by (auto simp: accepts_def denotes_iff check_ready_def check_names_def)

definition check_stores :: "FlatJsonFields \<Rightarrow> Request \<Rightarrow> string \<Rightarrow> Request \<Rightarrow> bool" where
  "check_stores fs r0 cond r \<longleftrightarrow>
     (\<exists>r1 r2. store_uint32s fs (r0\<lparr>condition := cond\<rparr>) (check_uint32s fs cond) = Some r1 \<and>
        store_uint64s fs r1 [''afterSequence'', ''maximumCopper'', ''baselineCopper''] = Some r2 \<and>
        store_strings fs r2 [''actionName'', ''actionResult'', ''economyOutcome''] = Some r \<and>
        (cond = ''action'' \<longrightarrow> string_at r ''actionResult'' \<in> set action_results) \<and>
        (cond = ''economy'' \<longrightarrow> string_at r ''economyOutcome'' \<in> set economy_outcomes))"

lemma check_ready_typed: "check_ready fs rid token g cond \<Longrightarrow> well_typed fs"
  by (simp add: check_ready_def)

lemma check_split:
  assumes ready: "check_ready fs rid token g cond" and "check_fields cond = Some (required, {})"
    and cs: "\<forall>c \<in> cs. condition_name c = cond \<and> fst ` set (condition_wire c) = required"
    and stores: "well_typed fs \<Longrightarrow> contains fs = (\<lambda>name. name \<in> check_names required) \<Longrightarrow>
      check_stores fs (check_start rid g) cond r \<longleftrightarrow>
        (\<exists>c \<in> cs. carries fs (condition_wire c) \<and> valid_condition c \<and> r = concretize rid (TCheck g c))"
  shows "request (ParseCheck fs (check_start rid g)) = Some r \<longleftrightarrow>
    (\<exists>c \<in> cs. accepts fs rid token (TCheck g c) r)"
proof -
  have "StringField fs ''condition'' = Some cond"
    using ready by (simp add: check_ready_def StringField_Some)
  then have "request (ParseCheck fs (check_start rid g)) = Some r \<longleftrightarrow>
      dom (map_of fs) = check_names required \<and> check_stores fs (check_start rid g) cond r"
    using assms(2) unfolding ParseCheck_cases check_names_def check_stores_def
    by (simp add: HasExactFields_exact)
  also have "\<dots> \<longleftrightarrow> (\<exists>c \<in> cs. dom (map_of fs) = check_names required \<and> carries fs (condition_wire c) \<and>
      valid_condition c \<and> r = concretize rid (TCheck g c))"
    using stores check_ready_typed [OF ready] contains_dom by (metis (mono_tags, lifting) ext)
  also have "\<dots> \<longleftrightarrow> (\<exists>c \<in> cs. accepts fs rid token (TCheck g c) r)"
    using cs accepts_check ready by (intro bex_cong refl) metis
  finally show ?thesis .
qed

declare store_uint32s.simps [simp del] store_uint64s.simps [simp del] store_strings.simps [simp del]

lemmas check_simps =
  check_stores_def check_uint32s_def check_names_iff
  store_uint32s_Some store_uint64s_Some store_strings_Some

lemma empty_maps [simp]:
  "strings r = Map.empty \<Longrightarrow> r\<lparr>strings := Map.empty\<rparr> = r"
  "numbers r = Map.empty \<Longrightarrow> r\<lparr>numbers := Map.empty\<rparr> = r"
  by (cases r; simp)+

lemma check_map:
  assumes "check_ready fs rid token g ''map''"
  shows "request (ParseCheck fs (check_start rid g)) = Some r \<longleftrightarrow>
    (\<exists>c \<in> range CMap. accepts fs rid token (TCheck g c) r)"
  by (rule check_split [OF assms, where required = "{''mapId''}"]) (simp_all add: check_fields_def check_simps)

lemma check_transport_detached:
  assumes "check_ready fs rid token g ''transport_detached''"
  shows "request (ParseCheck fs (check_start rid g)) = Some r \<longleftrightarrow>
    (\<exists>c \<in> {CTransportDetached}. accepts fs rid token (TCheck g c) r)"
  by (rule check_split [OF assms, where required = "{}"]) (simp_all add: check_fields_def check_simps)

lemma check_money_at_most:
  assumes "check_ready fs rid token g ''money_at_most''"
  shows "request (ParseCheck fs (check_start rid g)) = Some r \<longleftrightarrow>
    (\<exists>c \<in> range CMoneyAtMost. accepts fs rid token (TCheck g c) r)"
  by (rule check_split [OF assms, where required = "{''maximumCopper''}"]) (simp_all add: check_fields_def check_simps)

lemma check_money_decrease:
  assumes "check_ready fs rid token g ''money_decrease''"
  shows "request (ParseCheck fs (check_start rid g)) = Some r \<longleftrightarrow>
    (\<exists>c \<in> range CMoneyDecrease. accepts fs rid token (TCheck g c) r)"
  by (rule check_split [OF assms, where required = "{''baselineCopper''}"]) (simp_all add: check_fields_def check_simps)

lemma check_known_recipe:
  assumes "check_ready fs rid token g ''known_recipe''"
  shows "request (ParseCheck fs (check_start rid g)) = Some r \<longleftrightarrow>
    (\<exists>c \<in> range CKnownRecipe. accepts fs rid token (TCheck g c) r)"
  by (rule check_split [OF assms, where required = "{''spellId''}"]) (simp_all add: check_fields_def check_simps)


lemma action_results_iff: "x \<in> set action_results \<longleftrightarrow> (\<exists>res. x = action_result_name res)"
proof
  assume "x \<in> set action_results"
  then consider "x = action_result_name AR_Success" | "x = action_result_name AR_Failure"
    | "x = action_result_name AR_Either" by (auto simp: action_results_def)
  then show "\<exists>res. x = action_result_name res" by cases blast+
next
  assume "\<exists>res. x = action_result_name res"
  then obtain res where "x = action_result_name res" by blast
  then show "x \<in> set action_results" by (cases res) (simp_all add: action_results_def)
qed

lemma economy_outcomes_iff:
  "x \<in> set economy_outcomes \<longleftrightarrow> (\<exists>eo. eo \<noteq> EO_Unavailable \<and> x = EconomyOutcomeToken eo)"
proof -
  have "{eo. eo \<noteq> EO_Unavailable} = {EO_Scheduled, EO_Operation, EO_NoCandidate, EO_FailedPrecondition,
      EO_Released, EO_Blocked, EO_Quarantined}"
  proof (rule set_eqI)
    show "eo \<in> {eo. eo \<noteq> EO_Unavailable} \<longleftrightarrow> eo \<in> {EO_Scheduled, EO_Operation, EO_NoCandidate,
        EO_FailedPrecondition, EO_Released, EO_Blocked, EO_Quarantined}" for eo
      by (cases eo) simp_all
  qed
  then have "set economy_outcomes = EconomyOutcomeToken ` {eo. eo \<noteq> EO_Unavailable}"
    by (simp add: economy_outcomes_def)
  then show ?thesis by auto
qed

lemma action_result_name_nonempty [simp]: "action_result_name res \<noteq> []"
  by (cases res) simp_all

lemma EconomyOutcomeToken_nonempty [simp]: "EconomyOutcomeToken eo \<noteq> []"
  by (cases eo) simp_all

lemma ex_step: "(\<exists>y. (\<exists>x. A x \<and> y = f x) \<and> Q y) \<longleftrightarrow> (\<exists>x. A x \<and> Q (f x))"
  by auto

lemma bex_built:
  "(\<exists>c \<in> {c. \<exists>a b. c = F a b}. P c) \<longleftrightarrow> (\<exists>a b. P (F a b))"
  "(\<exists>c \<in> {c. \<exists>a b d. c = G a b d}. P c) \<longleftrightarrow> (\<exists>a b d. P (G a b d))"
  by auto

lemma check_profession_skill:
  assumes "check_ready fs rid token g ''profession_skill''"
  shows "request (ParseCheck fs (check_start rid g)) = Some r \<longleftrightarrow>
    (\<exists>c \<in> {c. \<exists>sk m. c = CProfessionSkill sk m}. accepts fs rid token (TCheck g c) r)"
proof (rule check_split [OF assms, where required = "{''skillId'', ''minimumValue''}"])
  assume "well_typed fs" and "contains fs = (\<lambda>name. name \<in> check_names {''skillId'', ''minimumValue''})"
  then show "check_stores fs (check_start rid g) ''profession_skill'' r \<longleftrightarrow>
      (\<exists>c \<in> {c. \<exists>sk m. c = CProfessionSkill sk m}. carries fs (condition_wire c) \<and> valid_condition c \<and> r = concretize rid (TCheck g c))"
    unfolding bex_built by (auto simp: check_simps)
qed (auto simp: check_fields_def)

lemma check_inventory:
  assumes "check_ready fs rid token g ''inventory''"
  shows "request (ParseCheck fs (check_start rid g)) = Some r \<longleftrightarrow>
    (\<exists>c \<in> {c. \<exists>i m. c = CInventory i m}. accepts fs rid token (TCheck g c) r)"
proof (rule check_split [OF assms, where required = "{''itemId'', ''minimumCount''}"])
  assume "well_typed fs" and "contains fs = (\<lambda>name. name \<in> check_names {''itemId'', ''minimumCount''})"
  then show "check_stores fs (check_start rid g) ''inventory'' r \<longleftrightarrow>
      (\<exists>c \<in> {c. \<exists>i m. c = CInventory i m}. carries fs (condition_wire c) \<and> valid_condition c \<and> r = concretize rid (TCheck g c))"
    unfolding bex_built by (auto simp: check_simps)
qed (auto simp: check_fields_def)

lemma check_storesE:
  assumes "check_stores fs r0 cond r"
  obtains r1 r2 where
    "store_uint32s fs (r0\<lparr>condition := cond\<rparr>) (check_uint32s fs cond) = Some r1"
    "store_uint64s fs r1 [''afterSequence'', ''maximumCopper'', ''baselineCopper''] = Some r2"
    "store_strings fs r2 [''actionName'', ''actionResult'', ''economyOutcome''] = Some r"
    "cond = ''action'' \<Longrightarrow> string_at r ''actionResult'' \<in> set action_results"
    "cond = ''economy'' \<Longrightarrow> string_at r ''economyOutcome'' \<in> set economy_outcomes"
  using assms unfolding check_stores_def by blast

lemma check_economy:
  assumes "check_ready fs rid token g ''economy''"
  shows "request (ParseCheck fs (check_start rid g)) = Some r \<longleftrightarrow>
    (\<exists>c \<in> {c. \<exists>after eo. c = CEconomy after eo}. accepts fs rid token (TCheck g c) r)"
proof (rule check_split [OF assms, where required = "{''afterSequence'', ''economyOutcome''}"])
  assume fs: "well_typed fs" "contains fs = (\<lambda>name. name \<in> check_names {''afterSequence'', ''economyOutcome''})"
  show "check_stores fs (check_start rid g) ''economy'' r \<longleftrightarrow>
      (\<exists>c \<in> {c. \<exists>after eo. c = CEconomy after eo}. carries fs (condition_wire c) \<and> valid_condition c \<and>
         r = concretize rid (TCheck g c))"
    unfolding bex_built
  proof
    assume "check_stores fs (check_start rid g) ''economy'' r"
    then obtain r1 r2 where s: "store_uint32s fs ((check_start rid g)\<lparr>condition := ''economy''\<rparr>) (check_uint32s fs ''economy'') = Some r1"
      "store_uint64s fs r1 [''afterSequence'', ''maximumCopper'', ''baselineCopper''] = Some r2"
      "store_strings fs r2 [''actionName'', ''actionResult'', ''economyOutcome''] = Some r"
      "string_at r ''economyOutcome'' \<in> set economy_outcomes"
      by (rule check_storesE) blast
    have r1: "r1 = (check_start rid g)\<lparr>condition := ''economy''\<rparr>"
      using s(1) by (simp add: check_uint32s_def store_uint32s_Some fs(1))
    obtain after where after: "map_of fs ''afterSequence'' = Some (wire_field (WireNumber after))"
      "r2 = (check_start rid g)\<lparr>condition := ''economy'', numbers := [''afterSequence'' \<mapsto> after]\<rparr>"
      using s(2) unfolding r1 by (auto simp: store_uint64s_Some [OF fs(1)] fs(2) check_names_iff)
    obtain x where x: "map_of fs ''economyOutcome'' = Some (wire_field (WireString x))"
      "r = r2\<lparr>strings := [''economyOutcome'' \<mapsto> x]\<rparr>"
      using s(3) unfolding after(2) by (auto simp: store_strings_Some [OF fs(1)] fs(2) check_names_iff)
    obtain eo where "eo \<noteq> EO_Unavailable" "x = EconomyOutcomeToken eo"
      using s(4) unfolding x(2) by (auto simp: string_at_def economy_outcomes_iff)
    with after x show "\<exists>a b. carries fs (condition_wire (CEconomy a b)) \<and> valid_condition (CEconomy a b) \<and>
        r = concretize rid (TCheck g (CEconomy a b))"
      by (intro exI [of _ after] exI [of _ eo]) simp
  next
    assume "\<exists>a b. carries fs (condition_wire (CEconomy a b)) \<and> valid_condition (CEconomy a b) \<and>
        r = concretize rid (TCheck g (CEconomy a b))"
    with fs show "check_stores fs (check_start rid g) ''economy'' r"
      by (clarsimp simp: check_simps string_at_def economy_outcomes_iff) blast
  qed
qed (auto simp: check_fields_def)

lemma check_action:
  assumes "check_ready fs rid token g ''action''"
  shows "request (ParseCheck fs (check_start rid g)) = Some r \<longleftrightarrow>
    (\<exists>c \<in> {c. \<exists>after n res. c = CAction after n res}. accepts fs rid token (TCheck g c) r)"
proof (rule check_split [OF assms, where required = "{''afterSequence'', ''actionName'', ''actionResult''}"])
  assume fs: "well_typed fs"
    "contains fs = (\<lambda>name. name \<in> check_names {''afterSequence'', ''actionName'', ''actionResult''})"
  show "check_stores fs (check_start rid g) ''action'' r \<longleftrightarrow>
      (\<exists>c \<in> {c. \<exists>after n res. c = CAction after n res}. carries fs (condition_wire c) \<and> valid_condition c \<and>
         r = concretize rid (TCheck g c))"
    unfolding bex_built
  proof
    assume "check_stores fs (check_start rid g) ''action'' r"
    then obtain r1 r2 where s: "store_uint32s fs ((check_start rid g)\<lparr>condition := ''action''\<rparr>) (check_uint32s fs ''action'') = Some r1"
      "store_uint64s fs r1 [''afterSequence'', ''maximumCopper'', ''baselineCopper''] = Some r2"
      "store_strings fs r2 [''actionName'', ''actionResult'', ''economyOutcome''] = Some r"
      "string_at r ''actionResult'' \<in> set action_results"
      by (rule check_storesE) blast
    have r1: "r1 = (check_start rid g)\<lparr>condition := ''action''\<rparr>"
      using s(1) by (simp add: check_uint32s_def store_uint32s_Some fs(1))
    obtain after where after: "map_of fs ''afterSequence'' = Some (wire_field (WireNumber after))"
      "r2 = (check_start rid g)\<lparr>condition := ''action'', numbers := [''afterSequence'' \<mapsto> after]\<rparr>"
      using s(2) unfolding r1 by (auto simp: store_uint64s_Some [OF fs(1)] fs(2) check_names_iff)
    obtain n x where x: "map_of fs ''actionName'' = Some (wire_field (WireString n))" "n \<noteq> []"
      "map_of fs ''actionResult'' = Some (wire_field (WireString x))"
      "r = r2\<lparr>strings := [''actionName'' \<mapsto> n, ''actionResult'' \<mapsto> x]\<rparr>"
      using s(3) unfolding after(2) by (auto simp: store_strings_Some [OF fs(1)] fs(2) check_names_iff)
    obtain res where "x = action_result_name res"
      using s(4) unfolding x(4) by (auto simp: string_at_def action_results_iff)
    with after x show "\<exists>a b d. carries fs (condition_wire (CAction a b d)) \<and> valid_condition (CAction a b d) \<and>
        r = concretize rid (TCheck g (CAction a b d))"
      by (intro exI [of _ after] exI [of _ n] exI [of _ res]) simp
  next
    assume "\<exists>a b d. carries fs (condition_wire (CAction a b d)) \<and> valid_condition (CAction a b d) \<and>
        r = concretize rid (TCheck g (CAction a b d))"
    with fs show "check_stores fs (check_start rid g) ''action'' r"
      by (clarsimp simp: check_simps string_at_def action_results_iff) blast
  qed
qed (auto simp: check_fields_def)

lemma transport_names:
  "check_names {''transportEntry''} \<noteq> check_names {}" "check_names {} \<noteq> check_names {''transportEntry''}"
proof -
  have "''transportEntry'' \<in> check_names {''transportEntry''}" "''transportEntry'' \<notin> check_names {}"
    by (simp_all add: check_names_iff)
  then show "check_names {''transportEntry''} \<noteq> check_names {}" "check_names {} \<noteq> check_names {''transportEntry''}"
    by metis+
qed

lemma check_transport_attached:
  assumes "check_ready fs rid token g ''transport_attached''"
  shows "request (ParseCheck fs (check_start rid g)) = Some r \<longleftrightarrow>
    (\<exists>c \<in> range CTransportAttached. accepts fs rid token (TCheck g c) r)"
proof -
  let ?names = "if contains fs ''transportEntry'' then {''transportEntry''} else {}"
  have wt: "well_typed fs" using assms by (rule check_ready_typed)
  have "StringField fs ''condition'' = Some ''transport_attached''"
    using assms by (simp add: check_ready_def StringField_Some)
  moreover have "HasExactFields fs (CommonFields {''botGuid'', ''condition''}) {''transportEntry''} \<longleftrightarrow>
      dom (map_of fs) = check_names ?names"
  proof -
    have "''transportEntry'' \<notin> CommonFields {''botGuid'', ''condition''}"
      and "insert ''transportEntry'' (CommonFields {''botGuid'', ''condition''}) = check_names {''transportEntry''}"
      by (auto simp: CommonFields_def check_names_def)
    then show ?thesis by (simp add: HasExactFields_one_optional check_names_def insert_commute)
  qed
  ultimately have base: "request (ParseCheck fs (check_start rid g)) = Some r \<longleftrightarrow>
      dom (map_of fs) = check_names ?names \<and> check_stores fs (check_start rid g) ''transport_attached'' r"
    unfolding ParseCheck_cases check_stores_def by (simp add: check_fields_def)
  show ?thesis
  proof (cases "dom (map_of fs) = check_names ?names")
    case True
    show ?thesis
    proof (cases "contains fs ''transportEntry''")
      case entry: True
      with True have d: "dom (map_of fs) = check_names {''transportEntry''}" by simp
      have "accepts fs rid token (TCheck g (CTransportAttached e)) r \<longleftrightarrow>
          (\<exists>v. e = Some v \<and> map_of fs ''transportEntry'' = Some (wire_field (WireNumber32 v)) \<and> v \<noteq> 0 \<and>
            r = concretize rid (TCheck g (CTransportAttached e)))" for e
        using d assms accepts_check [of fs rid token g "CTransportAttached e" r]
        by (cases e) (simp_all add: transport_names)
      then have "(\<exists>c \<in> range CTransportAttached. accepts fs rid token (TCheck g c) r) \<longleftrightarrow>
          (\<exists>v. map_of fs ''transportEntry'' = Some (wire_field (WireNumber32 v)) \<and> v \<noteq> 0 \<and>
            r = concretize rid (TCheck g (CTransportAttached (Some v))))"
        by simp
      moreover have "check_uint32s fs ''transport_attached'' = [(''transportEntry'', False)]"
        using entry by (simp add: check_uint32s_def)
      then have "check_stores fs (check_start rid g) ''transport_attached'' r \<longleftrightarrow>
          (\<exists>v. map_of fs ''transportEntry'' = Some (wire_field (WireNumber32 v)) \<and> v \<noteq> 0 \<and>
            r = concretize rid (TCheck g (CTransportAttached (Some v))))"
        unfolding check_stores_def store_uint32s_Some [OF wt]
        by (simp add: store_uint32s_Some [OF wt] store_uint64s_Some [OF wt] store_strings_Some [OF wt]
            contains_dom [OF d] check_names_iff)
      ultimately show ?thesis
        unfolding base using d entry by simp
    next
      case none: False
      with True have d: "dom (map_of fs) = check_names {}" by simp
      have "accepts fs rid token (TCheck g (CTransportAttached e)) r \<longleftrightarrow>
          e = None \<and> r = concretize rid (TCheck g (CTransportAttached None))" for e
        using d assms accepts_check [of fs rid token g "CTransportAttached e" r]
        by (cases e) (simp_all add: transport_names)
      then show ?thesis
        unfolding base using d none
        by (simp add: check_stores_def check_uint32s_def contains_dom [OF d] check_names_iff store_uint32s_Some [OF wt]
            store_uint64s_Some [OF wt] store_strings_Some [OF wt])
    qed
  next
    case False
    have "\<not> accepts fs rid token (TCheck g (CTransportAttached e)) r" for e
      using False assms accepts_check [of fs rid token g "CTransportAttached e" r]
      by (cases e) (auto simp: contains_dom check_names_iff split: if_splits)
    with False show ?thesis unfolding base by auto
  qed
qed

lemma check_other:
  assumes "check_ready fs rid token g cond" and "check_fields cond = None"
  shows "request (ParseCheck fs r0) = None"
proof -
  have "StringField fs ''condition'' = Some cond"
    using assms(1) by (simp add: check_ready_def StringField_Some)
  with assms(2) show ?thesis by (simp add: ParseCheck_def)
qed

lemma condition_known:
  assumes "check_fields cond \<noteq> None"
  shows "cond \<in> {''transport_attached'', ''transport_detached'', ''map'', ''action'', ''profession_skill'',
    ''inventory'', ''money_at_most'', ''money_decrease'', ''known_recipe'', ''economy''}"
  using assms by (auto simp: check_fields_def split: if_splits)


lemmas check_conditions =
  check_map check_transport_detached check_money_at_most check_money_decrease check_known_recipe
  check_profession_skill check_inventory check_economy check_action check_transport_attached

lemma ParseCheck_iff:
  assumes ready: "check_ready fs rid token g cond"
  shows "request (ParseCheck fs (check_start rid g)) = Some r \<longleftrightarrow>
    (\<exists>c. condition_name c = cond \<and> accepts fs rid token (TCheck g c) r)"
proof
  assume "request (ParseCheck fs (check_start rid g)) = Some r"
  moreover from this have "check_fields cond \<noteq> None"
    using check_other [OF ready, of "check_start rid g"] by (auto simp del: not_None_eq)
  then have "cond \<in> {''transport_attached'', ''transport_detached'', ''map'', ''action'', ''profession_skill'',
    ''inventory'', ''money_at_most'', ''money_decrease'', ''known_recipe'', ''economy''}"
    by (rule condition_known)
  ultimately show "\<exists>c. condition_name c = cond \<and> accepts fs rid token (TCheck g c) r"
    using ready by (elim insertE emptyE) (auto simp: check_conditions, (metis condition_name.simps)+)
next
  assume "\<exists>c. condition_name c = cond \<and> accepts fs rid token (TCheck g c) r"
  then obtain c where "condition_name c = cond" "accepts fs rid token (TCheck g c) r" by blast
  then show "request (ParseCheck fs (check_start rid g)) = Some r"
    using ready by (cases c) (auto simp: check_conditions)
qed


lemma ParseCheckRequest_iff:
  assumes "well_typed fs" "common fs rid token ''check''"
  shows "request (ParseCheckRequest fs (start rid)) = Some r \<longleftrightarrow>
    (\<exists>g c. accepts fs rid token (TCheck g c) r)"
proof
  assume a: "request (ParseCheckRequest fs (start rid)) = Some r"
  then obtain g where g: "GuidField fs ''botGuid'' = Some g"
    and p: "request (ParseCheck fs (check_start rid g)) = Some r"
    by (auto simp: ParseCheckRequest_def split: option.splits)
  from p obtain cond where "StringField fs ''condition'' = Some cond"
    unfolding ParseCheck_cases by blast
  with g assms have "check_ready fs rid token g cond"
    by (simp add: check_ready_def StringField_Some GuidField_Some)
  with p show "\<exists>g c. accepts fs rid token (TCheck g c) r" by (auto simp: ParseCheck_iff)
next
  assume "\<exists>g c. accepts fs rid token (TCheck g c) r"
  then obtain g c where a: "accepts fs rid token (TCheck g c) r" by blast
  then have ready: "check_ready fs rid token g (condition_name c)"
    using assms by (simp add: accepts_def denotes_iff check_ready_def)
  with a have "request (ParseCheck fs (check_start rid g)) = Some r" by (auto simp: ParseCheck_iff)
  moreover have "GuidField fs ''botGuid'' = Some g"
    using ready by (simp add: check_ready_def GuidField_Some)
  ultimately show "request (ParseCheckRequest fs (start rid)) = Some r"
    by (simp add: ParseCheckRequest_def)
qed

end
