(* ===== verification/Request_Contract.thy ===== *)
theory Request_Contract
  imports Check_Spec
begin

text \<open>
  What \<open>ParseRequestPayload\<close> promises: it accepts exactly the valid typed requests, authentication
  comes before every other check, every answer but the authentication error carries id 0, and a
  console command is refused exactly when its first word is one of the four families.
\<close>

section \<open>The whole payload\<close>

lemmas operation_iffs =
  ParseStatus_iff ParseList_iff ParseInspect_iff ParseAnomalies_iff ParseCommand_iff ParseRecover_iff
  ParseSetSkill_iff ParseTeleportToGameObject_iff ParseHoldActivity_iff ParseInspectActivityLease_iff
  ParseReleaseActivity_iff ParseGmCommand_iff ParseReloadConfig_iff ParseCheckRequest_iff

lemma common_name: "common fs rid token n \<Longrightarrow> common fs rid' token' n' \<Longrightarrow> rid = rid' \<and> token = token' \<and> n = n'"
  by (simp add: common_def)

lemma ParseOperation_iff:
  assumes fs: "well_typed fs" "common fs rid token name"
  shows "request (ParseOperation name fs (start rid)) = Some r \<longleftrightarrow> (\<exists>t. accepts fs rid token t r)"
proof
  assume "request (ParseOperation name fs (start rid)) = Some r"
  then show "\<exists>t. accepts fs rid token t r"
    using fs unfolding ParseOperation_def
    by (simp split: if_splits add: operation_iffs) blast+
next
  assume "\<exists>t. accepts fs rid token t r"
  then obtain t where t: "accepts fs rid token t r" by blast
  then have "name = operation_name t"
    using common_name [OF fs(2)] by (auto simp: accepts_def denotes_iff)
  with t fs show "request (ParseOperation name fs (start rid)) = Some r"
    by (cases t) (simp_all add: ParseOperation_def operation_iffs, blast+)
qed


lemma flat_object_typed: "flat_object fs s \<Longrightarrow> well_typed fs"
  by (auto simp: well_typed_def dest: flat_object_kind)

lemma ParseRequestPayload_flat:
  assumes "flat_object fs s" and "distinct (map fst fs)"
  shows "request (ParseRequestPayload sha256 s digest) = Some r \<longleftrightarrow>
    (\<exists>rid token t. ConstantTimeTokenDigestEquals (sha256 token) digest \<and> accepts fs rid token t r)"
proof -
  have wt: "well_typed fs" using assms(1) by (rule flat_object_typed)
  have parse: "Parse None s = Some (fs, None)"
    using assms by (simp add: Parse_complete [of fs s] keep_fields_strict)
  have "request (ParseRequestPayload sha256 s digest) = Some r \<longleftrightarrow>
      (\<exists>rid token name. UnsignedField fs ''schemaVersion'' = Some 2 \<and> UnsignedField fs ''requestId'' = Some rid \<and>
         StringField fs ''token'' = Some token \<and> StringField fs ''operation'' = Some name \<and>
         ConstantTimeTokenDigestEquals (sha256 token) digest \<and>
         request (ParseOperation name fs (start rid)) = Some r)"
    by (cases "UnsignedField fs ''schemaVersion''"; cases "UnsignedField fs ''requestId''";
        cases "StringField fs ''token''"; cases "StringField fs ''operation''")
       (simp_all add: ParseRequestPayload_def parse DigestVerificationToken_def SCHEMA_VERSION_def Let_def)
  also have "\<dots> \<longleftrightarrow> (\<exists>rid token name. common fs rid token name \<and> ConstantTimeTokenDigestEquals (sha256 token) digest \<and>
      request (ParseOperation name fs (start rid)) = Some r)"
    by (simp only: common_def UnsignedField_Some [OF wt] StringField_Some [OF wt] conj_assoc)
  also have "\<dots> \<longleftrightarrow> (\<exists>rid token t. ConstantTimeTokenDigestEquals (sha256 token) digest \<and> accepts fs rid token t r)"
    using ParseOperation_iff [OF wt] by (auto simp: accepts_def denotes_iff; blast)
  finally show ?thesis .
qed

lemma accepted_payload_iff:
  "request (ParseRequestPayload sha256 s digest) = Some r \<longleftrightarrow>
    (\<exists>fs rid token t. flat_object fs s \<and> distinct (map fst fs) \<and>
       ConstantTimeTokenDigestEquals (sha256 token) digest \<and>
       map_of fs = map_of (wire_fields (wire rid token t)) \<and> valid_request t \<and> r = concretize rid t)"
proof
  assume r: "request (ParseRequestPayload sha256 s digest) = Some r"
  then obtain fs dups where "Parse None s = Some (fs, dups)"
    by (auto simp: ParseRequestPayload_def split: option.splits)
  then obtain kvs where "flat_object kvs s" "keep_fields [] None kvs = Some (fs, dups)"
    by (rule Parse_sound)
  then have "flat_object fs s" "distinct (map fst fs)"
    by (auto simp: keep_fields_strict split: if_splits)
  with r show "\<exists>fs rid token t. flat_object fs s \<and> distinct (map fst fs) \<and>
       ConstantTimeTokenDigestEquals (sha256 token) digest \<and>
       map_of fs = map_of (wire_fields (wire rid token t)) \<and> valid_request t \<and> r = concretize rid t"
    by (auto simp: ParseRequestPayload_flat accepts_def denotes_def)
next
  assume "\<exists>fs rid token t. flat_object fs s \<and> distinct (map fst fs) \<and>
       ConstantTimeTokenDigestEquals (sha256 token) digest \<and>
       map_of fs = map_of (wire_fields (wire rid token t)) \<and> valid_request t \<and> r = concretize rid t"
  then show "request (ParseRequestPayload sha256 s digest) = Some r"
    by (auto simp: ParseRequestPayload_flat accepts_def denotes_def) blast
qed

lemma ParseRequestPayload_typed:
  "request (ParseRequestPayload sha256 s digest) = Some r \<Longrightarrow> \<exists>rid t. valid_request t \<and> r = concretize rid t"
  using accepted_payload_iff by blast

text \<open>
  C1: the request parser accepts exactly the intended requests. A payload is accepted as the request
  \<open>r\<close> if and only if it is a flat JSON object with distinct keys whose fields, in any order, are
  those a client writes for some valid typed request under a token with the expected digest, and \<open>r\<close>
  is that request. Nothing else is accepted: no missing, extra, mistyped or out of range field.
\<close>

theorem parse_request_iff:
  "request (ParseRequestPayload sha256 s digest) = Some r \<longleftrightarrow>
    (\<exists>fs rid token t. flat_object fs s \<and> distinct (map fst fs) \<and>
       ConstantTimeTokenDigestEquals (sha256 token) digest \<and>
       map_of fs = map_of (wire_fields (wire rid token t)) \<and> valid_request t \<and> r = concretize rid t)"
  by (rule accepted_payload_iff)


section \<open>The shape of every answer\<close>

text \<open>An accepted request comes without error and with response id 0; a rejected one has no request.\<close>

definition plain_answer :: "RequestParseResult \<Rightarrow> bool" where
  "plain_answer a \<longleftrightarrow> responseRequestId a = 0 \<and> error_code (parse_error a) \<noteq> EC_AuthenticationFailed \<and>
     (\<forall>r. request a = Some r \<longrightarrow> a = accept r)"

lemma plain_accept [simp]: "plain_answer (accept r)"
  by (simp add: plain_answer_def accept_def ProtocolError.defs)

lemma plain_reject [simp]: "plain_answer (reject c) \<longleftrightarrow> c \<noteq> EC_AuthenticationFailed"
  by (simp add: plain_answer_def)

lemma plain_anomaly_limit [simp]:
  "plain_answer ((reject EC_InvalidLimit)\<lparr>parse_error := ProtocolError.make EC_InvalidLimit m\<rparr>)"
  by (simp add: plain_answer_def ProtocolError.defs)

lemma plain_ParseCheck [simp]: "plain_answer (ParseCheck fs r)"
  by (simp add: ParseCheck_def split: option.split prod.split)

lemma plain_operations [simp]:
  "plain_answer (ParseStatus fs r)" "plain_answer (ParseList fs r)" "plain_answer (ParseInspect fs r)"
  "plain_answer (ParseAnomalies fs r)" "plain_answer (ParseCommand fs r)" "plain_answer (ParseRecover fs r)"
  "plain_answer (ParseSetSkill fs r)" "plain_answer (ParseTeleportToGameObject fs r)"
  "plain_answer (ParseHoldActivity fs r)" "plain_answer (ParseInspectActivityLease fs r)"
  "plain_answer (ParseReleaseActivity fs r)" "plain_answer (ParseGmCommand fs r)"
  "plain_answer (ParseReloadConfig fs r)" "plain_answer (ParseCheckRequest fs r)"
  by (simp_all add: parse_operation_defs Let_def split: option.split)

lemma plain_ParseOperation [simp]: "plain_answer (ParseOperation name fs r)"
  by (simp add: ParseOperation_def)

definition authenticates :: "(string \<Rightarrow> TokenDigest) \<Rightarrow> TokenDigest \<Rightarrow> FlatJsonFields \<Rightarrow> bool" where
  "authenticates sha256 digest fs \<longleftrightarrow>
     (\<exists>token. StringField fs ''token'' = Some token \<and> ConstantTimeTokenDigestEquals (sha256 token) digest)"

lemma ParseRequestPayload_authenticated:
  assumes "Parse None s = Some (fs, dups)" and "authenticates sha256 digest fs"
  shows "plain_answer (ParseRequestPayload sha256 s digest)"
  using assms
  by (auto simp: ParseRequestPayload_def authenticates_def DigestVerificationToken_def Let_def split: option.split)

lemma ParseRequestPayload_unauthenticated:
  assumes "Parse None s = Some (fs, dups)" and "\<not> authenticates sha256 digest fs"
  shows "ParseRequestPayload sha256 s digest =
    \<lparr>request = None, responseRequestId = (case UnsignedField fs ''requestId'' of None \<Rightarrow> 0 | Some i \<Rightarrow> i),
     parse_error = MakeError EC_AuthenticationFailed\<rparr>"
  using assms
  by (auto simp: ParseRequestPayload_def authenticates_def DigestVerificationToken_def Let_def split: option.split)

lemma ParseRequestPayload_malformed:
  "Parse None s = None \<Longrightarrow> ParseRequestPayload sha256 s digest = reject EC_MalformedRequest"
  by (simp add: ParseRequestPayload_def)

text \<open>
  C9: authentication comes first. A payload gets the authentication error if and only if it is a flat
  object with distinct keys that carries no token with the expected digest, whatever its other fields
  are: the schema version, the operation and its arguments are not looked at before the token. So an
  unauthenticated caller learns nothing but whether its payload is such an object.
\<close>

theorem authentication_first:
  "error_code (parse_error (ParseRequestPayload sha256 s digest)) = EC_AuthenticationFailed \<longleftrightarrow>
    (\<exists>fs. flat_object fs s \<and> distinct (map fst fs) \<and>
       \<not> (\<exists>token. StringField fs ''token'' = Some token \<and> ConstantTimeTokenDigestEquals (sha256 token) digest))"
  (is "?l \<longleftrightarrow> ?r")
proof
  assume l: ?l
  then obtain fs dups where p: "Parse None s = Some (fs, dups)"
    by (cases "Parse None s") (auto simp: ParseRequestPayload_malformed ProtocolError.defs)
  with l have "\<not> authenticates sha256 digest fs"
    using ParseRequestPayload_authenticated [OF p] by (auto simp: plain_answer_def)
  moreover obtain kvs where "flat_object kvs s" "keep_fields [] None kvs = Some (fs, dups)"
    using p by (rule Parse_sound)
  then have "flat_object fs s" "distinct (map fst fs)"
    by (auto simp: keep_fields_strict split: if_splits)
  ultimately show ?r unfolding authenticates_def by blast
next
  assume ?r
  then obtain fs where fs: "flat_object fs s" "distinct (map fst fs)" "\<not> authenticates sha256 digest fs"
    unfolding authenticates_def by blast
  then have "Parse None s = Some (fs, None)" by (simp add: Parse_complete [of fs s] keep_fields_strict)
  with fs(3) show ?l by (simp add: ParseRequestPayload_unauthenticated ProtocolError.defs)
qed

text \<open>
  C39: the id a rejected request is answered under. Only the authentication error echoes the id the
  client sent; every other error is answered under id 0, also when the payload carries a valid id.
\<close>

theorem response_id_of_error:
  "responseRequestId (ParseRequestPayload sha256 s digest) =
    (if error_code (parse_error (ParseRequestPayload sha256 s digest)) = EC_AuthenticationFailed
     then (case Parse None s of
             None \<Rightarrow> 0
           | Some (fs, _) \<Rightarrow> (case UnsignedField fs ''requestId'' of None \<Rightarrow> 0 | Some i \<Rightarrow> i))
     else 0)"
proof (cases "Parse None s")
  case None
  then show ?thesis by (simp add: ParseRequestPayload_malformed)
next
  case (Some res)
  then obtain fs dups where p: "Parse None s = Some (fs, dups)" by (cases res) auto
  show ?thesis
  proof (cases "authenticates sha256 digest fs")
    case True
    from ParseRequestPayload_authenticated [OF p True] show ?thesis by (simp add: plain_answer_def)
  next
    case False
    with p show ?thesis by (simp add: ParseRequestPayload_unauthenticated ProtocolError.defs)
  qed
qed

lemma rendered_request_accepted:
  assumes "valid_request t" and "ConstantTimeTokenDigestEquals (sha256 token) digest"
  shows "ParseRequestPayload sha256 (render_object (wire rid token t)) digest = accept (concretize rid t)"
proof -
  let ?fs = "wire_fields (wire rid token t)" and ?s = "render_object (wire rid token t)"
  have d: "distinct (map fst ?fs)" using wire_distinct by simp
  have p: "Parse None ?s = Some (?fs, None)" using wire_distinct by (rule Parse_render)
  have "accepts ?fs rid token t (concretize rid t)"
    using assms(1) by (simp add: accepts_def denotes_def)
  then have "request (ParseRequestPayload sha256 ?s digest) = Some (concretize rid t)"
    using ParseRequestPayload_flat [OF flat_object_render d] assms(2) by blast
  moreover have "authenticates sha256 digest ?fs"
    using assms(2) by (simp add: authenticates_def StringField_def map_of_wire_fields wire_def)
  ultimately show ?thesis
    using ParseRequestPayload_authenticated [OF p] by (simp add: plain_answer_def)
qed

text \<open>
  C11: what a client writes for a valid typed request is accepted as that request, when its token has
  the expected digest.
\<close>

theorem parse_rendered_request:
  assumes "valid_request t" and "ConstantTimeTokenDigestEquals (sha256 token) digest"
  shows "ParseRequestPayload sha256 (render_object (wire rid token t)) digest = accept (concretize rid t)"
  using assms by (rule rendered_request_accepted)

theorem parse_rendered_request_witness:
  "ParseRequestPayload (\<lambda>token. map byte_of_char (take 2 token))
     (render_object (wire 7 ''secret'' (TSetSkill 12 186 75 150)))
     [byte_of_char (CHR ''s''), byte_of_char (CHR ''e'')] = accept (concretize 7 (TSetSkill 12 186 75 150))"
proof -
  have "valid_request (TSetSkill 12 186 75 150)" by (simp add: protocol_limits)
  moreover have "ConstantTimeTokenDigestEquals (map byte_of_char (take 2 ''secret''))
      [byte_of_char (CHR ''s''), byte_of_char (CHR ''e'')]"
    by (subst digest_equals_iff) simp_all
  ultimately show ?thesis
    using parse_rendered_request [of "TSetSkill 12 186 75 150" "\<lambda>token. map byte_of_char (take 2 token)" "''secret''"
        "[byte_of_char (CHR ''s''), byte_of_char (CHR ''e'')]" 7]
    by blast
qed

text \<open>A digest for the witnesses, under which the token \<open>secret\<close> authenticates.\<close>

definition sample_digest :: "string \<Rightarrow> uint8 list" where
  "sample_digest token = map byte_of_char (take 2 token)"

definition sample_token :: "uint8 list" where
  "sample_token = [byte_of_char (CHR ''s''), byte_of_char (CHR ''e'')]"

lemma sample_authentic: "ConstantTimeTokenDigestEquals (sample_digest ''secret'') sample_token"
  unfolding sample_digest_def sample_token_def by (subst digest_equals_iff) simp_all

section \<open>Refused console commands\<close>

lemma tolower_lead: "command_lead c \<Longrightarrow> tolower_char c = c"
  by (auto simp: command_lead_def tolower_char_def ord_def)

lemma tolower_gap: "command_gap c \<Longrightarrow> tolower_char c = c"
  by (auto simp: command_gap_def tolower_char_def ord_def)

lemma refused_word_clean:
  assumes "map tolower_char word \<in> set refused_words"
  shows "word \<noteq> []" and "\<not> command_lead (hd word)" and "list_all (\<lambda>c. \<not> command_gap c) word"
proof -
  let ?w = "map tolower_char word"
  have "list_all (\<lambda>w. w \<noteq> [] \<and> \<not> command_lead (hd w) \<and> list_all (\<lambda>c. \<not> command_gap c) w) refused_words"
    by (simp add: refused_words_def command_lead_def command_gap_def)
  with assms have w: "?w \<noteq> []" "\<not> command_lead (hd ?w)" "list_all (\<lambda>c. \<not> command_gap c) ?w"
    unfolding list_all_iff by blast+
  then show "word \<noteq> []" by simp
  with w(2) show "\<not> command_lead (hd word)" by (metis hd_map tolower_lead)
  show "list_all (\<lambda>c. \<not> command_gap c) word"
    using w(3) by (auto simp: list_all_iff) (metis tolower_gap)
qed

lemma refused_entry: "list_all2 (\<lambda>l r. tolower_char l = r) word entry \<longleftrightarrow> map tolower_char word = entry"
  by (induction word arbitrary: entry) (auto simp: list_all2_Cons1)

lemma IsRefusedGmCommand_words:
  "IsRefusedGmCommand cmd \<longleftrightarrow>
    (let rest = dropWhile command_lead cmd in
     rest = [] \<or> map tolower_char (takeWhile (\<lambda>c. \<not> command_gap c) rest) \<in> set refused_words)"
  by (auto simp: IsRefusedGmCommand_def Let_def list_ex_iff refused_entry dest: arg_cong [of _ _ length])

text \<open>
  C37: which console commands are refused: those with nothing but blanks, tabs and dots, and those whose
  first word, after such characters and up to a blank or tab, is server, account, quit or exit in any
  letter case.
\<close>

theorem refused_command_iff:
  "IsRefusedGmCommand cmd \<longleftrightarrow>
    list_all command_lead cmd \<or>
    (\<exists>lead word rest. cmd = lead @ word @ rest \<and> list_all command_lead lead \<and>
       map tolower_char word \<in> {''server'', ''account'', ''quit'', ''exit''} \<and>
       (rest = [] \<or> command_gap (hd rest)))"
  (is "_ \<longleftrightarrow> _ \<or> ?named")
proof -
  have words: "{''server'', ''account'', ''quit'', ''exit''} = set refused_words"
    by (simp add: refused_words_def)
  let ?rest = "dropWhile command_lead cmd"
  have "map tolower_char (takeWhile (\<lambda>c. \<not> command_gap c) ?rest) \<in> set refused_words \<longleftrightarrow> ?named"
  proof
    assume "map tolower_char (takeWhile (\<lambda>c. \<not> command_gap c) ?rest) \<in> set refused_words"
    moreover have "cmd = takeWhile command_lead cmd @ takeWhile (\<lambda>c. \<not> command_gap c) ?rest @
        dropWhile (\<lambda>c. \<not> command_gap c) ?rest" by simp
    moreover have "list_all command_lead (takeWhile command_lead cmd)"
      by (auto simp: list_all_iff dest: set_takeWhileD)
    moreover have "dropWhile (\<lambda>c. \<not> command_gap c) ?rest = [] \<or>
        command_gap (hd (dropWhile (\<lambda>c. \<not> command_gap c) ?rest))"
      using hd_dropWhile [of "\<lambda>c. \<not> command_gap c" ?rest] by blast
    ultimately show ?named unfolding words by blast
  next
    assume ?named
    then obtain lead word rest where c: "cmd = lead @ word @ rest" "list_all command_lead lead"
      "map tolower_char word \<in> set refused_words" "rest = [] \<or> command_gap (hd rest)"
      unfolding words by blast
    note clean = refused_word_clean [OF c(3)]
    have "?rest = word @ rest"
      unfolding c(1) by (rule takeWhile_digits_append(2) [OF c(2)]) (use clean in simp)
    moreover have "takeWhile (\<lambda>c. \<not> command_gap c) (word @ rest) = word"
      by (rule takeWhile_digits_append(1) [OF clean(3)]) (use c(4) in simp)
    ultimately show "map tolower_char (takeWhile (\<lambda>c. \<not> command_gap c) ?rest) \<in> set refused_words"
      using c(3) by simp
  qed
  moreover have "?rest = [] \<longleftrightarrow> list_all command_lead cmd"
    by (auto simp: dropWhile_eq_Nil_conv list_all_iff)
  ultimately show ?thesis unfolding IsRefusedGmCommand_words Let_def by (simp only:)
qed

end
