(* ===== verification/Pagination.thy ===== *)
theory Pagination
  imports Protocol_Types
begin

text \<open>
  \<open>PaginateGuids\<close>: the page of the \<open>list\<close> operation. Its contract is the locale \<open>pager\<close>, in which a
  client that follows \<open>nextAfterGuid\<close> while \<open>hasMore\<close> is proved to visit every key above its start
  once, in order.
\<close>

section \<open>One page\<close>

record GuidPage =
  page_guids :: "uint32 list"
  nextAfterGuid :: uint32
  hasMore :: bool

definition upper_part :: "uint32 \<Rightarrow> uint32 list \<Rightarrow> uint32 list" where
  "upper_part after guids = dropWhile (\<lambda>g. \<not> after < g) guids"

definition PaginateGuids :: "uint32 list \<Rightarrow> uint32 \<Rightarrow> uint32 \<Rightarrow> GuidPage option" where
  "PaginateGuids guids after lim =
     (if lim = 0 \<or> lim > MAX_LIST_LIMIT then None
      else
        (let sorted_guids = remdups_adj (sort guids);
             rest = upper_part after sorted_guids;
             available = length rest;
             returned = min available (unat lim);
             ks = take returned rest
         in Some \<lparr>page_guids = ks, nextAfterGuid = (if ks = [] then after else last ks),
                  hasMore = returned < available\<rparr>))"

abbreviation strict_sorted :: "'a :: order list \<Rightarrow> bool" where
  "strict_sorted \<equiv> sorted_wrt (<)"

lemma upper_part_sorted:
  "sorted xs \<Longrightarrow> upper_part a xs = filter (\<lambda>g. a < g) xs"
  unfolding upper_part_def
proof (induction xs)
  case (Cons x xs)
  then show ?case
    by (cases "a < x") (auto intro!: filter_True [symmetric] intro: less_le_trans)
qed simp

lemma sorted_set_unique:
  "strict_sorted (xs :: 'a :: linorder list) \<Longrightarrow> set xs = A \<Longrightarrow> sorted_list_of_set A = xs"
  by (auto simp: strict_sorted_iff sorted_list_of_set.idem_if_sorted_distinct)

lemma strict_sorted_unique:
  assumes "sorted xs"
  shows "strict_sorted (remdups_adj xs)"
  using assms
proof (induction xs rule: remdups_adj.induct)
  case (3 x y xs)
  then show ?case by (cases "x = y") (auto simp: less_le intro: order_trans)
qed simp_all

lemma upper_part_guids:
  "upper_part a (remdups_adj (sort guids)) = sorted_list_of_set {g \<in> set guids. a < g}"
proof -
  let ?u = "remdups_adj (sort guids)"
  have u: "strict_sorted ?u" by (rule strict_sorted_unique) simp
  then have "sorted ?u" by (simp add: strict_sorted_iff)
  then have eq: "upper_part a ?u = filter (\<lambda>g. a < g) ?u" by (rule upper_part_sorted)
  have "strict_sorted (filter (\<lambda>g. a < g) ?u)" using u by (rule sorted_wrt_filter)
  moreover have "set (filter (\<lambda>g. a < g) ?u) = {g \<in> set guids. a < g}" by auto
  ultimately show ?thesis
    unfolding eq by (rule sorted_set_unique [symmetric])
qed

lemma page_values:
  "PaginateGuids guids after lim =
    (let rest = sorted_list_of_set {g \<in> set guids. after < g}; ks = take (unat lim) rest in
     if lim = 0 \<or> 100 < lim then None
     else Some \<lparr>page_guids = ks, nextAfterGuid = last (after # ks), hasMore = unat lim < length rest\<rparr>)"
  unfolding PaginateGuids_def upper_part_guids Let_def MAX_LIST_LIMIT_def
  by (auto simp: min_def take_all_iff)

text \<open>
  C31: the page of a valid limit holds the first \<open>limit\<close> known GUIDs above \<open>afterGuid\<close>, in increasing
  order and without repetition; the cursor is its last GUID (the old cursor on an empty page), and
  \<open>hasMore\<close> says whether GUIDs above it remain. A limit of 0 or above 100 gives no page.
\<close>

theorem paginate_guids_spec:
  "PaginateGuids guids after lim =
    (let rest = sorted_list_of_set {g \<in> set guids. after < g}; ks = take (unat lim) rest in
     if lim = 0 \<or> 100 < lim then None
     else Some \<lparr>page_guids = ks, nextAfterGuid = last (after # ks), hasMore = unat lim < length rest\<rparr>)"
  by (rule page_values)

section \<open>The contract of a pager\<close>

text \<open>A client's walk over the pages: it follows the cursor while the answer says there is more.\<close>

fun walk_pages :: "nat \<Rightarrow> ('k \<Rightarrow> ('k list \<times> 'k \<times> bool) option) \<Rightarrow> 'k \<Rightarrow> 'k list option" where
  "walk_pages 0 page a = None"
| "walk_pages (Suc n) page a =
     (case page a of
        None \<Rightarrow> None
      | Some (ks, next_key, again) \<Rightarrow>
          if again then map_option ((@) ks) (walk_pages n page next_key) else Some ks)"

locale pager =
  fixes page :: "'q \<Rightarrow> 'k :: linorder \<Rightarrow> ('k list \<times> 'k \<times> bool) option"
    and valid :: "'q \<Rightarrow> bool"
    and keys :: "'q \<Rightarrow> 'k set"
  assumes finite_keys: "finite (keys q)"
    and served: "valid q \<Longrightarrow> \<exists>ks next_key again. page q a = Some (ks, next_key, again)"
    and sorted_page: "page q a = Some (ks, next_key, again) \<Longrightarrow> strict_sorted ks"
    and page_keys: "page q a = Some (ks, next_key, again) \<Longrightarrow> set ks = {k \<in> keys q. a < k \<and> k \<le> next_key}"
    and cursor_moves: "page q a = Some (ks, next_key, again) \<Longrightarrow> again \<Longrightarrow> next_key \<in> set ks"
    and last_page: "page q a = Some (ks, next_key, again) \<Longrightarrow> \<not> again \<Longrightarrow> \<not> (\<exists>k \<in> keys q. next_key < k)"
begin

definition above :: "'q \<Rightarrow> 'k \<Rightarrow> 'k set" where
  "above q a = {k \<in> keys q. a < k}"

lemma finite_above [simp]: "finite (above q a)"
  using finite_keys by (simp add: above_def)

lemma above_split:
  assumes "page q a = Some (ks, next_key, again)" and "again"
  shows "sorted_list_of_set (above q a) = ks @ sorted_list_of_set (above q next_key)"
    and "card (above q next_key) < card (above q a)"
proof -
  have n: "next_key \<in> set ks" using assms by (rule cursor_moves)
  have ks: "set ks = {k \<in> keys q. a < k \<and> k \<le> next_key}" using assms(1) by (rule page_keys)
  from n have an: "a < next_key" "next_key \<in> keys q" unfolding ks by simp_all
  have "x < y" if "x \<in> set ks" "y \<in> above q next_key" for x y
    using that unfolding ks above_def by (auto intro: le_less_trans)
  then have "strict_sorted (ks @ sorted_list_of_set (above q next_key))"
    using sorted_page [OF assms(1)] by (simp add: sorted_wrt_append)
  moreover have "set (ks @ sorted_list_of_set (above q next_key)) = above q a"
    unfolding set_append ks set_sorted_list_of_set [OF finite_above] using an by (auto simp: above_def not_le)
  ultimately show "sorted_list_of_set (above q a) = ks @ sorted_list_of_set (above q next_key)"
    by (rule sorted_set_unique)
  have "above q next_key \<subseteq> above q a" "next_key \<in> above q a" "next_key \<notin> above q next_key"
    using an order.strict_trans [OF an(1)] unfolding above_def by auto
  then show "card (above q next_key) < card (above q a)"
    by (intro psubset_card_mono) auto
qed

lemma above_last:
  assumes "page q a = Some (ks, next_key, again)" and "\<not> again"
  shows "sorted_list_of_set (above q a) = ks"
proof -
  have "set ks = above q a"
    using page_keys [OF assms(1)] last_page [OF assms] by (auto simp: above_def not_less)
  with sorted_page [OF assms(1)] show ?thesis by (rule sorted_set_unique)
qed

lemma walk_complete:
  "valid q \<Longrightarrow> card (above q a) < fuel \<Longrightarrow>
     walk_pages fuel (page q) a = Some (sorted_list_of_set (above q a))"
proof (induction fuel arbitrary: a)
  case (Suc fuel)
  obtain ks n again where p: "page q a = Some (ks, n, again)" using served [OF Suc.prems(1)] by blast
  show ?case
  proof (cases again)
    case True
    with Suc p above_split [OF p] show ?thesis by simp
  next
    case False
    with p above_last [OF p] show ?thesis by simp
  qed
qed simp

end

text \<open>A page as the client sees it: GUIDs, cursor and flag.\<close>

definition guid_page :: "uint32 list \<times> uint32 \<Rightarrow> uint32 \<Rightarrow> (uint32 list \<times> uint32 \<times> bool) option" where
  "guid_page q after =
     map_option (\<lambda>p. (page_guids p, nextAfterGuid p, hasMore p)) (PaginateGuids (fst q) after (snd q))"

lemma sorted_prefix_keys:
  assumes "strict_sorted (xs :: 'a :: linorder list)" and "ks = take n xs" and "ks \<noteq> []"
  shows "set ks = {x \<in> set xs. x \<le> last ks}"
proof -
  have xs: "xs = ks @ drop n xs" using assms(2) by simp
  with assms(1) have s: "strict_sorted ks" "\<forall>x \<in> set ks. \<forall>y \<in> set (drop n xs). x < y"
    by (metis sorted_wrt_append)+
  have "\<forall>x \<in> set ks. x \<le> last ks"
  proof
    fix x assume "x \<in> set ks"
    moreover have "ks = butlast ks @ [last ks]" using assms(3) by simp
    ultimately show "x \<le> last ks"
      using s(1) by (metis Un_iff empty_iff insert_iff less_imp_le order_refl list.set(1,2) set_append
          sorted_wrt_append)
  qed
  moreover have "last ks \<in> set ks" using assms(3) by simp
  ultimately show ?thesis
    using s(2) by (subst xs) (auto dest: leD)
qed

lemma guid_page_cases:
  assumes "guid_page (gs, lim) after = Some (ks, next_key, again)"
  shows "0 < lim" and "ks = take (unat lim) (sorted_list_of_set {g \<in> set gs. after < g})"
    and "next_key = last (after # ks)"
    and "again \<longleftrightarrow> unat lim < length (sorted_list_of_set {g \<in> set gs. after < g})"
  using assms
  by (auto simp: guid_page_def PaginateGuids_def upper_part_guids Let_def min_def word_gt_0 take_all_iff split: if_splits)

lemma strict_sorted_set: "strict_sorted (sorted_list_of_set (A :: 'a :: linorder set))"
  by simp

interpretation guid_pages: pager guid_page "\<lambda>q. 0 < snd q \<and> snd q \<le> MAX_LIST_LIMIT" "\<lambda>q. set (fst q)"
proof
  fix q :: "uint32 list \<times> uint32" and a :: uint32 and ks next_key again
  obtain gs lim where q: "q = (gs, lim)" by (cases q)
  let ?rest = "sorted_list_of_set {g \<in> set gs. a < g}"
  have set_rest: "set ?rest = {g \<in> set gs. a < g}" by simp
  show "finite (set (fst q))" by simp
  show "\<exists>ks next_key again. guid_page q a = Some (ks, next_key, again)" if "0 < snd q \<and> snd q \<le> MAX_LIST_LIMIT"
    using that by (auto simp: q guid_page_def PaginateGuids_def Let_def not_less)
  assume "guid_page q a = Some (ks, next_key, again)"
  note p = guid_page_cases [OF this [unfolded q]]
  show "strict_sorted ks"
    unfolding p(2) by (rule sorted_wrt_take) (rule strict_sorted_set)
  show "set ks = {k \<in> set (fst q). a < k \<and> k \<le> next_key}"
  proof (cases "ks = []")
    case False
    then show ?thesis
      using sorted_prefix_keys [OF strict_sorted_set p(2)] by (auto simp: q p(3))
  qed (auto simp: p(3))
  show "next_key \<in> set ks" if again
  proof -
    have "0 < unat lim" using p(1) by (simp add: unat_gt_0)
    moreover have "unat lim < length ?rest" using that p(4) by simp
    ultimately have "0 < length ks" unfolding p(2) by simp
    then have "ks \<noteq> []" by simp
    then show ?thesis by (simp add: p(3))
  qed
  show "\<not> (\<exists>k \<in> set (fst q). next_key < k)" if "\<not> again"
  proof -
    have ks: "ks = ?rest" using that p(2,4) by simp
    show ?thesis
    proof (cases "ks = []")
      case True
      with ks set_rest have "{g \<in> set gs. a < g} = {}" by simp
      with True show ?thesis by (auto simp: q p(3))
    next
      case False
      have "set ks = {x \<in> set ?rest. x \<le> last ks}"
        by (rule sorted_prefix_keys [OF strict_sorted_set p(2) False])
      then have le: "\<And>x. x \<in> set ks \<Longrightarrow> x \<le> last ks" by blast
      have "last ks \<in> set ?rest" using False ks by (metis last_in_set)
      then have "a < last ks" by simp
      show ?thesis
      proof
        assume "\<exists>k \<in> set (fst q). next_key < k"
        then obtain k where k: "k \<in> set gs" "last ks < k" using False by (auto simp: q p(3))
        with \<open>a < last ks\<close> have "k \<in> set ?rest" by simp
        with ks le k(2) show False by (metis leD)
      qed
    qed
  qed
qed

text \<open>
  C30: a client that starts at a cursor and asks again from \<open>nextAfterGuid\<close> while \<open>hasMore\<close> gets every
  known GUID above the cursor exactly once, in increasing order, after at most one request more
  than there are GUIDs, for every valid page size.
\<close>

theorem pages_cover_all_guids:
  assumes "0 < lim" and "lim \<le> MAX_LIST_LIMIT"
  shows "walk_pages (Suc (length guids)) (guid_page (guids, lim)) after =
    Some (sorted_list_of_set {g \<in> set guids. after < g})"
proof -
  have "card {g \<in> set guids. after < g} \<le> card (set guids)" by (intro card_mono) auto
  then have "card {g \<in> set guids. after < g} < Suc (length guids)"
    using card_length [of guids] by linarith
  then show ?thesis
    using assms guid_pages.walk_complete [of "(guids, lim)" after "Suc (length guids)"]
    by (simp add: guid_pages.above_def)
qed

theorem pages_cover_all_guids_witness:
  "walk_pages (Suc (length [9, 3, 7, 3, 12 :: uint32])) (guid_page ([9, 3, 7, 3, 12], 2)) 4 =
    Some (sorted_list_of_set {g \<in> set [9, 3, 7, 3, 12]. 4 < g})"
  by (rule pages_cover_all_guids) (simp_all add: MAX_LIST_LIMIT_def)

end
