(* ===== verification/Json_Render.thy ===== *)
theory Json_Render
  imports Flat_Object
begin

text \<open>
  Compact JSON as the answers write it: \<open>{"key":value,...}\<close> with plain keys. An object built this way
  from JSON values is a JSON value, and a client's parser reads its members back.
\<close>

definition quoted :: "string \<Rightarrow> string" where
  "quoted s = CHR 0x22 # s @ [CHR 0x22]"

definition json_key :: "string \<Rightarrow> string" where
  "json_key name = quoted name @ '':''"

definition plain_text :: "string \<Rightarrow> bool" where
  "plain_text s \<longleftrightarrow> list_all (\<lambda>c. 32 \<le> ord c \<and> c \<noteq> CHR 0x22 \<and> c \<noteq> CHR 0x5C) s"

lemma plain_text_body: "plain_text s \<Longrightarrow> string_body s s"
  by (induction s) (auto simp: plain_text_def intro: string_body.intros)

fun render_members :: "(string \<times> string) list \<Rightarrow> string" where
  "render_members [] = ''}''"
| "render_members [(k, v)] = json_key k @ v @ ''}''"
| "render_members ((k, v) # kvs) = json_key k @ v @ '','' @ render_members kvs"

text \<open>The members after the first, each with the comma before it.\<close>

definition further_members :: "(string \<times> string) list \<Rightarrow> string" where
  "further_members kvs = concat (map (\<lambda>(k, v). '','' @ json_key k @ v) kvs)"

lemma further_members_simps [simp]:
  "further_members [] = []"
  "further_members ((k, v) # kvs) = '','' @ json_key k @ v @ further_members kvs"
  "further_members (xs @ ys) = further_members xs @ further_members ys"
  by (simp_all add: further_members_def)

lemma render_members_further: "render_members ((k, v) # kvs) = json_key k @ v @ further_members kvs @ ''}''"
proof (induction kvs arbitrary: k v)
  case (Cons kv kvs)
  obtain k' v' where "kv = (k', v')" by (cases kv)
  with Cons.IH [of k' v'] show ?case by simp
qed simp

fun render_elements :: "string list \<Rightarrow> string" where
  "render_elements [] = '']''"
| "render_elements [v] = v @ '']''"
| "render_elements (v # vs) = v @ '','' @ render_elements vs"

lemma json_depth: "json_text d t \<Longrightarrow> d \<le> MAX_NESTED_DEPTH"
  by (cases rule: json_text.cases) auto

text \<open>A number or a string may stand at any depth up to the limit.\<close>

lemma zero_digit: "ord (CHR ''0'') = 48"
  by (simp add: ord_def)

lemma to_string_int_text: "int_text (to_string n)"
proof (induction n rule: to_string.induct)
  case (1 n)
  show ?case
  proof (cases "n < 10")
    case True
    then have "int_text [digit_char n]"
      by (cases "n = 0") (simp_all add: int_text_def, metis ord_digit_char ord_inject one_less_numeral_iff zero_less_numeral add_0_right zero_digit)
    with True show ?thesis by (subst to_string.simps) simp
  next
    case False
    then have IH: "int_text (to_string (n div 10))" using 1 by simp
    moreover have "to_string (n div 10) \<noteq> ''0''"
    proof
      assume "to_string (n div 10) = ''0''"
      then have "digits_value 0 ''0'' = n div 10" by (metis digits_value_to_string)
      with False show False by (simp add: zero_digit)
    qed
    ultimately show ?thesis
      using False by (subst to_string.simps) (auto simp: int_text_def)
  qed
qed

lemma number_text_to_string: "number_text (to_string n)"
  using to_string_int_text [of n] unfolding number_text_def
  by (intro exI [of _ "[]"] exI [of _ "to_string n"]) (simp add: frac_text_def exp_text_def)

lemma json_text_number: "d \<le> MAX_NESTED_DEPTH \<Longrightarrow> json_text d (to_string n)"
  using number_text_to_string by (rule jt_number [rotated])

lemma json_text_quoted: "d \<le> MAX_NESTED_DEPTH \<Longrightarrow> plain_text s \<Longrightarrow> json_text d (quoted s)"
  unfolding quoted_def by (rule jt_string [OF _ plain_text_body])

lemma json_text_escaped: "d \<le> MAX_NESTED_DEPTH \<Longrightarrow> json_text d (AppendEscapedJsonString [] s)"
  unfolding AppendEscaped_literal append_Nil by (rule jt_string [OF _ escape_body])

text \<open>\<open>condition ? "true" : "false"\<close>\<close>

definition bool_text :: "bool \<Rightarrow> string" where
  "bool_text b = (if b then ''true'' else ''false'')"

lemma json_text_bool: "d \<le> MAX_NESTED_DEPTH \<Longrightarrow> json_text d (bool_text b)"
  unfolding bool_text_def by (rule jt_literal) auto

lemma flat_number: "flat_value (to_string (unat (n :: uint64))) (wire_field (WireNumber n))"
  using flat_value_render [of "WireNumber n"] by simp

lemma flat_quoted: "plain_text s \<Longrightarrow> flat_value (quoted s) (wire_field (WireString s))"
  using fv_string [OF plain_text_body [of s]] by (simp add: quoted_def)

lemma flat_escaped: "flat_value (AppendEscapedJsonString [] s) (wire_field (WireString s))"
  using flat_value_render [of "WireString s"] by simp

lemma flat_other:
  assumes "json_text 0 t" and "hd t \<noteq> CHR 0x22" and "\<not> is_digit_char (hd t)"
  shows "flat_value t default_value"
  using assms(1,2) by (rule fv_other) (use assms(3) in \<open>auto simp: unsigned_text_def list_all_iff\<close>)

lemma flat_bool: "flat_value (bool_text b) default_value"
  by (rule flat_other) (simp_all add: json_text_bool, simp_all add: bool_text_def is_digit_char_def ord_def)

lemma render_members_object:
  assumes "kvs \<noteq> []" and "list_all (\<lambda>(k, v). plain_text k \<and> json_text (Suc d) v) kvs"
  shows "object_rest d (render_members kvs)"
  using assms
proof (induction kvs rule: render_members.induct)
  case (2 k v)
  then show ?case
    using or_last [OF plain_text_body blank_Nil blank_Nil _ blank_Nil, of k d v]
    by (simp add: json_key_def quoted_def)
next
  case (3 k v kv kvs)
  then show ?case
    using or_more [OF plain_text_body blank_Nil blank_Nil _ blank_Nil blank_Nil, of k d v "render_members (kv # kvs)"]
    by (simp add: json_key_def quoted_def)
qed simp

lemma json_object:
  assumes "d \<le> MAX_NESTED_DEPTH" and "list_all (\<lambda>(k, v). plain_text k \<and> json_text (Suc d) v) kvs"
  shows "json_text d (''{'' @ render_members kvs)"
proof (cases "kvs = []")
  case True
  with assms(1) show ?thesis using jt_object_empty [OF _ blank_Nil] by simp
next
  case False
  with assms show ?thesis using jt_object [OF _ blank_Nil render_members_object] by simp
qed

lemma flat_object_value:
  "list_all (\<lambda>(k, v). plain_text k \<and> json_text 1 v) kvs \<Longrightarrow>
     flat_value (''{'' @ render_members kvs) default_value"
  using json_object [of 0 kvs] by (intro flat_other) (simp_all add: is_digit_char_def ord_def)

lemma render_elements_array:
  assumes "vs \<noteq> []" and "list_all (json_text (Suc d)) vs"
  shows "array_rest d (render_elements vs)"
  using assms
proof (induction vs rule: render_elements.induct)
  case (2 v)
  then show ?case using ar_last [OF _ blank_Nil, of d v] by simp
next
  case (3 v w ws)
  then show ?case using ar_more [OF _ blank_Nil blank_Nil, of d v "render_elements (w # ws)"] by simp
qed simp

lemma json_array:
  assumes "d \<le> MAX_NESTED_DEPTH" and "list_all (json_text (Suc d)) vs"
  shows "json_text d (''['' @ render_elements vs)"
proof (cases "vs = []")
  case True
  with assms(1) show ?thesis using jt_array_empty [OF _ blank_Nil] by simp
next
  case False
  with assms show ?thesis using jt_array [OF _ blank_Nil render_elements_array] by simp
qed

text \<open>The same object as a request-like flat object, with the value each member is read as.\<close>

lemma render_members_fields:
  assumes "kvs \<noteq> []" and "list_all (\<lambda>(k, t, v). plain_text k \<and> flat_value t v) kvs"
  shows "fields_rest (map (\<lambda>(k, t, v). (k, v)) kvs) (render_members (map (\<lambda>(k, t, v). (k, t)) kvs))"
  using assms
proof (induction kvs)
  case (Cons kv kvs)
  obtain k t v where kv: "kv = (k, t, v)" by (cases kv)
  show ?case
  proof (cases kvs)
    case Nil
    with Cons.prems kv show ?thesis
      using fr_last [OF plain_text_body blank_Nil blank_Nil _ blank_Nil, of k t v]
      by (simp add: json_key_def quoted_def)
  next
    case (Cons kv' kvs')
    obtain k' t' v' where kv': "kv' = (k', t', v')" by (cases kv')
    with Cons.IH Cons.prems kv Cons show ?thesis
      using fr_more [OF plain_text_body blank_Nil blank_Nil _ blank_Nil blank_Nil, of k t v
          "map (\<lambda>(k, t, v). (k, v)) kvs" "render_members (map (\<lambda>(k, t, v). (k, t)) kvs)"]
      by (simp add: json_key_def quoted_def)
  qed
qed simp

lemma render_members_flat:
  assumes "list_all (\<lambda>(k, t, v). plain_text k \<and> flat_value t v) kvs"
  shows "flat_object (map (\<lambda>(k, t, v). (k, v)) kvs) (''{'' @ render_members (map (\<lambda>(k, t, v). (k, t)) kvs))"
proof (cases "kvs = []")
  case True
  then show ?thesis
    unfolding flat_object_def by (intro exI [of _ "[]"] exI [of _ "''}''"]) simp
next
  case False
  then show ?thesis
    using render_members_fields [OF False assms]
    unfolding flat_object_def
    by (intro exI [of _ "[]"] exI [of _ "render_members (map (\<lambda>(k, t, v). (k, t)) kvs)"]) simp
qed

end
