(* ===== verification/Response_Codec.thy ===== *)
theory Response_Codec
  imports Json_Render Frame
begin

text \<open>
  The answers on the wire: \<open>SerializeError\<close> and \<open>SerializeResponse\<close>. Every answer fits in a frame and
  is a JSON object a client can read back. The text in \<open>Response::Failure\<close> is not part of an answer.
\<close>

definition SerializeError :: "uint64 \<Rightarrow> ErrorCode \<Rightarrow> string" where
  "SerializeError rid code =
     (let error = MakeError code;
          output = ''{'' @ json_key ''schemaVersion'' @ to_string (unat SCHEMA_VERSION) @
            '','' @ json_key ''requestId'' @ to_string (unat rid) @
            '','' @ json_key ''ok'' @ ''false,'' @ json_key ''error'' @ ''{'' @ json_key ''code'' @
            quoted (ErrorCodeName code) @ '','' @ json_key ''message''
      in AppendEscapedJsonString output (error_message error) @ ''}}'')"

definition SerializeResponse :: "uint64 \<Rightarrow> Response \<Rightarrow> string" where
  "SerializeResponse rid response =
     (if \<not> ok response then SerializeError rid (error_code (response_error response))
      else
        (let result = (if resultJson response = [] then ''{}'' else resultJson response);
             output = ''{'' @ json_key ''schemaVersion'' @ to_string (unat SCHEMA_VERSION) @
               '','' @ json_key ''requestId'' @ to_string (unat rid) @
               '','' @ json_key ''ok'' @ ''true,'' @ json_key ''result'' @ result @ ''}''
         in if length output \<le> MAX_RESPONSE_PAYLOAD_BYTES then output
            else SerializeError rid EC_ResponseTooLarge))"

section \<open>Size\<close>

lemma length_escape: "length (concat (map escape_char s)) \<le> 6 * length s"
proof (induction s)
  case (Cons c s)
  have "length (escape_char c) \<le> 6" by (simp add: escape_char_def)
  with Cons show ?case by simp
qed simp

lemma length_error_message: "length (error_message (MakeError code)) \<le> 150"
  by (cases code) (simp_all add: ProtocolError.defs)

lemma length_error_name: "length (ErrorCodeName code) \<le> 30"
  by (cases code) simp_all

lemma length_SerializeError: "length (SerializeError rid code) \<le> 1100"
  using length_escape [of "error_message (MakeError code)"] length_error_message [of code]
    length_error_name [of code] length_to_string_uint64 [of rid]
  by (simp add: SerializeError_def AppendEscapedJsonString_def json_key_def quoted_def SCHEMA_VERSION_def
      to_string.simps [of 2] Let_def)

lemma response_length: "length (SerializeResponse rid response) \<le> MAX_RESPONSE_PAYLOAD_BYTES"
proof -
  have "length (SerializeError rid code) \<le> MAX_RESPONSE_PAYLOAD_BYTES" for code
    using length_SerializeError [of rid code] by (simp add: MAX_RESPONSE_PAYLOAD_BYTES_def)
  then show ?thesis by (simp add: SerializeResponse_def Let_def)
qed

lemma response_encodes: "\<exists>frame. EncodeFrame (SerializeResponse rid response) = Some frame"
  using response_length [of rid response]
  by (simp add: EncodeFrame_def MAX_RESPONSE_PAYLOAD_BYTES_def MAX_FRAME_PAYLOAD_BYTES_def)

text \<open>
  C20: every answer stays within the response budget of 60 KiB, and so is always sent: encoding it as a
  frame never fails, whatever the operation returned.
\<close>

theorem response_fits_frame:
  "length (SerializeResponse rid response) \<le> MAX_RESPONSE_PAYLOAD_BYTES \<and>
   (\<exists>frame. EncodeFrame (SerializeResponse rid response) = Some frame \<and>
      payload (DecodeFrame frame) = Some (SerializeResponse rid response))"
  using response_length response_encodes by (blast intro: frames.decode_encode)

section \<open>Reading answers back\<close>

lemma plain_error_name [simp]: "plain_text (ErrorCodeName code)"
  by (cases code) (simp_all add: plain_text_def ord_def)

lemma plain_keys [simp]:
  "plain_text ''schemaVersion''" "plain_text ''requestId''" "plain_text ''ok''" "plain_text ''error''"
  "plain_text ''result''" "plain_text ''code''" "plain_text ''message''"
  by (simp_all add: plain_text_def ord_def)

definition error_members :: "ErrorCode \<Rightarrow> (string \<times> string \<times> FlatJsonValue) list" where
  "error_members code =
     [(''code'', quoted (ErrorCodeName code), wire_field (WireString (ErrorCodeName code))),
      (''message'', AppendEscapedJsonString [] (error_message (MakeError code)),
         wire_field (WireString (error_message (MakeError code))))]"

definition error_object :: "ErrorCode \<Rightarrow> string" where
  "error_object code = ''{'' @ render_members (map (\<lambda>(k, t, v). (k, t)) (error_members code))"

definition answer_members :: "uint64 \<Rightarrow> bool \<Rightarrow> string \<Rightarrow> string \<Rightarrow> (string \<times> string \<times> FlatJsonValue) list" where
  "answer_members rid success name body =
     [(''schemaVersion'', to_string (unat (2 :: uint64)), wire_field (WireNumber 2)),
      (''requestId'', to_string (unat rid), wire_field (WireNumber rid)),
      (''ok'', bool_text success, default_value), (name, body, default_value)]"

lemma SerializeError_members:
  "SerializeError rid code =
     ''{'' @ render_members (map (\<lambda>(k, t, v). (k, t)) (answer_members rid False ''error'' (error_object code)))"
  by (simp add: SerializeError_def answer_members_def error_object_def error_members_def AppendEscapedJsonString_def
      SCHEMA_VERSION_def bool_text_def Let_def)

lemma error_object_flat:
  "flat_object [(''code'', wire_field (WireString (ErrorCodeName code))),
     (''message'', wire_field (WireString (error_message (MakeError code))))] (error_object code)"
  using render_members_flat [of "error_members code"] flat_quoted flat_escaped
  by (simp add: error_object_def error_members_def)

lemma answer_flat:
  assumes "flat_value body default_value" and "plain_text name"
  shows "flat_object [(''schemaVersion'', wire_field (WireNumber 2)), (''requestId'', wire_field (WireNumber rid)),
    (''ok'', default_value), (name, default_value)]
    (''{'' @ render_members (map (\<lambda>(k, t, v). (k, t)) (answer_members rid success name body)))"
  using render_members_flat [of "answer_members rid success name body"] assms flat_number [of 2] flat_number [of rid]
    flat_bool [of success]
  by (simp add: answer_members_def)

lemma error_object_value: "flat_value (error_object code) default_value"
  unfolding error_object_def
  by (rule flat_object_value)
     (simp add: error_members_def json_text_quoted json_text_escaped MAX_NESTED_DEPTH_def)

lemma ErrorCodeName_inject: "ErrorCodeName a = ErrorCodeName b \<Longrightarrow> a = b"
  by (cases a; cases b; simp)


lemma Parse_members:
  "flat_object fs s \<Longrightarrow> distinct (map fst fs) \<Longrightarrow> Parse None s = Some (fs, None)"
  by (simp add: Parse_complete keep_fields_strict)

lemma SerializeError_reads:
  "Parse None (SerializeError rid code) =
     Some ([(''schemaVersion'', wire_field (WireNumber 2)), (''requestId'', wire_field (WireNumber rid)),
       (''ok'', default_value), (''error'', default_value)], None)"
  unfolding SerializeError_members
  by (rule Parse_members [OF answer_flat [OF error_object_value]]) simp_all

lemma error_object_reads:
  "Parse None (error_object code) =
     Some ([(''code'', wire_field (WireString (ErrorCodeName code))),
       (''message'', wire_field (WireString (error_message (MakeError code))))], None)"
  by (rule Parse_members [OF error_object_flat]) simp_all

text \<open>
  An error answer is a JSON object with the schema version, the request id and an error object,
  and reading it back gives that id, the wire name of the code and the message of the code's table
  entry; distinct ids or codes give distinct answers.
\<close>

theorem error_answer_reads_back:
  "Parse None (SerializeResponse rid (Failure code message)) =
     Some ([(''schemaVersion'', wire_field (WireNumber 2)), (''requestId'', wire_field (WireNumber rid)),
       (''ok'', default_value), (''error'', default_value)], None) \<and>
   (\<exists>before. SerializeResponse rid (Failure code message) = before @ error_object code @ ''}'') \<and>
   Parse None (error_object code) =
     Some ([(''code'', wire_field (WireString (ErrorCodeName code))),
       (''message'', wire_field (WireString (error_message (MakeError code))))], None) \<and>
   (ErrorCodeName code = ErrorCodeName code' \<longleftrightarrow> code = code')"
proof -
  have "SerializeResponse rid (Failure code message) = SerializeError rid code"
    by (simp add: SerializeResponse_def)
  moreover have "\<exists>before. SerializeError rid code = before @ error_object code @ ''}''"
    unfolding SerializeError_members by (simp add: answer_members_def)
  ultimately show ?thesis
    using SerializeError_reads error_object_reads ErrorCodeName_inject by metis
qed

text \<open>The message of a failure is dropped: the client gets the message of the code.\<close>

lemma failure_message_dropped:
  "SerializeResponse rid (Failure code message) = SerializeResponse rid (Failure code message')"
  by (simp add: SerializeResponse_def)

text \<open>
  C36: a successful answer whose result is a JSON object within the budget is a JSON object with the
  schema version, the id of the request, \<open>ok\<close> and the result, byte for byte.
\<close>

theorem success_answer_reads_back:
  assumes "json_text 0 (CHR ''{'' # result)" and "length result \<le> 61000"
  shows "Parse None (SerializeResponse rid (Success (CHR ''{'' # result))) =
      Some ([(''schemaVersion'', wire_field (WireNumber 2)), (''requestId'', wire_field (WireNumber rid)),
        (''ok'', default_value), (''result'', default_value)], None) \<and>
    (\<exists>before. SerializeResponse rid (Success (CHR ''{'' # result)) = before @ CHR ''{'' # result @ ''}'')"
proof -
  let ?text = "''{'' @ render_members (map (\<lambda>(k, t, v). (k, t)) (answer_members rid True ''result'' (CHR ''{'' # result)))"
  have "length ?text \<le> MAX_RESPONSE_PAYLOAD_BYTES"
    using assms(2) length_to_string_uint64 [of rid]
    by (simp add: answer_members_def json_key_def quoted_def bool_text_def MAX_RESPONSE_PAYLOAD_BYTES_def
        to_string.simps [of 2])
  then have eq: "SerializeResponse rid (Success (CHR ''{'' # result)) = ?text"
    by (simp add: SerializeResponse_def answer_members_def bool_text_def SCHEMA_VERSION_def Let_def)
  have "flat_value (CHR ''{'' # result) default_value"
    using assms(1) by (rule flat_other) (simp_all add: is_digit_char_def ord_def)
  from Parse_members [OF answer_flat [OF this]]
  have "Parse None ?text = Some ([(''schemaVersion'', wire_field (WireNumber 2)),
      (''requestId'', wire_field (WireNumber rid)), (''ok'', default_value), (''result'', default_value)], None)"
    by simp
  moreover have "\<exists>before. ?text = before @ CHR ''{'' # result @ ''}''"
    by (simp add: answer_members_def)
  ultimately show ?thesis unfolding eq by blast
qed

theorem success_answer_reads_back_witness:
  "Parse None (SerializeResponse 5 (Success (CHR ''{'' # render_members [(''reloaded'', ''true'')]))) =
      Some ([(''schemaVersion'', wire_field (WireNumber 2)), (''requestId'', wire_field (WireNumber 5)),
        (''ok'', default_value), (''result'', default_value)], None)"
proof -
  have "json_text 0 (CHR ''{'' # render_members [(''reloaded'', ''true'')])"
    using json_object [of 0 "[(''reloaded'', ''true'')]"] json_text_bool [of 1 True]
    by (simp add: plain_text_def ord_def MAX_NESTED_DEPTH_def bool_text_def)
  then show ?thesis
    using success_answer_reads_back [of "render_members [(''reloaded'', ''true'')]" 5]
    by (simp add: json_key_def quoted_def)
qed

end
