(* ===== verification/Float_Text.thy ===== *)
theory Float_Text
  imports Json_Render
begin

text \<open>
  \<open>std::ostream << float\<close> at a precision \<open>p\<close>: the \<open>%.pg\<close> text of an IEEE single, computed from its
  bits with exact integer arithmetic (round half to even on digit \<open>p\<close>, trailing zeros dropped,
  exponent form below 1e-4 and from \<open>10 ^ p\<close> on). For every finite float the text is a JSON
  number; an infinity or a NaN prints as a word that is not JSON.
\<close>

definition float_negative :: "float32 \<Rightarrow> bool" where
  "float_negative w \<longleftrightarrow> bit w 31"

definition float_exponent :: "float32 \<Rightarrow> nat" where
  "float_exponent w = unat (drop_bit 23 w AND 0xFF)"

definition float_fraction :: "float32 \<Rightarrow> nat" where
  "float_fraction w = unat (w AND 0x7FFFFF)"

definition float_finite :: "float32 \<Rightarrow> bool" where
  "float_finite w \<longleftrightarrow> float_exponent w \<noteq> 255"

text \<open>The magnitude of a finite float, as a numerator and a denominator.\<close>

definition float_magnitude :: "float32 \<Rightarrow> nat \<times> nat" where
  "float_magnitude w =
     (let e = float_exponent w;
          m = (if e = 0 then float_fraction w else 2 ^ 23 + float_fraction w);
          s = max e 1
      in if 150 \<le> s then (m * 2 ^ (s - 150), 1) else (m, 2 ^ (150 - s)))"

text \<open>The decimal exponent: the largest \<open>x\<close> with \<open>10 ^ x \<le> n / d\<close>, searched downwards from 40.\<close>

definition power_below :: "nat \<Rightarrow> nat \<Rightarrow> int \<Rightarrow> bool" where
  "power_below n d x = (if 0 \<le> x then 10 ^ nat x * d \<le> n else d \<le> n * 10 ^ nat (- x))"

fun find_exponent :: "nat \<Rightarrow> int \<Rightarrow> nat \<Rightarrow> nat \<Rightarrow> int" where
  "find_exponent 0 x n d = x"
| "find_exponent (Suc k) x n d = (if power_below n d x then x else find_exponent k (x - 1) n d)"

definition decimal_exponent :: "nat \<Rightarrow> nat \<Rightarrow> int" where
  "decimal_exponent n d = find_exponent 90 40 n d"

definition round_half_even :: "nat \<Rightarrow> nat \<Rightarrow> nat" where
  "round_half_even a b =
     (let q = a div b; r = a mod b in if b < 2 * r \<or> 2 * r = b \<and> odd q then Suc q else q)"

text \<open>The first \<open>p\<close> significant digits, as a number, and the decimal exponent of the rounded value.\<close>

definition significant_digits :: "nat \<Rightarrow> nat \<Rightarrow> nat \<Rightarrow> nat \<times> int" where
  "significant_digits p n d =
     (let x = decimal_exponent n d; top = int p - 1;
          q = (if x \<le> top then round_half_even (n * 10 ^ nat (top - x)) d
               else round_half_even n (d * 10 ^ nat (x - top)))
      in if q = 10 ^ p then (10 ^ (p - 1), x + 1) else (q, x))"

definition strip_zeros :: "string \<Rightarrow> string" where
  "strip_zeros s = rev (dropWhile (\<lambda>c. c = CHR ''0'') (rev s))"

definition fraction_text :: "string \<Rightarrow> string" where
  "fraction_text ds = (let f = strip_zeros ds in if f = [] then [] else CHR ''.'' # f)"

definition exponent_text :: "int \<Rightarrow> string" where
  "exponent_text x =
     CHR ''e'' # (if x < 0 then ''-'' else ''+'') @
       (if nat \<bar>x\<bar> < 10 then CHR ''0'' # to_string (nat \<bar>x\<bar>) else to_string (nat \<bar>x\<bar>))"

definition general_text :: "nat \<Rightarrow> nat \<Rightarrow> nat \<Rightarrow> string" where
  "general_text p n d =
     (if n = 0 then ''0''
      else
        (let (q, x) = significant_digits p n d; ds = to_string q in
         if x < -4 \<or> int p \<le> x then take 1 ds @ fraction_text (drop 1 ds) @ exponent_text x
         else if 0 \<le> x then take (Suc (nat x)) ds @ fraction_text (drop (Suc (nat x)) ds)
         else ''0'' @ fraction_text (replicate (nat (- x) - 1) (CHR ''0'') @ ds)))"

definition float_text :: "nat \<Rightarrow> float32 \<Rightarrow> string" where
  "float_text p w =
     (if float_negative w then ''-'' else []) @
     (if \<not> float_finite w then (if float_fraction w = 0 then ''inf'' else ''nan'')
      else (case float_magnitude w of (n, d) \<Rightarrow> general_text p n d))"

section \<open>JSON numbers\<close>

lemma strip_zeros_digits: "list_all is_digit_char s \<Longrightarrow> list_all is_digit_char (strip_zeros s)"
  by (auto simp: strip_zeros_def list_all_iff dest: set_dropWhileD)

lemma fraction_text_frac: "list_all is_digit_char s \<Longrightarrow> frac_text (fraction_text s)"
  using strip_zeros_digits [of s] by (auto simp: fraction_text_def frac_text_def digits1_def Let_def)

lemma exponent_text_exp: "exp_text (exponent_text x)"
proof -
  let ?k = "nat \<bar>x\<bar>"
  let ?ds = "if ?k < 10 then CHR ''0'' # to_string ?k else to_string ?k"
  have "digits1 ?ds" using to_string_digits [of ?k] by (auto simp: digits1_def)
  then show ?thesis
    unfolding exponent_text_def exp_text_def
    by (intro disjI2 exI [of _ "CHR ''e''"] exI [of _ "if x < 0 then ''-'' else ''+''"] exI [of _ ?ds]) simp
qed

lemma int_text_take: "int_text s \<Longrightarrow> int_text (take (Suc k) s)"
  by (auto simp: int_text_def list_all_iff) (metis in_set_takeD)+

lemma list_all_drop: "list_all P s \<Longrightarrow> list_all P (drop k s)"
  by (auto simp: list_all_iff dest: in_set_dropD)

lemma number_textI:
  "m \<in> {[], ''-''} \<Longrightarrow> int_text i \<Longrightarrow> frac_text f \<Longrightarrow> exp_text e \<Longrightarrow> number_text (m @ i @ f @ e)"
  unfolding number_text_def by blast

lemma no_exponent [simp]: "exp_text []"
  by (simp add: exp_text_def)

lemma general_text_number:
  assumes "m \<in> {[], ''-''}"
  shows "number_text (m @ general_text p n d)"
proof (cases "n = 0")
  case True
  then show ?thesis
    using number_textI [OF assms, of "''0''" "[]" "[]"]
    by (simp add: general_text_def int_text_def frac_text_def)
next
  case False
  obtain q x where q: "significant_digits p n d = (q, x)" by (cases "significant_digits p n d")
  have i: "int_text (take (Suc k) (to_string q))" for k
    by (rule int_text_take) (rule to_string_int_text)
  have f: "frac_text (fraction_text (drop k (to_string q)))" for k
    by (rule fraction_text_frac) (rule list_all_drop, rule to_string_digits)
  have z: "frac_text (fraction_text (replicate k (CHR ''0'') @ to_string q))" for k
    using to_string_digits [of q] by (intro fraction_text_frac) (auto simp: list_all_iff)
  consider "x < -4 \<or> int p \<le> x" | "\<not> (x < -4 \<or> int p \<le> x)" "0 \<le> x" | "\<not> (x < -4 \<or> int p \<le> x)" "\<not> 0 \<le> x" by blast
  then show ?thesis
  proof cases
    case 1
    with False q number_textI [OF assms i [of 0] f exponent_text_exp [of x]] show ?thesis
      by (simp add: general_text_def Let_def)
  next
    case 2
    with False q number_textI [OF assms i f no_exponent] show ?thesis
      by (simp add: general_text_def Let_def)
  next
    case 3
    with False q number_textI [OF assms, of "''0''", OF _ z no_exponent] show ?thesis
      by (simp add: general_text_def int_text_def Let_def)
  qed
qed

lemma float_number: "float_finite w \<Longrightarrow> number_text (float_text p w)"
  using general_text_number [of "''-''"] general_text_number [of "[]"]
  by (simp add: float_text_def split: prod.split)

text \<open>
  Every finite float prints as a JSON number, so the coordinates of an audit record can be read
  back; an infinity and a NaN print as inf and nan.
\<close>

theorem float_text_number:
  "if float_finite w then number_text (float_text p w)
   else float_text p w \<in> {''inf'', ''-inf'', ''nan'', ''-nan''}"
  using float_number by (simp add: float_text_def)

end
