(* ===== verification/Recovery_Audit.thy ===== *)
theory Recovery_Audit
  imports Float_Text Request_Parser
begin

text \<open>
  The audit trail of \<open>recover\<close>: \<open>BuildRejectedRecoveryAudit\<close> reads what it can of a rejected payload
  (a repeated field is not trusted) and classifies the error, and \<open>SerializeRecoveryAuditRecord\<close>
  writes a record as JSON. A written record reads back to its own members.
\<close>

section \<open>Records of rejected requests\<close>

definition rejected_outcome :: "ErrorCode \<Rightarrow> RecoveryOutcome \<times> RecoveryReason" where
  "rejected_outcome code =
     (case code of
        EC_AuthenticationFailed \<Rightarrow> (RO_Unauthorized, RR_AuthenticationFailed)
      | EC_UnsupportedDestination \<Rightarrow> (RO_UnsupportedDestination, RR_DestinationNotHomebind)
      | EC_InvalidGuid \<Rightarrow> (RO_InvalidRequest, RR_InvalidGuid)
      | EC_UnsupportedSchemaVersion \<Rightarrow> (RO_InvalidRequest, RR_UnsupportedSchema)
      | EC_UnknownOperation \<Rightarrow> (RO_InvalidRequest, RR_UnknownOperation)
      | EC_BotNotFound \<Rightarrow> (RO_BotNotFound, RR_CharacterNotFound)
      | EC_BotUnavailable \<Rightarrow> (RO_BotNotAvailable, RR_CharacterOffline)
      | EC_NotManagedPlayerbot \<Rightarrow> (RO_NotManagedPlayerbot, RR_PlayerbotAiMissing)
      | EC_OperationUnavailable \<Rightarrow> (RO_RecoveryFailed, RR_OperationUnavailable)
      | EC_QueueFull \<Rightarrow> (RO_RecoveryFailed, RR_QueueFull)
      | EC_Shutdown \<Rightarrow> (RO_RecoveryFailed, RR_ShuttingDown)
      | EC_ResponseTooLarge \<Rightarrow> (RO_RecoveryFailed, RR_ResponseTooLarge)
      | EC_Timeout \<Rightarrow> (RO_RecoveryTimedOut, RR_QueueTimeoutBeforeClaim)
      | EC_RecoveryFailed \<Rightarrow> (RO_RecoveryFailed, RR_InternalError)
      | EC_InternalError \<Rightarrow> (RO_RecoveryFailed, RR_InternalError)
      | _ \<Rightarrow> (RO_InvalidRequest, RR_MalformedRequest))"

definition BuildRejectedRecoveryAudit :: "string \<Rightarrow> ErrorCode \<Rightarrow> uint64 \<Rightarrow> RecoveryAuditRecord option" where
  "BuildRejectedRecoveryAudit p code ts =
     (case Parse (Some {}) p of
        Some (fs, Some duplicates) \<Rightarrow>
          if StringField fs ''operation'' \<noteq> Some ''recover'' \<or> ''operation'' \<in> duplicates then None
          else
            Some (default_audit\<lparr>
              timestampMs := ts,
              audit_requestId :=
                (case UnsignedField fs ''requestId'' of
                   None \<Rightarrow> None
                 | Some rid \<Rightarrow> if ''requestId'' \<notin> duplicates then Some rid else None),
              audit_botGuid :=
                (case UnsignedField fs ''botGuid'' of
                   None \<Rightarrow> None
                 | Some guid \<Rightarrow> if IsValidGuid guid \<and> ''botGuid'' \<notin> duplicates then Some (ucast guid) else None),
              audit_destination :=
                (case StringField fs ''destination'' of
                   None \<Rightarrow> RD_Missing
                 | Some dest \<Rightarrow>
                     if ''destination'' \<in> duplicates then RD_Missing
                     else if dest = ''homebind'' then RD_Homebind else RD_Unsupported),
              outcome := fst (rejected_outcome code),
              reason := snd (rejected_outcome code)\<rparr>)
      | _ \<Rightarrow> None)"

section \<open>Writing a record\<close>

definition max_digits10 :: nat where "max_digits10 = 9"

definition AppendRecoveryPosition :: "string \<Rightarrow> string \<Rightarrow> RecoveryPosition \<Rightarrow> string" where
  "AppendRecoveryPosition output field position =
     output @ '','' @ json_key field @ ''{'' @ json_key ''mapId'' @ to_string (unat (mapId position)) @
       '','' @ json_key ''zoneId'' @ to_string (unat (zoneId position)) @
       '','' @ json_key ''areaId'' @ to_string (unat (areaId position)) @
       '','' @ json_key ''x'' @ float_text max_digits10 (pos_x position) @
       '','' @ json_key ''y'' @ float_text max_digits10 (pos_y position) @
       '','' @ json_key ''z'' @ float_text max_digits10 (pos_z position) @
       '','' @ json_key ''orientation'' @ float_text max_digits10 (orientation position) @ ''}''"

definition SerializeRecoveryAuditRecord :: "RecoveryAuditRecord \<Rightarrow> string" where
  "SerializeRecoveryAuditRecord r =
     (let s0 = ''{'' @ json_key ''timestampMs'' @ to_string (unat (timestampMs r)) @
            '','' @ json_key ''operation'' @ quoted ''recover'';
          s1 = (case audit_requestId r of None \<Rightarrow> s0 | Some rid \<Rightarrow> s0 @ '','' @ json_key ''requestId'' @ to_string (unat rid));
          s2 = (case audit_botGuid r of None \<Rightarrow> s1 | Some guid \<Rightarrow> s1 @ '','' @ json_key ''botGuid'' @ to_string (unat guid));
          s3 = (case audit_botName r of None \<Rightarrow> s2
                | Some name \<Rightarrow> AppendEscapedJsonString (s2 @ '','' @ json_key ''botName'') name);
          s4 = s3 @ '','' @ json_key ''destination'' @ quoted (RecoveryDestinationName (audit_destination r));
          s5 = (case beforePosition r of None \<Rightarrow> s4 | Some pos \<Rightarrow> AppendRecoveryPosition s4 ''beforePosition'' pos);
          s6 = (case acceptedDestination r of None \<Rightarrow> s5 | Some pos \<Rightarrow> AppendRecoveryPosition s5 ''acceptedDestination'' pos);
          s7 = (case observedPosition r of None \<Rightarrow> s6 | Some pos \<Rightarrow> AppendRecoveryPosition s6 ''observedPosition'' pos)
      in s7 @ '','' @ json_key ''observedAtDestination'' @ bool_text (observedAtDestination r) @
         '','' @ json_key ''movementReset'' @ bool_text (movementReset r) @
         '','' @ json_key ''travelReset'' @ bool_text (travelReset r) @
         '','' @ json_key ''taxiReset'' @ bool_text (taxiReset r) @
         '','' @ json_key ''outcome'' @ quoted (RecoveryOutcomeName (outcome r)) @
         '','' @ json_key ''reason'' @ quoted (RecoveryReasonName (reason r)) @
         '','' @ json_key ''mutationState'' @ quoted (RecoveryMutationStateName (mutationState r)) @
         '','' @ json_key ''persistenceState'' @ quoted (RecoveryPersistenceStateName (persistenceState r)) @ ''}'')"

section \<open>Reading a record back\<close>

definition finite_position :: "RecoveryPosition \<Rightarrow> bool" where
  "finite_position pos \<longleftrightarrow>
     float_finite (pos_x pos) \<and> float_finite (pos_y pos) \<and> float_finite (pos_z pos) \<and>
     float_finite (orientation pos)"

definition finite_record :: "RecoveryAuditRecord \<Rightarrow> bool" where
  "finite_record r \<longleftrightarrow>
     (\<forall>pos \<in> set_option (beforePosition r) \<union> set_option (acceptedDestination r) \<union> set_option (observedPosition r).
        finite_position pos)"

definition position_members :: "RecoveryPosition \<Rightarrow> (string \<times> string) list" where
  "position_members pos =
     [(''mapId'', to_string (unat (mapId pos))), (''zoneId'', to_string (unat (zoneId pos))),
      (''areaId'', to_string (unat (areaId pos))), (''x'', float_text max_digits10 (pos_x pos)),
      (''y'', float_text max_digits10 (pos_y pos)), (''z'', float_text max_digits10 (pos_z pos)),
      (''orientation'', float_text max_digits10 (orientation pos))]"

definition optional_member :: "('a \<Rightarrow> string \<times> FlatJsonValue) \<Rightarrow> string \<Rightarrow> 'a option \<Rightarrow> (string \<times> string \<times> FlatJsonValue) list" where
  "optional_member f name x = (case x of None \<Rightarrow> [] | Some v \<Rightarrow> [(name, f v)])"

definition audit_head :: "RecoveryAuditRecord \<Rightarrow> (string \<times> string \<times> FlatJsonValue) list" where
  "audit_head r =
     [(''timestampMs'', to_string (unat (timestampMs r)), wire_field (WireNumber (timestampMs r))),
      (''operation'', quoted ''recover'', wire_field (WireString ''recover''))] @
     optional_member (\<lambda>rid. (to_string (unat rid), wire_field (WireNumber rid))) ''requestId'' (audit_requestId r) @
     optional_member (\<lambda>guid. (to_string (unat guid), wire_field (WireNumber (ucast guid)))) ''botGuid'' (audit_botGuid r) @
     optional_member (\<lambda>name. (AppendEscapedJsonString [] name, wire_field (WireString name))) ''botName'' (audit_botName r) @
     [(''destination'', quoted (RecoveryDestinationName (audit_destination r)),
       wire_field (WireString (RecoveryDestinationName (audit_destination r))))]"

definition audit_positions :: "RecoveryAuditRecord \<Rightarrow> (string \<times> string \<times> FlatJsonValue) list" where
  "audit_positions r =
     (let position = (\<lambda>pos. (''{'' @ render_members (position_members pos), default_value)) in
      optional_member position ''beforePosition'' (beforePosition r) @
      optional_member position ''acceptedDestination'' (acceptedDestination r) @
      optional_member position ''observedPosition'' (observedPosition r))"

definition audit_tail :: "RecoveryAuditRecord \<Rightarrow> (string \<times> string \<times> FlatJsonValue) list" where
  "audit_tail r =
     [(''observedAtDestination'', bool_text (observedAtDestination r), default_value),
      (''movementReset'', bool_text (movementReset r), default_value),
      (''travelReset'', bool_text (travelReset r), default_value),
      (''taxiReset'', bool_text (taxiReset r), default_value),
      (''outcome'', quoted (RecoveryOutcomeName (outcome r)), wire_field (WireString (RecoveryOutcomeName (outcome r)))),
      (''reason'', quoted (RecoveryReasonName (reason r)), wire_field (WireString (RecoveryReasonName (reason r)))),
      (''mutationState'', quoted (RecoveryMutationStateName (mutationState r)),
        wire_field (WireString (RecoveryMutationStateName (mutationState r)))),
      (''persistenceState'', quoted (RecoveryPersistenceStateName (persistenceState r)),
        wire_field (WireString (RecoveryPersistenceStateName (persistenceState r))))]"

definition audit_members :: "RecoveryAuditRecord \<Rightarrow> (string \<times> string \<times> FlatJsonValue) list" where
  "audit_members r = audit_head r @ audit_positions r @ audit_tail r"


abbreviation member_texts :: "(string \<times> string \<times> FlatJsonValue) list \<Rightarrow> (string \<times> string) list" where
  "member_texts \<equiv> map (\<lambda>(k, t, v). (k, t))"

lemma AppendEscaped_append: "AppendEscapedJsonString out v = out @ AppendEscapedJsonString [] v"
  by (simp add: AppendEscapedJsonString_def)

lemma AppendRecoveryPosition_member:
  "AppendRecoveryPosition out field pos = out @ further_members [(field, ''{'' @ render_members (position_members pos))]"
  by (simp add: AppendRecoveryPosition_def position_members_def render_members_further)

lemma serialize_optional:
  "s @ further_members (member_texts (optional_member f name x)) =
     (case x of None \<Rightarrow> s | Some v \<Rightarrow> s @ '','' @ json_key name @ fst (f v))"
  by (cases x) (auto simp: optional_member_def split: prod.split)

lemma SerializeRecoveryAuditRecord_members:
  "SerializeRecoveryAuditRecord r = ''{'' @ render_members (member_texts (audit_members r))"
  unfolding SerializeRecoveryAuditRecord_def Let_def AppendRecoveryPosition_member audit_members_def
    audit_head_def audit_positions_def audit_tail_def optional_member_def AppendEscaped_append [of "_ @ _"]
  by (simp add: render_members_further split: option.split)


lemma plain_names [simp]:
  "plain_text (RecoveryDestinationName d)" "plain_text (RecoveryOutcomeName out)"
  "plain_text (RecoveryReasonName why)" "plain_text (RecoveryMutationStateName ms)"
  "plain_text (RecoveryPersistenceStateName ps)"
proof -
  show "plain_text (RecoveryDestinationName d)" by (cases d) (simp_all add: plain_text_def ord_def)
  show "plain_text (RecoveryOutcomeName out)" by (cases out) (simp_all add: plain_text_def ord_def)
  show "plain_text (RecoveryReasonName why)" by (cases why) (simp_all add: plain_text_def ord_def)
  show "plain_text (RecoveryMutationStateName ms)" by (cases ms) (simp_all add: plain_text_def ord_def)
  show "plain_text (RecoveryPersistenceStateName ps)" by (cases ps) (simp_all add: plain_text_def ord_def)
qed

lemma plain_audit_keys:
  "list_all plain_text [''timestampMs'', ''operation'', ''recover'', ''requestId'', ''botGuid'', ''botName'', ''destination'',
     ''beforePosition'', ''acceptedDestination'', ''observedPosition'', ''observedAtDestination'', ''movementReset'',
     ''travelReset'', ''taxiReset'', ''outcome'', ''reason'', ''mutationState'', ''persistenceState'',
     ''mapId'', ''zoneId'', ''areaId'', ''x'', ''y'', ''z'', ''orientation'']"
  by (simp add: plain_text_def ord_def)

declare wire_field.simps [simp del]

lemma position_value:
  assumes "finite_position pos"
  shows "flat_value (''{'' @ render_members (position_members pos)) default_value"
proof -
  have f: "json_text 1 (float_text max_digits10 w)" if "float_finite w" for w
    using float_number [OF that] by (intro jt_number) (simp_all add: MAX_NESTED_DEPTH_def)
  have "json_text 1 (to_string n)" for n by (rule json_text_number) (simp add: MAX_NESTED_DEPTH_def)
  with f assms plain_audit_keys show ?thesis
    by (intro flat_object_value) (simp add: position_members_def finite_position_def)
qed

lemma audit_members_flat:
  assumes "finite_record r"
  shows "list_all (\<lambda>(k, t, v). plain_text k \<and> flat_value t v) (audit_members r)"
proof -
  have guid: "flat_value (to_string (unat (g :: uint32))) (wire_field (WireNumber (ucast g)))" for g
    using flat_number [of "ucast g"] by simp
  have "list_all (\<lambda>(k, t, v). plain_text k \<and> flat_value t v) (audit_head r)"
    using plain_audit_keys by (simp add: audit_head_def optional_member_def flat_number flat_quoted flat_escaped guid
        split: option.split)
  moreover have "list_all (\<lambda>(k, t, v). plain_text k \<and> flat_value t v) (audit_positions r)"
    using plain_audit_keys assms
    by (auto simp: audit_positions_def optional_member_def finite_record_def position_value [simplified] Let_def split: option.split)
  moreover have "list_all (\<lambda>(k, t, v). plain_text k \<and> flat_value t v) (audit_tail r)"
    using plain_audit_keys by (simp add: audit_tail_def flat_bool flat_quoted)
  ultimately show ?thesis by (simp add: audit_members_def)
qed

lemma audit_members_distinct: "distinct (map (\<lambda>(k, t, v). k) (audit_members r))"
  by (simp add: audit_members_def audit_head_def audit_positions_def audit_tail_def optional_member_def Let_def
      split: option.split)

definition audit_fields :: "RecoveryAuditRecord \<Rightarrow> FlatJsonFields" where
  "audit_fields r = map (\<lambda>(k, t, v). (k, v)) (audit_members r)"

lemma Parse_audit_record:
  assumes "finite_record r"
  shows "Parse None (SerializeRecoveryAuditRecord r) = Some (audit_fields r, None)"
proof -
  have "flat_object (audit_fields r) (SerializeRecoveryAuditRecord r)"
    unfolding SerializeRecoveryAuditRecord_members audit_fields_def
    by (rule render_members_flat [OF audit_members_flat [OF assms]])
  moreover have "map fst (audit_fields r) = map (\<lambda>(k, t, v). k) (audit_members r)"
    by (simp add: audit_fields_def comp_def case_prod_unfold)
  ultimately show ?thesis
    using audit_members_distinct [of r] by (simp add: Parse_complete keep_fields_strict)
qed


lemma lookup_append:
  "map_of (xs @ ys) k = (case map_of xs k of None \<Rightarrow> map_of ys k | Some v \<Rightarrow> Some v)"
  by (induction xs) auto

lemma lookup_optional:
  "map_of (map (\<lambda>(k, t, v). (k, v)) (optional_member f name x)) k =
     (if k = name then map_option (\<lambda>v. snd (f v)) x else None)"
  by (cases x) (auto simp: optional_member_def split: prod.split)

lemmas audit_lookup =
  audit_fields_def audit_members_def audit_head_def audit_positions_def audit_tail_def Let_def
  lookup_append lookup_optional UnsignedField_def StringField_def contains_def

lemma audit_lookup_numbers:
  "UnsignedField (audit_fields r) ''timestampMs'' = Some (timestampMs r)"
  "UnsignedField (audit_fields r) ''requestId'' = audit_requestId r"
  "UnsignedField (audit_fields r) ''botGuid'' = map_option ucast (audit_botGuid r)"
proof -
  show "UnsignedField (audit_fields r) ''timestampMs'' = Some (timestampMs r)"
    by (simp add: audit_lookup del: map_of_append)
  show "UnsignedField (audit_fields r) ''requestId'' = audit_requestId r"
    by (cases "audit_requestId r") (simp_all add: audit_lookup del: map_of_append)
  show "UnsignedField (audit_fields r) ''botGuid'' = map_option ucast (audit_botGuid r)"
    by (cases "audit_botGuid r") (simp_all add: audit_lookup del: map_of_append)
qed

lemma audit_lookup_strings:
  "StringField (audit_fields r) ''operation'' = Some ''recover''"
  "StringField (audit_fields r) ''botName'' = audit_botName r"
  "StringField (audit_fields r) ''destination'' = Some (RecoveryDestinationName (audit_destination r))"
  "StringField (audit_fields r) ''outcome'' = Some (RecoveryOutcomeName (outcome r))"
  "StringField (audit_fields r) ''reason'' = Some (RecoveryReasonName (reason r))"
  "StringField (audit_fields r) ''mutationState'' = Some (RecoveryMutationStateName (mutationState r))"
  "StringField (audit_fields r) ''persistenceState'' = Some (RecoveryPersistenceStateName (persistenceState r))"
proof -
  show "StringField (audit_fields r) ''botName'' = audit_botName r"
    by (cases "audit_botName r") (simp_all add: audit_lookup del: map_of_append)
qed (simp_all add: audit_lookup del: map_of_append)

lemma audit_lookup_positions:
  "contains (audit_fields r) ''beforePosition'' \<longleftrightarrow> beforePosition r \<noteq> None"
  "contains (audit_fields r) ''acceptedDestination'' \<longleftrightarrow> acceptedDestination r \<noteq> None"
  "contains (audit_fields r) ''observedPosition'' \<longleftrightarrow> observedPosition r \<noteq> None"
proof -
  show "contains (audit_fields r) ''beforePosition'' \<longleftrightarrow> beforePosition r \<noteq> None"
    by (cases "beforePosition r") (simp_all add: audit_lookup del: map_of_append)
  show "contains (audit_fields r) ''acceptedDestination'' \<longleftrightarrow> acceptedDestination r \<noteq> None"
    by (cases "acceptedDestination r") (simp_all add: audit_lookup del: map_of_append)
  show "contains (audit_fields r) ''observedPosition'' \<longleftrightarrow> observedPosition r \<noteq> None"
    by (cases "observedPosition r") (simp_all add: audit_lookup del: map_of_append)
qed




section \<open>What a rejected record claims\<close>

definition written_once :: "FlatJsonFields \<Rightarrow> string \<Rightarrow> bool" where
  "written_once kvs name \<longleftrightarrow> count_list (map fst kvs) name = 1"

lemma lookup_count: "map_of kvs name = Some v \<Longrightarrow> 0 < count_list (map fst kvs) name"
  by (induction kvs) auto

lemma not_repeated:
  assumes "map_of kvs name = Some v"
  shows "\<not> 1 < count_list (map fst kvs) name \<longleftrightarrow> written_once kvs name"
  using lookup_count [OF assms] unfolding written_once_def by linarith

lemma field_present:
  "UnsignedField kvs name = Some n \<Longrightarrow> \<exists>v. map_of kvs name = Some v"
  "StringField kvs name = Some x \<Longrightarrow> \<exists>v. map_of kvs name = Some v"
  by (auto simp: UnsignedField_def StringField_def split: option.splits)

lemma lenient_parse:
  assumes "flat_object kvs s"
  obtains fs names where "Parse (Some {}) s = Some (fs, Some names)" "map_of fs = map_of kvs"
    "\<And>n. n \<in> names \<longleftrightarrow> 1 < count_list (map fst kvs) n"
  using keep_fields_lenient [of "[]" "{}" kvs] assms
  by (auto simp: Parse_complete contains_def)

lemma same_reads:
  assumes "map_of fs = map_of kvs"
  shows "UnsignedField fs = UnsignedField kvs" "StringField fs = StringField kvs"
  using assms by (auto simp: UnsignedField_def StringField_def fun_eq_iff)

definition once :: "FlatJsonFields \<Rightarrow> string \<Rightarrow> 'a option \<Rightarrow> 'a option" where
  "once kvs name x = (if written_once kvs name then x else None)"

lemma rejected_audit_flat:
  assumes "flat_object kvs s"
  shows "BuildRejectedRecoveryAudit s code ts =
    (if once kvs ''operation'' (StringField kvs ''operation'') = Some ''recover''
     then Some (default_audit\<lparr>timestampMs := ts,
       audit_requestId := once kvs ''requestId'' (UnsignedField kvs ''requestId''),
       audit_botGuid := once kvs ''botGuid'' (GuidField kvs ''botGuid''),
       audit_destination :=
         (case once kvs ''destination'' (StringField kvs ''destination'') of
            None \<Rightarrow> RD_Missing
          | Some dest \<Rightarrow> if dest = ''homebind'' then RD_Homebind else RD_Unsupported),
       outcome := fst (rejected_outcome code), reason := snd (rejected_outcome code)\<rparr>)
     else None)"
proof -
  obtain fs names where p: "Parse (Some {}) s = Some (fs, Some names)" "map_of fs = map_of kvs"
    and n: "\<And>n. n \<in> names \<longleftrightarrow> 1 < count_list (map fst kvs) n"
    using lenient_parse [OF assms] by blast
  note reads = same_reads [OF p(2)]
  have keep: "name \<in> names \<longleftrightarrow> \<not> written_once kvs name" if "map_of kvs name = Some v" for name v
    using not_repeated [OF that] n by blast
  have keepU: "name \<in> names \<longleftrightarrow> \<not> written_once kvs name" if "UnsignedField kvs name = Some x" for name x
    using field_present(1) [OF that] keep by blast
  have keepS: "name \<in> names \<longleftrightarrow> \<not> written_once kvs name" if "StringField kvs name = Some x" for name x
    using field_present(2) [OF that] keep by blast
  have op: "StringField kvs ''operation'' = Some ''recover'' \<and> ''operation'' \<notin> names \<longleftrightarrow>
      once kvs ''operation'' (StringField kvs ''operation'') = Some ''recover''"
    by (cases "StringField kvs ''operation''") (simp_all add: once_def keepS)
  have rid: "(case UnsignedField kvs ''requestId'' of None \<Rightarrow> None
      | Some rid \<Rightarrow> if ''requestId'' \<notin> names then Some rid else None) =
      once kvs ''requestId'' (UnsignedField kvs ''requestId'')"
    by (cases "UnsignedField kvs ''requestId''") (simp_all add: once_def keepU)
  have guid: "(case UnsignedField kvs ''botGuid'' of None \<Rightarrow> None
      | Some guid \<Rightarrow> if IsValidGuid guid \<and> ''botGuid'' \<notin> names then Some (ucast guid) else None) =
      once kvs ''botGuid'' (GuidField kvs ''botGuid'')"
    by (cases "UnsignedField kvs ''botGuid''") (simp_all add: once_def GuidField_def keepU)
  have dest: "(case StringField kvs ''destination'' of None \<Rightarrow> RD_Missing
      | Some dest \<Rightarrow> if ''destination'' \<in> names then RD_Missing
          else if dest = ''homebind'' then RD_Homebind else RD_Unsupported) =
      (case once kvs ''destination'' (StringField kvs ''destination'') of None \<Rightarrow> RD_Missing
      | Some dest \<Rightarrow> if dest = ''homebind'' then RD_Homebind else RD_Unsupported)"
    by (cases "StringField kvs ''destination''") (simp_all add: once_def keepS)
  show ?thesis
    unfolding BuildRejectedRecoveryAudit_def p(1) option.case prod.case reads rid guid dest
    using op by auto
qed

text \<open>
  C34: the audit record of a rejected request. A flat payload gets one exactly when it names the
  operation \<open>recover\<close> and names an operation only once. The record repeats the request id, the bot
  GUID and the destination only where the payload writes that field once and with a valid value, its
  outcome and reason follow from the error, and it never claims a mutation, a position or a save.
\<close>

theorem rejected_audit_spec:
  assumes "flat_object kvs s"
  shows "BuildRejectedRecoveryAudit s code ts =
    (if once kvs ''operation'' (StringField kvs ''operation'') = Some ''recover''
     then Some (default_audit\<lparr>timestampMs := ts,
       audit_requestId := once kvs ''requestId'' (UnsignedField kvs ''requestId''),
       audit_botGuid := once kvs ''botGuid'' (GuidField kvs ''botGuid''),
       audit_destination :=
         (case once kvs ''destination'' (StringField kvs ''destination'') of
            None \<Rightarrow> RD_Missing
          | Some dest \<Rightarrow> if dest = ''homebind'' then RD_Homebind else RD_Unsupported),
       outcome := fst (rejected_outcome code), reason := snd (rejected_outcome code)\<rparr>)
     else None)"
  using assms by (rule rejected_audit_flat)

theorem rejected_audit_spec_witness:
  "BuildRejectedRecoveryAudit (render_object [(''operation'', WireString ''recover''), (''botGuid'', WireNumber 12),
      (''requestId'', WireNumber 1), (''requestId'', WireNumber 2), (''destination'', WireString ''moon'')])
      EC_UnsupportedDestination 77 =
    Some (default_audit\<lparr>timestampMs := 77, audit_botGuid := Some 12, audit_destination := RD_Unsupported,
      outcome := RO_UnsupportedDestination, reason := RR_DestinationNotHomebind\<rparr>)"
proof -
  let ?kvs = "[(''operation'', WireString ''recover''), (''botGuid'', WireNumber 12),
      (''requestId'', WireNumber 1), (''requestId'', WireNumber 2), (''destination'', WireString ''moon'')]"
  have "(12 :: uint64) \<le> uint32_max" by (simp add: uint32_max_def)
  with rejected_audit_spec [OF flat_object_render [of ?kvs], of EC_UnsupportedDestination 77] show ?thesis
    by (simp add: once_def written_once_def StringField_def UnsignedField_def GuidField_def IsValidGuid_def
        rejected_outcome_def default_audit_def)
qed

end
