(* ===== verification/Condition.thy ===== *)
theory Condition
  imports Request_Contract
begin

text \<open>
  \<open>EvaluateVerificationCondition\<close>: the wait conditions a client can ask about, evaluated on the
  inspection of a bot. The inspection is built by the playerbots module; the record below holds the
  parts of it the condition reads, its integers as the \<open>uint64\<close> values the comparisons convert them
  to and its fixed character arrays as all their characters. The specification \<open>satisfies\<close> says what each typed
  condition means; the evaluation of a parsed check request agrees with it.
\<close>

section \<open>The inspection\<close>

record PlayerbotInspectionSkill =
  skill_id :: uint64
  skill_value :: uint64

record PlayerbotInspectionItem =
  item_id :: uint64
  item_count :: uint64

record PlayerbotVerificationActionAttempt =
  attempt_sequence :: uint64
  attempt_success :: bool
  actionName :: string
  nameTruncated :: bool

record PlayerbotVerificationInspection =
  transport_attached :: bool
  transport_entry :: uint64
  position_mapId :: uint64
  moneyCopper :: uint64
  knownRecipeSpellIds :: "uint64 list"
  skills :: "PlayerbotInspectionSkill list"
  inventory :: "PlayerbotInspectionItem list"
  history_count :: nat
  attempts :: "PlayerbotVerificationActionAttempt list"
  economy_sequence :: uint64
  economy_outcome :: EconomyOutcome

section \<open>Reading names and parameters\<close>

definition strnlen :: "string \<Rightarrow> nat \<Rightarrow> nat" where
  "strnlen s n = length (takeWhile (\<lambda>c. ord c \<noteq> 0) (take n s))"

definition BoundedText :: "string \<Rightarrow> string" where
  "BoundedText chars = take (strnlen chars (length chars)) chars"

definition ActionAttemptName :: "nat \<Rightarrow> PlayerbotVerificationActionAttempt \<Rightarrow> string" where
  "ActionAttemptName capacity attempt = take (strnlen (actionName attempt) capacity) (actionName attempt)"

definition ActionAttemptNameMatches :: "nat \<Rightarrow> PlayerbotVerificationActionAttempt \<Rightarrow> string \<Rightarrow> bool" where
  "ActionAttemptNameMatches capacity attempt requested =
     (if nameTruncated attempt then False else ActionAttemptName capacity attempt = requested)"

definition RequestNumber :: "Request \<Rightarrow> string \<Rightarrow> uint64 \<Rightarrow> uint64" where
  "RequestNumber req name fallback = (case numbers req name of None \<Rightarrow> fallback | Some v \<Rightarrow> v)"

definition RequestString :: "Request \<Rightarrow> string \<Rightarrow> string" where
  "RequestString req name = (case strings req name of None \<Rightarrow> [] | Some v \<Rightarrow> v)"

section \<open>The evaluation\<close>

fun action_loop ::
  "nat \<Rightarrow> uint64 \<Rightarrow> string \<Rightarrow> string \<Rightarrow> PlayerbotVerificationActionAttempt list \<Rightarrow> bool" where
  "action_loop capacity afterSequence name res [] = False"
| "action_loop capacity afterSequence name res (attempt # rest) =
     (if attempt_sequence attempt \<le> afterSequence \<or> \<not> ActionAttemptNameMatches capacity attempt name
      then action_loop capacity afterSequence name res rest
      else if res = ''either'' \<or> (res = ''success'') = attempt_success attempt then True
      else action_loop capacity afterSequence name res rest)"

definition EvaluateVerificationCondition ::
  "nat \<Rightarrow> PlayerbotVerificationInspection \<Rightarrow> Request \<Rightarrow> bool" where
  "EvaluateVerificationCondition capacity inspection req =
    (if condition req = ''transport_attached'' then
       (if \<not> transport_attached inspection then False
        else (let entry = RequestNumber req ''transportEntry'' 0
              in entry = 0 \<or> transport_entry inspection = entry))
     else if condition req = ''transport_detached'' then \<not> transport_attached inspection
     else if condition req = ''map'' then position_mapId inspection = RequestNumber req ''mapId'' 0
     else if condition req = ''money_at_most'' then moneyCopper inspection \<le> RequestNumber req ''maximumCopper'' 0
     else if condition req = ''money_decrease'' then moneyCopper inspection < RequestNumber req ''baselineCopper'' 0
     else if condition req = ''known_recipe'' then
       (let spellId = RequestNumber req ''spellId'' 0
        in find (\<lambda>spell. spell = spellId) (knownRecipeSpellIds inspection) \<noteq> None)
     else if condition req = ''profession_skill'' then
       (let skillId = RequestNumber req ''skillId'' 0; minimumValue = RequestNumber req ''minimumValue'' 0
        in case find (\<lambda>candidate. skill_id candidate = skillId) (skills inspection) of
             None \<Rightarrow> False
           | Some skill \<Rightarrow> minimumValue \<le> skill_value skill)
     else if condition req = ''inventory'' then
       (let itemId = RequestNumber req ''itemId'' 0; minimumCount = RequestNumber req ''minimumCount'' 0
        in case find (\<lambda>candidate. item_id candidate = itemId) (inventory inspection) of
             None \<Rightarrow> False
           | Some item \<Rightarrow> minimumCount \<le> item_count item)
     else if condition req = ''action'' then
       (let afterSequence = RequestNumber req ''afterSequence'' 0; name = RequestString req ''actionName'';
            res = RequestString req ''actionResult''
        in action_loop capacity afterSequence name res (take (history_count inspection) (attempts inspection)))
     else if condition req = ''economy'' then
       (if economy_sequence inspection \<le> RequestNumber req ''afterSequence'' 0 then False
        else EconomyOutcomeToken (economy_outcome inspection) = RequestString req ''economyOutcome'')
     else False)"

section \<open>What a condition means\<close>

definition recorded_name :: "nat \<Rightarrow> PlayerbotVerificationActionAttempt \<Rightarrow> string" where
  "recorded_name capacity attempt = takeWhile (\<lambda>c. ord c \<noteq> 0) (take capacity (actionName attempt))"

fun result_fits :: "ActionResult \<Rightarrow> bool \<Rightarrow> bool" where
  "result_fits AR_Success b \<longleftrightarrow> b"
| "result_fits AR_Failure b \<longleftrightarrow> \<not> b"
| "result_fits AR_Either b \<longleftrightarrow> True"

fun satisfies :: "nat \<Rightarrow> PlayerbotVerificationInspection \<Rightarrow> typed_condition \<Rightarrow> bool" where
  "satisfies capacity insp (CTransportAttached entry) \<longleftrightarrow>
     transport_attached insp \<and> (\<forall>e. entry = Some e \<longrightarrow> transport_entry insp = ucast e)"
| "satisfies capacity insp CTransportDetached \<longleftrightarrow> \<not> transport_attached insp"
| "satisfies capacity insp (CMap m) \<longleftrightarrow> position_mapId insp = ucast m"
| "satisfies capacity insp (CAction after name res) \<longleftrightarrow>
     (\<exists>i < min (history_count insp) (length (attempts insp)).
        after < attempt_sequence (attempts insp ! i) \<and> \<not> nameTruncated (attempts insp ! i) \<and>
        recorded_name capacity (attempts insp ! i) = name \<and> result_fits res (attempt_success (attempts insp ! i)))"
| "satisfies capacity insp (CProfessionSkill skill minimum) \<longleftrightarrow>
     (\<exists>i < length (skills insp). skill_id (skills insp ! i) = ucast skill \<and>
        (\<forall>j < i. skill_id (skills insp ! j) \<noteq> ucast skill) \<and> ucast minimum \<le> skill_value (skills insp ! i))"
| "satisfies capacity insp (CInventory item minimum) \<longleftrightarrow>
     (\<exists>i < length (inventory insp). item_id (inventory insp ! i) = ucast item \<and>
        (\<forall>j < i. item_id (inventory insp ! j) \<noteq> ucast item) \<and> ucast minimum \<le> item_count (inventory insp ! i))"
| "satisfies capacity insp (CMoneyAtMost maximum) \<longleftrightarrow> moneyCopper insp \<le> maximum"
| "satisfies capacity insp (CMoneyDecrease baseline) \<longleftrightarrow> moneyCopper insp < baseline"
| "satisfies capacity insp (CKnownRecipe spell) \<longleftrightarrow> ucast spell \<in> set (knownRecipeSpellIds insp)"
| "satisfies capacity insp (CEconomy after eo) \<longleftrightarrow> after < economy_sequence insp \<and> economy_outcome insp = eo"

section \<open>Agreement\<close>

lemma BoundedText_takeWhile: "BoundedText chars = takeWhile (\<lambda>c. ord c \<noteq> 0) chars"
  by (simp add: BoundedText_def strnlen_def takeWhile_eq_take [symmetric])

lemma ActionAttemptName_recorded: "ActionAttemptName capacity attempt = recorded_name capacity attempt"
proof -
  let ?s = "actionName attempt" and ?P = "\<lambda>c. ord c \<noteq> 0"
  have "length (takeWhile ?P (take capacity ?s)) \<le> capacity"
    using length_takeWhile_le [of ?P "take capacity ?s"] by simp
  then have "take (length (takeWhile ?P (take capacity ?s))) ?s =
      take (length (takeWhile ?P (take capacity ?s))) (take capacity ?s)"
    by (simp add: min_def)
  also have "\<dots> = takeWhile ?P (take capacity ?s)" by (rule takeWhile_eq_take [symmetric])
  finally show ?thesis by (simp add: ActionAttemptName_def recorded_name_def strnlen_def)
qed

lemma action_result_name_fits:
  "action_result_name res = ''either'' \<or> (action_result_name res = ''success'') = b \<longleftrightarrow> result_fits res b"
  by (cases res) auto

lemma action_loop_iff:
  "action_loop capacity after name (action_result_name res) ts \<longleftrightarrow>
     (\<exists>i < length ts. after < attempt_sequence (ts ! i) \<and> \<not> nameTruncated (ts ! i) \<and>
        recorded_name capacity (ts ! i) = name \<and> result_fits res (attempt_success (ts ! i)))"
proof -
  have "action_loop capacity after name (action_result_name res) ts \<longleftrightarrow>
      list_ex (\<lambda>t. after < attempt_sequence t \<and> \<not> nameTruncated t \<and> recorded_name capacity t = name \<and>
        result_fits res (attempt_success t)) ts"
    by (induction ts) (auto simp: action_result_name_fits ActionAttemptNameMatches_def ActionAttemptName_recorded)
  then show ?thesis by (simp add: list_ex_length)
qed

lemma find_first:
  "(case find P xs of None \<Rightarrow> False | Some x \<Rightarrow> Q x) \<longleftrightarrow>
     (\<exists>i < length xs. P (xs ! i) \<and> (\<forall>j < i. \<not> P (xs ! j)) \<and> Q (xs ! i))"
proof (cases "find P xs")
  case None
  then have "\<forall>x \<in> set xs. \<not> P x" by (simp add: find_None_iff)
  with None show ?thesis by auto
next
  case (Some y)
  then obtain i where i: "i < length xs" "P (xs ! i)" "y = xs ! i" "\<forall>j < i. \<not> P (xs ! j)"
    by (auto simp: find_Some_iff)
  have "k = i" if "P (xs ! k)" "\<forall>j < k. \<not> P (xs ! j)" for k
    using that i(2,4) by (metis linorder_neqE_nat)
  then have "(\<exists>k < length xs. P (xs ! k) \<and> (\<forall>j < k. \<not> P (xs ! j)) \<and> Q (xs ! k)) \<longleftrightarrow> Q (xs ! i)"
    using i(1,2,4) by blast
  with Some i(3) show ?thesis by simp
qed

lemma find_member: "(\<exists>z. find (\<lambda>y. y = x) xs = Some z) \<longleftrightarrow> x \<in> set xs"
  by (cases "find (\<lambda>y. y = x) xs") (auto simp: find_None_iff find_Some_iff)

lemma EconomyOutcomeToken_inject [simp]: "EconomyOutcomeToken a = EconomyOutcomeToken b \<longleftrightarrow> a = b"
  by (cases a; cases b) simp_all

lemmas request_reads = EvaluateVerificationCondition_def RequestNumber_def RequestString_def Let_def

lemma condition_agrees:
  assumes "valid_condition c"
  shows "EvaluateVerificationCondition capacity insp (concretize rid (TCheck guid c)) \<longleftrightarrow> satisfies capacity insp c"
proof (cases c)
  case (CTransportAttached entry)
  with assms show ?thesis by (cases entry) (auto simp: request_reads)
next
  case (CAction after name res)
  then show ?thesis by (auto simp: request_reads action_loop_iff)
next
  case (CProfessionSkill skill minimum)
  then show ?thesis by (simp add: request_reads find_first)
next
  case (CInventory item minimum)
  then show ?thesis by (simp add: request_reads find_first)
next
  case (CKnownRecipe spell)
  then show ?thesis by (simp add: request_reads find_member)
qed (auto simp: request_reads)

text \<open>
  A check answers the question that was asked. For every valid typed condition, evaluating the
  request the parser makes of it gives exactly what the condition means on the inspection: the
  boundaries of the numeric comparisons, the first matching skill or item, an action newer than the
  baseline with the exact name and result, a truncated name never matching.
\<close>

theorem check_answers_condition:
  assumes "valid_condition c"
  shows "EvaluateVerificationCondition capacity insp (concretize rid (TCheck guid c)) \<longleftrightarrow> satisfies capacity insp c"
  using assms by (rule condition_agrees)

definition sample_inspection :: PlayerbotVerificationInspection where
  "sample_inspection = \<lparr>transport_attached = True, transport_entry = 20808, position_mapId = 1, moneyCopper = 500,
     knownRecipeSpellIds = [2018], skills = [\<lparr>skill_id = 164, skill_value = 75\<rparr>],
     inventory = [\<lparr>item_id = 2840, item_count = 3\<rparr>], history_count = 1,
     attempts = [\<lparr>attempt_sequence = 7, attempt_success = True, actionName = ''loot'', nameTruncated = False\<rparr>],
     economy_sequence = 4, economy_outcome = EO_Released\<rparr>"

theorem check_answers_condition_witness:
  "EvaluateVerificationCondition 64 sample_inspection (concretize 1 (TCheck 9 (CTransportAttached (Some 20808))))
   \<longleftrightarrow> satisfies 64 sample_inspection (CTransportAttached (Some 20808))"
  by (rule check_answers_condition) simp

end
