(* ===== verification/Result_State.thy ===== *)
theory Result_State
  imports Protocol_Types
begin

text \<open>
  \<open>PlayerbotVerificationResult\<close>: the state the socket thread and the world thread share for one
  request. Every method takes the mutex for its whole body, so a method is one atomic step from the
  state before it to the state after it; \<open>Wait\<close> gives up the mutex while it sleeps, and what it
  answers is the value of its predicate at the moment it wakes up for good. The interface
  \<open>one_shot\<close> states the contract of the claim: a request is executed at most once, and never after
  its caller was told that it timed out.
\<close>

section \<open>The shared state and its methods\<close>

record PlayerbotVerificationResult =
  completed :: bool
  abandoned :: bool
  claimed :: bool
  shared_response :: Response

definition fresh_result :: PlayerbotVerificationResult where
  "fresh_result = \<lparr>completed = False, abandoned = False, claimed = False,
     shared_response = Failure EC_None []\<rparr>"

definition TryClaim :: "PlayerbotVerificationResult \<Rightarrow> bool \<times> PlayerbotVerificationResult" where
  "TryClaim s = (if abandoned s \<or> claimed s then (False, s) else (True, s\<lparr>claimed := True\<rparr>))"

definition Abandon :: "PlayerbotVerificationResult \<Rightarrow> bool \<times> PlayerbotVerificationResult" where
  "Abandon s = (if claimed s \<or> completed s then (False, s) else (True, s\<lparr>abandoned := True\<rparr>))"

definition Complete :: "Response \<Rightarrow> PlayerbotVerificationResult \<Rightarrow> PlayerbotVerificationResult" where
  "Complete r s = (if completed s then s else s\<lparr>completed := True, shared_response := r\<rparr>)"

definition IsCompleted :: "PlayerbotVerificationResult \<Rightarrow> bool" where
  "IsCompleted s = completed s"

text \<open>The answer of \<open>Wait\<close> for the state it sees when the wait ends.\<close>

definition Wait :: "PlayerbotVerificationResult \<Rightarrow> Response option" where
  "Wait s = (if completed s then Some (shared_response s) else None)"

lemmas result_defs = TryClaim_def Abandon_def Complete_def IsCompleted_def Wait_def

lemma fresh_result_simps [simp]:
  "\<not> completed fresh_result" "\<not> abandoned fresh_result" "\<not> claimed fresh_result"
  by (simp_all add: fresh_result_def)

section \<open>The one-shot contract\<close>

text \<open>
  The contract of a state that one side may claim and the other side may give up. \<open>claimable\<close> says
  that a claim would succeed, \<open>held\<close> that one has succeeded.
\<close>

datatype 'r op = Claim | GiveUp | Publish 'r

locale one_shot =
  fixes claim :: "'s \<Rightarrow> bool \<times> 's"
    and give_up :: "'s \<Rightarrow> bool \<times> 's"
    and publish :: "'r \<Rightarrow> 's \<Rightarrow> 's"
    and claimable :: "'s \<Rightarrow> bool"
    and held :: "'s \<Rightarrow> bool"
  assumes claim_result: "fst (claim s) \<longleftrightarrow> claimable s"
    and claim_held: "held (snd (claim s)) \<longleftrightarrow> claimable s \<or> held s"
    and claim_closes: "\<not> claimable (snd (claim s))"
    and give_up_result: "fst (give_up s) \<Longrightarrow> \<not> held s \<and> \<not> claimable (snd (give_up s))"
    and give_up_keeps: "claimable (snd (give_up s)) \<Longrightarrow> claimable s"
    and give_up_held: "held (snd (give_up s)) \<longleftrightarrow> held s"
    and publish_keeps: "claimable (publish r s) \<longleftrightarrow> claimable s"
    and publish_held: "held (publish r s) \<longleftrightarrow> held s"
    and held_not_claimable: "held s \<Longrightarrow> \<not> claimable s"
begin

fun perform :: "'r op \<Rightarrow> 's \<Rightarrow> bool \<times> 's" where
  "perform Claim s = claim s"
| "perform GiveUp s = give_up s"
| "perform (Publish r) s = (False, publish r s)"

fun history :: "'r op list \<Rightarrow> 's \<Rightarrow> ('r op \<times> bool) list" where
  "history [] s = []"
| "history (x # xs) s = (case perform x s of (b, s') \<Rightarrow> (x, b) # history xs s')"

lemma history_Cons: "history (x # xs) s = (x, fst (perform x s)) # history xs (snd (perform x s))"
  by (simp add: case_prod_beta)

lemma closed_stays:
  "\<not> claimable s \<Longrightarrow> \<not> claimable (snd (perform x s)) \<and> (held (snd (perform x s)) \<longleftrightarrow> held s)"
  using give_up_keeps claim_held claim_closes publish_keeps publish_held give_up_held by (cases x) auto

lemma closed_no_claim: "\<not> claimable s \<Longrightarrow> (Claim, True) \<notin> set (history xs s)"
proof (induction xs arbitrary: s)
  case (Cons x xs)
  have "\<not> (x = Claim \<and> fst (perform x s))" using Cons.prems claim_result by auto
  with Cons.IH [of "snd (perform x s)"] closed_stays [OF Cons.prems, of x] show ?case
    by (auto simp: history_Cons simp del: history.simps)
qed simp

lemma held_no_give_up: "held s \<Longrightarrow> (GiveUp, True) \<notin> set (history xs s)"
proof (induction xs arbitrary: s)
  case (Cons x xs)
  have "\<not> (x = GiveUp \<and> fst (perform x s))" using Cons.prems give_up_result by auto
  moreover have "held (snd (perform x s))"
    using closed_stays [OF held_not_claimable [OF Cons.prems], of x] Cons.prems by simp
  ultimately show ?case using Cons.IH [of "snd (perform x s)"]
    by (auto simp: history_Cons simp del: history.simps)
qed simp

lemma claimed_once: "count_list (history xs s) (Claim, True) \<le> 1"
proof (induction xs arbitrary: s)
  case (Cons x xs)
  show ?case
  proof (cases "x = Claim \<and> fst (perform x s)")
    case True
    then have "\<not> claimable (snd (perform x s))" using claim_closes by auto
    from closed_no_claim [OF this, of xs] True show ?thesis
      by (simp add: history_Cons count_list_0_iff del: history.simps)
  next
    case False
    with Cons.IH [of "snd (perform x s)"] show ?thesis by (auto simp: history_Cons simp del: history.simps)
  qed
qed simp

lemma one_winner: "(Claim, True) \<notin> set (history xs s) \<or> (GiveUp, True) \<notin> set (history xs s)"
proof (induction xs arbitrary: s)
  case (Cons x xs)
  consider "x = Claim" "fst (perform x s)" | "x = GiveUp" "fst (perform x s)"
    | "x = Claim \<longrightarrow> \<not> fst (perform x s)" "x = GiveUp \<longrightarrow> \<not> fst (perform x s)" by blast
  then show ?case
  proof cases
    case 1
    then have "held (snd (perform x s))" using claim_held claim_result by auto
    from held_no_give_up [OF this, of xs] 1 show ?thesis by (simp add: history_Cons del: history.simps)
  next
    case 2
    then have "\<not> claimable (snd (perform x s))" using give_up_result by auto
    from closed_no_claim [OF this, of xs] 2 show ?thesis by (simp add: history_Cons del: history.simps)
  next
    case 3
    with Cons.IH [of "snd (perform x s)"] show ?thesis by (auto simp: history_Cons simp del: history.simps)
  qed
qed simp

end

definition claimable :: "PlayerbotVerificationResult \<Rightarrow> bool" where
  "claimable s \<longleftrightarrow> \<not> abandoned s \<and> \<not> claimed s"

interpretation shared: one_shot TryClaim Abandon Complete claimable claimed
  by unfold_locales (auto simp: result_defs claimable_def split: if_splits)

section \<open>What the methods guarantee\<close>

definition call_method :: "Response op \<Rightarrow> PlayerbotVerificationResult \<Rightarrow> bool \<times> PlayerbotVerificationResult" where
  "call_method x s = (case x of Claim \<Rightarrow> TryClaim s | GiveUp \<Rightarrow> Abandon s | Publish r \<Rightarrow> (False, Complete r s))"

fun method_answers :: "Response op list \<Rightarrow> PlayerbotVerificationResult \<Rightarrow> (Response op \<times> bool) list" where
  "method_answers [] s = []"
| "method_answers (x # xs) s = (case call_method x s of (b, s') \<Rightarrow> (x, b) # method_answers xs s')"

lemma answers_shared: "method_answers xs s = shared.history xs s"
proof (induction xs arbitrary: s)
  case (Cons x xs)
  then show ?case by (cases x) (simp_all add: call_method_def case_prod_beta)
qed simp

text \<open>
  C28: whatever order the two threads call the methods in, and however often, at most one claim
  succeeds, and a request is never both claimed and abandoned: the world thread does not execute a
  request whose caller was told it timed out, and does not execute one twice.
\<close>

theorem claim_or_abandon:
  "count_list (method_answers xs s) (Claim, True) \<le> 1 \<and>
   \<not> {(Claim, True), (GiveUp, True)} \<subseteq> set (method_answers xs s)"
  unfolding answers_shared using shared.claimed_once shared.one_winner by blast

text \<open>The state after a sequence of calls.\<close>

fun after :: "Response op list \<Rightarrow> PlayerbotVerificationResult \<Rightarrow> PlayerbotVerificationResult" where
  "after [] s = s"
| "after (x # xs) s = after xs (snd (call_method x s))"

lemma after_completed:
  "completed s \<Longrightarrow> completed (after xs s) \<and> shared_response (after xs s) = shared_response s"
proof (induction xs arbitrary: s)
  case (Cons x xs)
  then show ?case by (cases x) (auto simp: call_method_def result_defs)
qed simp

text \<open>
  C27: the first published response is the one every later \<open>Wait\<close> answers; a later \<open>Complete\<close> cannot
  replace it, and before the first one \<open>Wait\<close> has no answer.
\<close>

theorem first_response_wins:
  "Wait (after xs fresh_result) =
     (case filter (\<lambda>x. \<exists>r. x = Publish r) xs of Publish r # _ \<Rightarrow> Some r | _ \<Rightarrow> None)"
proof -
  have "\<not> completed s \<Longrightarrow> Wait (after xs s) =
     (case filter (\<lambda>x. \<exists>r. x = Publish r) xs of Publish r # _ \<Rightarrow> Some r | _ \<Rightarrow> None)" for s
  proof (induction xs arbitrary: s)
    case (Cons x xs)
    show ?case
    proof (cases x)
      case (Publish r)
      have "completed (Complete r s) \<and> shared_response (Complete r s) = r"
        using Cons.prems by (simp add: Complete_def)
      with after_completed [of "Complete r s" xs] Publish show ?thesis
        by (simp add: call_method_def Wait_def)
    next
      case Claim
      with Cons.IH [of "snd (TryClaim s)"] Cons.prems show ?thesis by (simp add: call_method_def TryClaim_def)
    next
      case GiveUp
      with Cons.IH [of "snd (Abandon s)"] Cons.prems show ?thesis by (simp add: call_method_def Abandon_def)
    qed
  qed (simp add: Wait_def)
  then show ?thesis by simp
qed

end
