(* ===== verification/Dispatch.thy ===== *)
theory Dispatch
  imports Result_State Response_Codec Recovery_Audit
begin

text \<open>
  The way of one request from the socket thread to the world thread and back
  (\<open>PlayerbotVerificationOperation.cpp\<close>): the recovery answers, the operation the world thread executes
  and \<open>DispatchVerificationRequest\<close>, which queues it and waits a bounded time. What the world thread
  does with the request, and which exceptions that may throw, is a parameter here; the handlers that
  fill it in are in later theories. The system clock that stamps audit records is a parameter too.
\<close>

section \<open>Recovery answers\<close>

definition NewRecoveryRecord :: "uint64 \<Rightarrow> Request \<Rightarrow> RecoveryAuditRecord" where
  "NewRecoveryRecord now req = default_audit\<lparr>timestampMs := now, audit_requestId := Some (requestId req),
     audit_botGuid := Some (botGuid req), audit_destination := RD_Homebind\<rparr>"

definition RecoveryResponse :: "RecoveryAuditRecord \<Rightarrow> Response" where
  "RecoveryResponse record = (Success (SerializeRecoveryAuditRecord record))\<lparr>recoveryAudit := Some record\<rparr>"

definition RecoveryOutcomeResponse ::
  "uint64 \<Rightarrow> Request \<Rightarrow> RecoveryOutcome \<Rightarrow> RecoveryReason \<Rightarrow> RecoveryMutationState \<Rightarrow> Response" where
  "RecoveryOutcomeResponse now req ro rr ms =
     RecoveryResponse ((NewRecoveryRecord now req)\<lparr>outcome := ro, reason := rr, mutationState := ms\<rparr>)"

lemma RecoveryResponse_simps [simp]:
  "ok (RecoveryResponse a)" "recoveryAudit (RecoveryResponse a) = Some a"
  "resultJson (RecoveryResponse a) = SerializeRecoveryAuditRecord a"
  by (simp_all add: RecoveryResponse_def)

lemma RecoveryOutcomeResponse_simps [simp]:
  "ok (RecoveryOutcomeResponse now req ro rr ms)"
  "recoveryAudit (RecoveryOutcomeResponse now req ro rr ms) =
     Some ((NewRecoveryRecord now req)\<lparr>outcome := ro, reason := rr, mutationState := ms\<rparr>)"
  by (simp_all add: RecoveryOutcomeResponse_def)

text \<open>The two forms of an answer the dispatcher makes up: a recovery answer or a plain error.\<close>

definition refusal ::
  "uint64 \<Rightarrow> Request \<Rightarrow> RecoveryOutcome \<Rightarrow> RecoveryReason \<Rightarrow> RecoveryMutationState \<Rightarrow> ErrorCode \<Rightarrow> Response" where
  "refusal now req ro rr ms code =
     (if operation req = Op_Recover then RecoveryOutcomeResponse now req ro rr ms else Failure code [])"

definition shutdown_answer :: "uint64 \<Rightarrow> Request \<Rightarrow> Response" where
  "shutdown_answer now req = refusal now req RO_RecoveryFailed RR_ShuttingDown MS_NotStarted EC_Shutdown"

definition queue_full_answer :: "uint64 \<Rightarrow> Request \<Rightarrow> Response" where
  "queue_full_answer now req = refusal now req RO_RecoveryFailed RR_QueueFull MS_NotStarted EC_QueueFull"

definition unclaimed_answer :: "uint64 \<Rightarrow> Request \<Rightarrow> Response" where
  "unclaimed_answer now req =
     refusal now req RO_RecoveryTimedOut RR_QueueTimeoutBeforeClaim MS_NotStarted EC_Timeout"

definition unfinished_answer :: "uint64 \<Rightarrow> Request \<Rightarrow> Response" where
  "unfinished_answer now req =
     refusal now req RO_RecoveryTimedOut RR_ExecutionTimeoutAfterClaim MS_UnknownAfterExecutionStarted EC_Timeout"

definition internal_error_answer :: "uint64 \<Rightarrow> Request \<Rightarrow> Response" where
  "internal_error_answer now req =
     refusal now req RO_RecoveryFailed RR_InternalError MS_UnknownAfterExecutionStarted EC_InternalError"

lemmas answer_defs = shutdown_answer_def queue_full_answer_def unclaimed_answer_def unfinished_answer_def
  internal_error_answer_def refusal_def

section \<open>The operation on the world thread\<close>

definition IsValid :: bool where "IsValid = True"
definition GetPriority :: uint32 where "GetPriority = 50"
definition GetName :: string where "GetName = ''Playerbot verification operation''"

definition GetBotGuid :: "(uint32 \<Rightarrow> 'guid) \<Rightarrow> 'guid \<Rightarrow> Request \<Rightarrow> 'guid" where
  "GetBotGuid MakePlayerGuid empty_guid req = (if botGuid req \<noteq> 0 then MakePlayerGuid (botGuid req) else empty_guid)"

text \<open>The response of an execution: what the handler returned, or an internal error when it threw.\<close>

definition execution_response :: "uint64 \<Rightarrow> Request \<Rightarrow> exn + Response \<Rightarrow> Response" where
  "execution_response now req result =
     (case result of
        Inr response \<Rightarrow> response
      | Inl (StdException what) \<Rightarrow> internal_error_answer now req
      | Inl OtherException \<Rightarrow> internal_error_answer now req)"

definition Execute ::
  "(Request \<Rightarrow> ('w, Response) comp) \<Rightarrow> uint64 \<Rightarrow> Request \<Rightarrow> PlayerbotVerificationResult option \<Rightarrow> 'w \<Rightarrow>
    bool \<times> PlayerbotVerificationResult option \<times> 'w" where
  "Execute handle now req result w =
     (case result of
        None \<Rightarrow> (False, None, w)
      | Some s \<Rightarrow>
          (case TryClaim s of
             (False, s') \<Rightarrow> (False, Some s', w)
           | (True, s') \<Rightarrow>
               (case handle req w of
                  (res, w') \<Rightarrow>
                    (let response = execution_response now req res
                     in (ok response, Some (Complete response s'), w')))))"

section \<open>The dispatcher\<close>

text \<open>
  \<open>acceptingRequests\<close> is a parameter of the function, and so is what happens to the shared state
  between two of its own accesses to it: \<open>during i\<close> is the effect of the world thread on it during
  the first wait, between the wait and \<open>Abandon\<close>, and during the grace. The step relation below
  derives these effects from the interleaving of the two threads.
\<close>

definition PLAYERBOT_VERIFICATION_DEADLINE :: nat where "PLAYERBOT_VERIFICATION_DEADLINE = 5000"
definition PLAYERBOT_VERIFICATION_COMPLETION_GRACE :: nat where "PLAYERBOT_VERIFICATION_COMPLETION_GRACE = 250"

definition DispatchVerificationRequest ::
  "bool \<Rightarrow> bool \<Rightarrow> (nat \<Rightarrow> PlayerbotVerificationResult \<Rightarrow> PlayerbotVerificationResult) \<Rightarrow> uint64 \<Rightarrow> Request \<Rightarrow> Response" where
  "DispatchVerificationRequest accepting queued during now req =
     (if \<not> accepting then shutdown_answer now req
      else if \<not> queued then queue_full_answer now req
      else
        (let waited = during 0 fresh_result
         in case Wait waited of
              Some response \<Rightarrow> response
            | None \<Rightarrow>
                (case Abandon (during 1 waited) of
                   (True, s) \<Rightarrow> unclaimed_answer now req
                 | (False, s) \<Rightarrow>
                     (case Wait (during 2 s) of
                        None \<Rightarrow> unfinished_answer now req
                      | Some response \<Rightarrow> response))))"

section \<open>The two threads as a step relation\<close>

text \<open>
  One request with the thread that serves the socket, the world thread and the main thread that
  opens and closes the gate. Every step is one locked access or one unshared action of one thread,
  and the threads interleave freely. The operation may be executed by the world thread again and
  again, or never: what the queue of the server does with it is not under \<open>src/\<close>, and nothing below
  depends on it. \<open>clock\<close> is the steady clock in milliseconds.
\<close>

datatype socket_pc =
    S_Enter | S_Enqueue | S_Wait nat | S_Abandon | S_Grace nat | S_Answered Response

datatype world_pc =
    W_Absent | W_Queued | W_Claimed | W_Executed Response | W_Done bool

datatype event =
    E_Gate bool | E_Enter | E_Queue bool | E_Wake | E_Deadline | E_Abandon bool | E_GraceWake | E_GraceEnd
  | E_Claim bool | E_Run | E_Complete | E_Tick | E_World

record 'w dispatch_state =
  gate :: bool
  shared_result :: PlayerbotVerificationResult
  socket :: socket_pc
  worker :: world_pc
  clock :: nat
  world :: 'w

record 'w dispatch_env =
  the_request :: Request
  the_timeout :: nat
  the_handler :: "Request \<Rightarrow> ('w, Response) comp"
  system_clock :: "nat \<Rightarrow> uint64"

abbreviation stamp :: "'w dispatch_env \<Rightarrow> 'w dispatch_state \<Rightarrow> uint64" where
  "stamp env s \<equiv> system_clock env (clock s)"

inductive dstep :: "'w dispatch_env \<Rightarrow> 'w dispatch_state \<Rightarrow> event \<Rightarrow> 'w dispatch_state \<Rightarrow> bool"
  for env where
  SetPlayerbotVerificationAcceptingRequests:
    "dstep env s (E_Gate b) (s\<lparr>gate := b\<rparr>)"
| enter_closed:
    "socket s = S_Enter \<Longrightarrow> \<not> gate s \<Longrightarrow>
     dstep env s E_Enter (s\<lparr>socket := S_Answered (shutdown_answer (stamp env s) (the_request env))\<rparr>)"
| enter_open:
    "socket s = S_Enter \<Longrightarrow> gate s \<Longrightarrow> dstep env s E_Enter (s\<lparr>socket := S_Enqueue\<rparr>)"
| queue_full:
    "socket s = S_Enqueue \<Longrightarrow>
     dstep env s (E_Queue False) (s\<lparr>socket := S_Answered (queue_full_answer (stamp env s) (the_request env))\<rparr>)"
| queue_taken:
    "socket s = S_Enqueue \<Longrightarrow>
     dstep env s (E_Queue True) (s\<lparr>socket := S_Wait (clock s + the_timeout env), worker := W_Queued\<rparr>)"
| wake:
    "socket s = S_Wait d \<Longrightarrow> Wait (shared_result s) = Some r \<Longrightarrow>
     dstep env s E_Wake (s\<lparr>socket := S_Answered r\<rparr>)"
| deadline:
    "socket s = S_Wait d \<Longrightarrow> Wait (shared_result s) = None \<Longrightarrow> d \<le> clock s \<Longrightarrow>
     dstep env s E_Deadline (s\<lparr>socket := S_Abandon\<rparr>)"
| abandon_won:
    "socket s = S_Abandon \<Longrightarrow> Abandon (shared_result s) = (True, sh) \<Longrightarrow>
     dstep env s (E_Abandon True) (s\<lparr>shared_result := sh,
       socket := S_Answered (unclaimed_answer (stamp env s) (the_request env))\<rparr>)"
| abandon_lost:
    "socket s = S_Abandon \<Longrightarrow> Abandon (shared_result s) = (False, sh) \<Longrightarrow>
     dstep env s (E_Abandon False) (s\<lparr>shared_result := sh,
       socket := S_Grace (clock s + PLAYERBOT_VERIFICATION_COMPLETION_GRACE)\<rparr>)"
| grace_wake:
    "socket s = S_Grace d \<Longrightarrow> Wait (shared_result s) = Some r \<Longrightarrow>
     dstep env s E_GraceWake (s\<lparr>socket := S_Answered r\<rparr>)"
| grace_end:
    "socket s = S_Grace d \<Longrightarrow> Wait (shared_result s) = None \<Longrightarrow> d \<le> clock s \<Longrightarrow>
     dstep env s E_GraceEnd (s\<lparr>socket := S_Answered (unfinished_answer (stamp env s) (the_request env))\<rparr>)"
| claim:
    "worker s = W_Queued \<or> (\<exists>b. worker s = W_Done b) \<Longrightarrow> TryClaim (shared_result s) = (b, sh) \<Longrightarrow>
     dstep env s (E_Claim b) (s\<lparr>shared_result := sh, worker := (if b then W_Claimed else W_Done False)\<rparr>)"
| run:
    "worker s = W_Claimed \<Longrightarrow> the_handler env (the_request env) (world s) = (res, w') \<Longrightarrow>
     dstep env s E_Run (s\<lparr>world := w', worker := W_Executed (execution_response (stamp env s) (the_request env) res)\<rparr>)"
| complete:
    "worker s = W_Executed r \<Longrightarrow>
     dstep env s E_Complete (s\<lparr>shared_result := Complete r (shared_result s), worker := W_Done (ok r)\<rparr>)"
| tick: "dstep env s E_Tick (s\<lparr>clock := Suc (clock s)\<rparr>)"
| world_moves: "dstep env s E_World (s\<lparr>world := w'\<rparr>)"

definition dispatch_start :: "bool \<Rightarrow> nat \<Rightarrow> 'w \<Rightarrow> 'w dispatch_state" where
  "dispatch_start g t w = \<lparr>gate = g, shared_result = fresh_result, socket = S_Enter, worker = W_Absent,
     clock = t, world = w\<rparr>"

inductive reaches :: "'w dispatch_env \<Rightarrow> event list \<Rightarrow> 'w dispatch_state \<Rightarrow> bool" for env where
  start: "reaches env [] (dispatch_start g t w)"
| move: "reaches env tr s \<Longrightarrow> dstep env s e s' \<Longrightarrow> reaches env (tr @ [e]) s'"

inductive_simps dstep_run_iff: "dstep env s E_Run s'"
inductive_simps dstep_claim_iff: "dstep env s (E_Claim b) s'"

lemmas reaches_induct = reaches.induct [consumes 1, case_names start move]

lemma dispatch_start_simps [simp]:
  "gate (dispatch_start g t w) = g" "shared_result (dispatch_start g t w) = fresh_result"
  "socket (dispatch_start g t w) = S_Enter" "worker (dispatch_start g t w) = W_Absent"
  "clock (dispatch_start g t w) = t" "world (dispatch_start g t w) = w"
  by (simp_all add: dispatch_start_def)

end
