(* ===== verification/World_Api.thy ===== *)
theory World_Api
  imports Condition Dispatch Pagination
begin

text \<open>
  What the handlers see of the game: AzerothCore and the playerbots module, which are not part of this
  repository, as a record of functions. \<open>'w\<close> is the state of the world, \<open>'p\<close> a \<open>Player*\<close> that is not
  null and \<open>'a\<close> a \<open>PlayerbotAI*\<close> that is not null; a pointer that may be null is an option. A call that
  only reads is a function of the world. A call that may change the world or throw is a computation
  that returns the world after it. Nothing is assumed of these functions. Integers that are only
  compared or printed have the width of the comparison, and a value the source prints with the
  stream operator of a type declared elsewhere is the text it prints.
\<close>

section \<open>Data of the playerbots module\<close>

datatype BotState = BOT_STATE_COMBAT | BOT_STATE_DEAD | BOT_STATE_NON_COMBAT | BOT_STATE_OTHER

datatype PlayerbotLoopClassifier =
    LC_StationaryMovement | LC_MovementOscillation | LC_RepeatedAction | LC_DeathRelapse | LC_RecoveryRelapse

datatype PlayerbotLoopObjectiveKind = OK_None | OK_Quest | OK_Grind | OK_Profession

record PlayerbotLoopAnomaly =
  classifier :: PlayerbotLoopClassifier
  objectiveKind :: PlayerbotLoopObjectiveKind
  objectiveKey :: uint64
  objectiveTitle :: string
  anomaly_actionName :: string
  firstEvidenceMs :: uint64
  lastEvidenceMs :: uint64
  evidenceCount :: uint64
  progressDelta_text :: string
  deathCount :: uint64
  recoveryCount :: uint64

datatype AcquireOutcome = AQ_Acquired | AQ_Renewed | AQ_Conflict | AQ_Invalid
datatype ReleaseOutcome = RL_Released | RL_AlreadyInactive | RL_Conflict | RL_Invalid

record PlayerbotActivityLeaseState =
  lease_active :: bool
  lease_token :: string
  lease_expiresAt :: uint64

datatype PlayerbotHomebindRecoveryResult =
    HR_Recovered | HR_AlreadyAtCurrentHomebind | HR_AlreadyPendingHomebind | HR_NotInWorld | HR_Dead
  | HR_InCombat | HR_Rooted | HR_InFlight | HR_BattlegroundQueue | HR_Battleground | HR_Arena
  | HR_OnTransport | HR_TeleportInProgress | HR_InvalidHomebind | HR_TeleportRejected

record WorldLocation =
  loc_map :: uint32
  loc_x :: float32
  loc_y :: float32
  loc_z :: float32
  loc_o :: float32

record GameObjectData =
  go_spawnId :: uint32
  go_id :: uint32
  go_mapid :: uint32
  go_posX :: float32
  go_posY :: float32
  go_posZ :: float32
  go_orientation :: float32

section \<open>Calls\<close>

text \<open>Players: \<open>FindPlayer\<close> and \<open>FindConnectedPlayer\<close> take the low part of a player GUID.\<close>

record ('w, 'p) player_api =
  FindPlayer :: "'w \<Rightarrow> uint32 \<Rightarrow> 'p option"
  FindConnectedPlayer :: "'w \<Rightarrow> uint32 \<Rightarrow> 'p option"
  GetPlayers :: "'w \<Rightarrow> (uint32 \<times> 'p) list"
  HasCharacterCacheEntry :: "'w \<Rightarrow> uint32 \<Rightarrow> bool"
  GuidText :: "'w \<Rightarrow> 'p \<Rightarrow> string"
  PlayerName :: "'w \<Rightarrow> 'p \<Rightarrow> string"
  PlayerLevel :: "'w \<Rightarrow> 'p \<Rightarrow> uint8"
  GetMapId :: "'w \<Rightarrow> 'p \<Rightarrow> uint32"
  GetTransport :: "'w \<Rightarrow> 'p \<Rightarrow> bool"
  IsInWorld :: "'w \<Rightarrow> 'p \<Rightarrow> bool"
  GetSession :: "'w \<Rightarrow> 'p \<Rightarrow> bool"
  IsDuringRemoveFromWorld :: "'w \<Rightarrow> 'p \<Rightarrow> bool"
  isLogingOut :: "'w \<Rightarrow> 'p \<Rightarrow> bool"
  GetAccountId :: "'w \<Rightarrow> 'p \<Rightarrow> uint32"
  IsBeingTeleported :: "'w \<Rightarrow> 'p \<Rightarrow> bool"
  IsInCombat :: "'w \<Rightarrow> 'p \<Rightarrow> bool"
  isDead :: "'w \<Rightarrow> 'p \<Rightarrow> bool"

record ('w, 'p) place_api = "('w, 'p) player_api" +
  GetZoneAndAreaId :: "'w \<Rightarrow> 'p \<Rightarrow> uint32 \<times> uint32"
  PlayerLocation :: "'w \<Rightarrow> 'p \<Rightarrow> WorldLocation"
  Homebind :: "'w \<Rightarrow> 'p \<Rightarrow> WorldLocation"
  homebindAreaId :: "'w \<Rightarrow> 'p \<Rightarrow> uint32"
  AreaZone :: "'w \<Rightarrow> uint32 \<Rightarrow> uint32 option"
  GetTeleportDest :: "'w \<Rightarrow> 'p \<Rightarrow> WorldLocation"
  fuzzyEq :: "float32 \<Rightarrow> float32 \<Rightarrow> bool"
  GetExactDist :: "'w \<Rightarrow> 'p \<Rightarrow> float32 \<Rightarrow> float32 \<Rightarrow> float32 \<Rightarrow> float32"
  GetAllGOData :: "'w \<Rightarrow> (uint32 \<times> GameObjectData) list"
  IsPartOfAPool :: "'w \<Rightarrow> uint32 \<Rightarrow> bool"
  IsSpawnedObject :: "'w \<Rightarrow> 'p \<Rightarrow> uint32 \<Rightarrow> bool"
  cosf :: "float32 \<Rightarrow> float32"
  sinf :: "float32 \<Rightarrow> float32"
  HasSkill :: "'w \<Rightarrow> 'p \<Rightarrow> uint16 \<Rightarrow> bool"
  GetPureSkillValue :: "'w \<Rightarrow> 'p \<Rightarrow> uint16 \<Rightarrow> uint16"
  GetPureMaxSkillValue :: "'w \<Rightarrow> 'p \<Rightarrow> uint16 \<Rightarrow> uint16"
  SetSkill :: "'p \<Rightarrow> uint16 \<Rightarrow> uint16 \<Rightarrow> uint16 \<Rightarrow> uint16 \<Rightarrow> ('w, unit) comp"
  TeleportTo :: "'p \<Rightarrow> uint32 \<Rightarrow> float32 \<Rightarrow> float32 \<Rightarrow> float32 \<Rightarrow> float32 \<Rightarrow> ('w, bool) comp"
  ClearTaxiDestinations :: "'p \<Rightarrow> ('w, unit) comp"
  SaveToDB :: "'p \<Rightarrow> ('w, unit) comp"

record ('w, 'p, 'a) bot_api = "('w, 'p) place_api" +
  GET_PLAYERBOT_AI :: "'w \<Rightarrow> 'p \<Rightarrow> 'a option"
  GetMaster :: "'w \<Rightarrow> 'a \<Rightarrow> 'p option"
  GetState :: "'w \<Rightarrow> 'a \<Rightarrow> BotState"
  HasGameClientMaster :: "'w \<Rightarrow> 'a \<Rightarrow> bool"
  HandleCommand :: "'a \<Rightarrow> string \<Rightarrow> 'p \<Rightarrow> ('w, unit) comp"
  HoldActivityLease :: "'a \<Rightarrow> string \<Rightarrow> uint32 \<Rightarrow> uint64 \<Rightarrow> ('w, AcquireOutcome \<times> PlayerbotActivityLeaseState) comp"
  InspectActivityLease :: "'a \<Rightarrow> uint64 \<Rightarrow> ('w, PlayerbotActivityLeaseState) comp"
  ReleaseActivityLease :: "'a \<Rightarrow> string \<Rightarrow> uint64 \<Rightarrow> ('w, ReleaseOutcome) comp"
  PlayerbotRecoverToHomebind :: "'a \<Rightarrow> ('w, PlayerbotHomebindRecoveryResult) comp"
  PlayerbotRecoveryCopyAnomalies :: "'w \<Rightarrow> 'a \<Rightarrow> uint64 \<Rightarrow> nat \<times> PlayerbotLoopAnomaly list"
  PlayerbotRecoveryClearStuckStateWithoutHistory :: "'a \<Rightarrow> ('w, unit) comp"
  TelemetryBaseline :: "'w \<Rightarrow> 'a \<Rightarrow> uint64 \<times> uint64"
  BuildVerification :: "'w \<Rightarrow> 'p \<Rightarrow> 'a \<Rightarrow> PlayerbotVerificationInspection"
  SerializeVerification :: "PlayerbotVerificationInspection \<Rightarrow> string"

text \<open>
  The rest of the server. \<open>ParseCommands\<close> runs one console command and returns the texts it printed, in
  order, the value of \<open>CliHandler::ParseCommands\<close> and that of \<open>HasSentErrorMessage\<close>.
\<close>

record ('w, 'p, 'a) world_api = "('w, 'p, 'a) bot_api" +
  SystemTimeMs :: "'w \<Rightarrow> uint64"
  GetGameTime :: "'w \<Rightarrow> uint64"
  GetTimeMS :: "'w \<Rightarrow> uint64"
  rand32 :: "('w, uint32) comp"
  ModuleEnabled :: "'w \<Rightarrow> bool"
  IsInRandomAccountList :: "'w \<Rightarrow> uint32 \<Rightarrow> bool"
  QueueEnabled :: "'w \<Rightarrow> bool"
  GetQueueSize :: "'w \<Rightarrow> nat"
  InspectionSchemaVersion :: nat
  ActionNameCapacity :: nat
  replace_invalid :: "string \<Rightarrow> string"
  ParseCommands :: "string \<Rightarrow> ('w, string list \<times> bool \<times> bool) comp"
  LoadConfigSettings :: "('w, unit) comp"
  InitializeVisibilityDistanceInfo :: "('w, unit) comp"

section \<open>Names\<close>

fun VerificationStateName :: "BotState \<Rightarrow> string" where
  "VerificationStateName BOT_STATE_COMBAT = ''combat''"
| "VerificationStateName BOT_STATE_DEAD = ''dead''"
| "VerificationStateName BOT_STATE_NON_COMBAT = ''non-combat''"
| "VerificationStateName BOT_STATE_OTHER = ''unknown''"

primrec LoopClassifierName :: "PlayerbotLoopClassifier \<Rightarrow> string" where
  "LoopClassifierName LC_StationaryMovement = ''stationary_movement''"
| "LoopClassifierName LC_MovementOscillation = ''movement_oscillation''"
| "LoopClassifierName LC_RepeatedAction = ''repeated_action''"
| "LoopClassifierName LC_DeathRelapse = ''death_relapse''"
| "LoopClassifierName LC_RecoveryRelapse = ''recovery_relapse''"

primrec LoopObjectiveKindName :: "PlayerbotLoopObjectiveKind \<Rightarrow> string" where
  "LoopObjectiveKindName OK_None = ''none''"
| "LoopObjectiveKindName OK_Quest = ''quest''"
| "LoopObjectiveKindName OK_Grind = ''grind''"
| "LoopObjectiveKindName OK_Profession = ''profession''"

primrec ActivityLeaseAcquireOutcomeName :: "AcquireOutcome \<Rightarrow> string" where
  "ActivityLeaseAcquireOutcomeName AQ_Acquired = ''acquired''"
| "ActivityLeaseAcquireOutcomeName AQ_Renewed = ''renewed''"
| "ActivityLeaseAcquireOutcomeName AQ_Conflict = ''conflict''"
| "ActivityLeaseAcquireOutcomeName AQ_Invalid = ''invalid''"

primrec ActivityLeaseReleaseOutcomeName :: "ReleaseOutcome \<Rightarrow> string" where
  "ActivityLeaseReleaseOutcomeName RL_Released = ''released''"
| "ActivityLeaseReleaseOutcomeName RL_AlreadyInactive = ''already_inactive''"
| "ActivityLeaseReleaseOutcomeName RL_Conflict = ''conflict''"
| "ActivityLeaseReleaseOutcomeName RL_Invalid = ''invalid''"

section \<open>Helpers of the handlers\<close>

text \<open>\<open>AppendJsonString\<close> repairs invalid UTF-8 first and then escapes as the audit writer does.\<close>

definition AppendJsonString :: "('w, 'p, 'a, 'z) world_api_scheme \<Rightarrow> string \<Rightarrow> string \<Rightarrow> string" where
  "AppendJsonString api out s =
     out @ CHR 0x22 # concat (map escape_char (replace_invalid api s)) @ [CHR 0x22]"

definition ResolveBotAI :: "('w, 'p, 'a, 'z) world_api_scheme \<Rightarrow> 'w \<Rightarrow> 'p option \<Rightarrow> 'a option" where
  "ResolveBotAI api w player = (case player of None \<Rightarrow> None | Some p \<Rightarrow> GET_PLAYERBOT_AI api w p)"

text \<open>The bot with a GUID and its AI, when both exist: the first lines of most handlers.\<close>

definition FindBot :: "('w, 'p, 'a, 'z) world_api_scheme \<Rightarrow> 'w \<Rightarrow> uint32 \<Rightarrow> ('p \<times> 'a) option" where
  "FindBot api w guid =
     (case FindPlayer api w guid of
        None \<Rightarrow> None
      | Some player \<Rightarrow> (case ResolveBotAI api w (Some player) of None \<Rightarrow> None | Some ai \<Rightarrow> Some (player, ai)))"

definition ActivityLeaseRemaining :: "PlayerbotActivityLeaseState \<Rightarrow> uint64 \<Rightarrow> uint32" where
  "ActivityLeaseRemaining state now =
     (if \<not> lease_active state \<or> lease_expiresAt state \<le> now then 0
      else ucast (min (lease_expiresAt state - now) uint32_max))"

text \<open>\<open>{:08x}\<close>: eight lower case hexadecimal digits.\<close>

definition hex_text :: "uint32 \<Rightarrow> string" where
  "hex_text x = map (\<lambda>i. HEX ! (unat x div 16 ^ (7 - i) mod 16)) [0..<8]"

definition NewActivityLeaseToken :: "('w, 'p, 'a, 'z) world_api_scheme \<Rightarrow> ('w, string) comp" where
  "NewActivityLeaseToken api =
     bindE (rand32 api) (\<lambda>a. bindE (rand32 api) (\<lambda>b. bindE (rand32 api) (\<lambda>c. bindE (rand32 api) (\<lambda>d.
       returnE (hex_text a @ hex_text b @ hex_text c @ hex_text d)))))"

text \<open>The target of a lease operation, or the failure the handler returns.\<close>

definition ResolveActivityLeaseTarget ::
  "('w, 'p, 'a, 'z) world_api_scheme \<Rightarrow> 'w \<Rightarrow> Request \<Rightarrow> bool \<Rightarrow> Response + 'p \<times> 'a" where
  "ResolveActivityLeaseTarget api w req requireRandomMasterless =
     (case FindPlayer api w (botGuid req) of
        None \<Rightarrow> Inl (Failure EC_BotNotFound [])
      | Some player \<Rightarrow>
          (case ResolveBotAI api w (Some player) of
             None \<Rightarrow> Inl (Failure EC_NotManagedPlayerbot [])
           | Some botAI \<Rightarrow>
               if \<not> GetSession api w player \<or> \<not> IsInWorld api w player \<or> IsDuringRemoveFromWorld api w player \<or>
                  isLogingOut api w player
               then Inl (Failure EC_BotUnavailable [])
               else if requireRandomMasterless \<and> \<not> IsInRandomAccountList api w (GetAccountId api w player)
               then Inl (Failure EC_NotRandomBot [])
               else if requireRandomMasterless \<and> GetMaster api w botAI \<noteq> None
               then Inl (Failure EC_InvalidRelationship [])
               else Inr (player, botAI)))"

definition CurrentRecoveryPosition :: "('w, 'p, 'a, 'z) world_api_scheme \<Rightarrow> 'w \<Rightarrow> 'p \<Rightarrow> RecoveryPosition" where
  "CurrentRecoveryPosition api w player =
     (case GetZoneAndAreaId api w player of
        (zone, area) \<Rightarrow>
          \<lparr>mapId = GetMapId api w player, zoneId = zone, areaId = area,
           pos_x = loc_x (PlayerLocation api w player), pos_y = loc_y (PlayerLocation api w player),
           pos_z = loc_z (PlayerLocation api w player), orientation = loc_o (PlayerLocation api w player)\<rparr>)"

definition HomebindRecoveryPositionAt ::
  "('w, 'p, 'a, 'z) world_api_scheme \<Rightarrow> 'w \<Rightarrow> 'p \<Rightarrow> WorldLocation \<Rightarrow> RecoveryPosition" where
  "HomebindRecoveryPositionAt api w player dest =
     (let area = homebindAreaId api w player;
          zone = (case AreaZone api w area of Some z \<Rightarrow> if z \<noteq> 0 then z else area | None \<Rightarrow> area)
      in \<lparr>mapId = loc_map dest, zoneId = zone, areaId = area, pos_x = loc_x dest, pos_y = loc_y dest,
          pos_z = loc_z dest, orientation = loc_o dest\<rparr>)"

definition HomebindRecoveryPosition :: "('w, 'p, 'a, 'z) world_api_scheme \<Rightarrow> 'w \<Rightarrow> 'p \<Rightarrow> RecoveryPosition" where
  "HomebindRecoveryPosition api w player =
     HomebindRecoveryPositionAt api w player
       ((Homebind api w player)\<lparr>loc_o := loc_o (PlayerLocation api w player)\<rparr>)"

definition RecoveryPositionsMatch :: "('w, 'p, 'a, 'z) world_api_scheme \<Rightarrow> RecoveryPosition \<Rightarrow> RecoveryPosition \<Rightarrow> bool" where
  "RecoveryPositionsMatch api position dest \<longleftrightarrow>
     mapId position = mapId dest \<and> fuzzyEq api (pos_x position) (pos_x dest) \<and>
     fuzzyEq api (pos_y position) (pos_y dest) \<and> fuzzyEq api (pos_z position) (pos_z dest)"

section \<open>Facts about the helpers\<close>

declare wire_field.simps [simp del]

text \<open>Every string an answer quotes is a JSON string, whatever the repair of its bytes returns.\<close>

lemma AppendJsonString_escaped:
  "AppendJsonString api out s = out @ AppendEscapedJsonString [] (replace_invalid api s)"
  by (simp add: AppendJsonString_def AppendEscapedJsonString_def)

lemma json_text_string: "d \<le> MAX_NESTED_DEPTH \<Longrightarrow> json_text d (AppendJsonString api [] s)"
  by (simp add: AppendJsonString_escaped json_text_escaped)

lemma flat_string: "flat_value (AppendJsonString api [] s) (wire_field (WireString (replace_invalid api s)))"
  by (simp add: AppendJsonString_escaped flat_escaped)

text \<open>A rendered object of flat members reads back as those members.\<close>

lemma Parse_rendered:
  assumes "list_all (\<lambda>(k, t, v). plain_text k \<and> flat_value t v) members" and "distinct (map fst members)"
  shows "Parse None (''{'' @ render_members (map (\<lambda>(k, t, v). (k, t)) members)) =
    Some (map (\<lambda>(k, t, v). (k, v)) members, None)"
  using render_members_flat [OF assms(1)] by (rule Parse_members) (use assms(2) in \<open>simp add: comp_def case_prod_unfold\<close>)

text \<open>
  The remaining time of a lease is exact: 0 when the lease is inactive or has expired, and otherwise
  the seconds to its end, capped at the largest 32 bit value; the subtraction cannot wrap.
\<close>

theorem lease_remaining_exact:
  "unat (ActivityLeaseRemaining state now) =
     (if lease_active state then min (unat (lease_expiresAt state) - unat now) (2 ^ 32 - 1) else 0)"
proof (cases "\<not> lease_active state \<or> lease_expiresAt state \<le> now")
  case True
  then show ?thesis by (auto simp: ActivityLeaseRemaining_def word_le_nat_alt)
next
  case False
  then have le: "now \<le> lease_expiresAt state" by auto
  let ?d = "lease_expiresAt state - now"
  have "unat (ucast (min ?d uint32_max) :: uint32) = unat (min ?d uint32_max)"
    by (rule unat_ucast_32) simp
  also have "\<dots> = min (unat ?d) (unat uint32_max)"
    by (simp add: min_def word_le_nat_alt)
  also have "unat ?d = unat (lease_expiresAt state) - unat now"
    using le by (rule unat_sub)
  finally show ?thesis using False by (simp add: ActivityLeaseRemaining_def)
qed

definition lower_hex :: "char \<Rightarrow> bool" where
  "lower_hex c \<longleftrightarrow> is_digit_char c \<or> 97 \<le> ord c \<and> ord c \<le> 102"

lemma HEX_digit: "n < 16 \<Longrightarrow> lower_hex (HEX ! n)"
proof -
  assume "n < 16"
  moreover have "list_all lower_hex HEX" "length HEX = 16"
    by (simp_all add: HEX_def lower_hex_def is_digit_char_def ord_def)
  ultimately show ?thesis by (simp add: list_all_length)
qed

lemma hex_text_digits: "length (hex_text x) = 8" "list_all lower_hex (hex_text x)"
  by (auto simp: hex_text_def list_all_iff HEX_digit)

lemma hex_token_valid: "IsActivityLeaseToken (hex_text a @ hex_text b @ hex_text c @ hex_text d)"
  using hex_text_digits [of a] hex_text_digits [of b] hex_text_digits [of c] hex_text_digits [of d]
  by (simp add: IsActivityLeaseToken_def ACTIVITY_LEASE_TOKEN_HEX_LENGTH_def lower_hex_def [abs_def])

text \<open>
  A lease token the server makes up is one a client may send back: it has the length and the
  characters the request parser asks for.
\<close>

theorem new_lease_token_valid:
  "\<exists>r w'. NewActivityLeaseToken api w = (r, w') \<and> (\<forall>token. r = Inr token \<longrightarrow> IsActivityLeaseToken token)"
  by (auto simp: NewActivityLeaseToken_def bindE_def hex_token_valid split: sum.split prod.split)

section \<open>A small world\<close>

text \<open>
  A world for the witnesses: bot 12 (player 0, AI 0) with its master 5 (player 1, not a bot). The state
  counts the calls that change it.
\<close>

definition sample_snapshot :: "nat \<times> PlayerbotLoopAnomaly list" where
  "sample_snapshot = (1, [\<lparr>classifier = LC_RepeatedAction, objectiveKind = OK_Grind, objectiveKey = 3,
     objectiveTitle = ''wolf'', anomaly_actionName = ''attack'', firstEvidenceMs = 10, lastEvidenceMs = 20,
     evidenceCount = 4, progressDelta_text = ''0'', deathCount = 0, recoveryCount = 1\<rparr>])"

definition sample_place :: WorldLocation where
  "sample_place = \<lparr>loc_map = 1, loc_x = 0, loc_y = 0, loc_z = 0, loc_o = 0\<rparr>"

definition sample_api :: "(nat, nat, nat) world_api" where
  "sample_api = \<lparr>
     FindPlayer = (\<lambda>w g. if g = 12 then Some 0 else if g = 5 then Some 1 else None),
     FindConnectedPlayer = (\<lambda>w g. if g = 12 then Some 0 else if g = 5 then Some 1 else None),
     GetPlayers = (\<lambda>w. [(12, 0), (5, 1)]), HasCharacterCacheEntry = (\<lambda>w g. False),
     GuidText = (\<lambda>w p. ''guid''), PlayerName = (\<lambda>w p. ''name''), PlayerLevel = (\<lambda>w p. 80),
     GetMapId = (\<lambda>w p. 1), GetTransport = (\<lambda>w p. False), IsInWorld = (\<lambda>w p. True), GetSession = (\<lambda>w p. True),
     IsDuringRemoveFromWorld = (\<lambda>w p. False), isLogingOut = (\<lambda>w p. False), GetAccountId = (\<lambda>w p. 3),
     IsBeingTeleported = (\<lambda>w p. False), IsInCombat = (\<lambda>w p. False), isDead = (\<lambda>w p. False),
     GetZoneAndAreaId = (\<lambda>w p. (14, 15)), PlayerLocation = (\<lambda>w p. sample_place), Homebind = (\<lambda>w p. sample_place),
     homebindAreaId = (\<lambda>w p. 15), AreaZone = (\<lambda>w a. Some 14), GetTeleportDest = (\<lambda>w p. sample_place),
     fuzzyEq = (=), GetExactDist = (\<lambda>w p x y z. x),
     GetAllGOData = (\<lambda>w. [(7, \<lparr>go_spawnId = 7, go_id = 1731, go_mapid = 1, go_posX = 0x40000000, go_posY = 0,
       go_posZ = 0, go_orientation = 0\<rparr>)]),
     IsPartOfAPool = (\<lambda>w i. False), IsSpawnedObject = (\<lambda>w p i. True), cosf = (\<lambda>x. 0x3F800000), sinf = (\<lambda>x. 0),
     HasSkill = (\<lambda>w p k. k = 164), GetPureSkillValue = (\<lambda>w p k. 1), GetPureMaxSkillValue = (\<lambda>w p k. 75),
     SetSkill = (\<lambda>p k step v m w. (Inr (), Suc w)), TeleportTo = (\<lambda>p m x y z orient w. (Inr True, Suc w)),
     ClearTaxiDestinations = (\<lambda>p w. (Inr (), Suc w)), SaveToDB = (\<lambda>p w. (Inr (), Suc w)),
     GET_PLAYERBOT_AI = (\<lambda>w p. if p = 0 then Some 0 else None), GetMaster = (\<lambda>w ai. Some 1),
     GetState = (\<lambda>w ai. BOT_STATE_COMBAT), HasGameClientMaster = (\<lambda>w ai. True),
     HandleCommand = (\<lambda>ai c m w. (Inr (), Suc w)),
     HoldActivityLease = (\<lambda>ai t d now w. (Inr (AQ_Acquired, \<lparr>lease_active = True, lease_token = t, lease_expiresAt = now + ucast d\<rparr>), Suc w)),
     InspectActivityLease = (\<lambda>ai now w. (Inr \<lparr>lease_active = False, lease_token = [], lease_expiresAt = 0\<rparr>, w)),
     ReleaseActivityLease = (\<lambda>ai t now w. (Inr RL_Released, Suc w)),
     PlayerbotRecoverToHomebind = (\<lambda>ai w. (Inr HR_Recovered, Suc w)),
     PlayerbotRecoveryCopyAnomalies = (\<lambda>w ai now. sample_snapshot),
     PlayerbotRecoveryClearStuckStateWithoutHistory = (\<lambda>ai w. (Inr (), Suc w)),
     TelemetryBaseline = (\<lambda>w ai. (9, 4)), BuildVerification = (\<lambda>w p ai. sample_inspection),
     SerializeVerification = (\<lambda>i. ''{}''),
     SystemTimeMs = (\<lambda>w. 1000), GetGameTime = (\<lambda>w. 500), GetTimeMS = (\<lambda>w. 900), rand32 = (\<lambda>w. (Inr 7, Suc w)),
     ModuleEnabled = (\<lambda>w. True), IsInRandomAccountList = (\<lambda>w acc. True), QueueEnabled = (\<lambda>w. True), GetQueueSize = (\<lambda>w. 0),
     InspectionSchemaVersion = 1, ActionNameCapacity = 64, replace_invalid = (\<lambda>s. s),
     ParseCommands = (\<lambda>c w. (Inr ([''done''], True, False), Suc w)),
     LoadConfigSettings = (\<lambda>w. (Inr (), Suc w)), InitializeVisibilityDistanceInfo = (\<lambda>w. (Inr (), Suc w))\<rparr>"

lemma sample_bot [simp]: "FindBot sample_api w 12 = Some (0, 0)"
  by (simp add: FindBot_def ResolveBotAI_def sample_api_def)

end
