(* ===== verification/Handlers_Read.thy ===== *)
theory Handlers_Read
  imports World_Api
begin

text \<open>
  The handlers that only look at the world: status, list, anomalies, inspect and check. Each is a
  computation on the world; the lemmas show that none of them changes it or throws, what the counts
  and flags of an answer say, and that the answers are JSON.
\<close>

section \<open>Status\<close>

definition count_bots :: "('w, 'p, 'a, 'z) world_api_scheme \<Rightarrow> 'w \<Rightarrow> uint32" where
  "count_bots api w =
     foldl (\<lambda>n (guid, player). if ResolveBotAI api w (Some player) \<noteq> None then n + 1 else n) 0 (GetPlayers api w)"

definition BuildStatusResponse :: "('w, 'p, 'a, 'z) world_api_scheme \<Rightarrow> ('w, Response) comp" where
  "BuildStatusResponse api = readE (\<lambda>w.
     let botCount = count_bots api w
     in Success (''{'' @ json_key ''protocolSchemaVersion'' @ to_string (unat SCHEMA_VERSION) @
          '','' @ json_key ''inspectionSchemaVersion'' @ to_string (InspectionSchemaVersion api) @
          '','' @ json_key ''moduleEnabled'' @ bool_text (ModuleEnabled api w) @
          '','' @ json_key ''queueAvailable'' @ bool_text (QueueEnabled api w) @
          '','' @ json_key ''queueSize'' @ to_string (GetQueueSize api w) @
          '','' @ json_key ''botCount'' @ to_string (unat botCount) @ ''}''))"

section \<open>List\<close>

definition bot_guids :: "('w, 'p, 'a, 'z) world_api_scheme \<Rightarrow> 'w \<Rightarrow> uint32 list" where
  "bot_guids api w =
     map fst (filter (\<lambda>(guid, player). ResolveBotAI api w (Some player) \<noteq> None) (GetPlayers api w))"

definition bot_entry :: "('w, 'p, 'a, 'z) world_api_scheme \<Rightarrow> 'w \<Rightarrow> uint32 \<Rightarrow> 'p \<Rightarrow> 'a \<Rightarrow> string" where
  "bot_entry api w lowGuid player botAI =
     (let master = GetMaster api w botAI;
          out1 = AppendJsonString api (''{'' @ json_key ''guid'') (GuidText api w player);
          out2 = AppendJsonString api (out1 @ '','' @ json_key ''guidLow'' @ to_string (unat lowGuid) @ '','' @ json_key ''name'')
                   (PlayerName api w player);
          out3 = AppendJsonString api (out2 @ '','' @ json_key ''state'') (VerificationStateName (GetState api w botAI));
          out4 = AppendJsonString api
                   (out3 @ '','' @ json_key ''master'' @ ''{'' @ json_key ''available'' @ bool_text (master \<noteq> None) @
                    '','' @ json_key ''guid'')
                   (case master of None \<Rightarrow> [] | Some m \<Rightarrow> GuidText api w m);
          out5 = AppendJsonString api (out4 @ '','' @ json_key ''name'')
                   (case master of None \<Rightarrow> [] | Some m \<Rightarrow> PlayerName api w m)
      in out5 @ '','' @ json_key ''relationshipValid'' @ bool_text (HasGameClientMaster api w botAI) @ ''}'' @
         '','' @ json_key ''mapId'' @ to_string (unat (GetMapId api w player)) @
         '','' @ json_key ''transportAttached'' @ bool_text (GetTransport api w player) @ ''}'')"

fun bots_loop :: "('w, 'p, 'a, 'z) world_api_scheme \<Rightarrow> 'w \<Rightarrow> bool \<Rightarrow> uint32 list \<Rightarrow> string" where
  "bots_loop api w first [] = []"
| "bots_loop api w first (lowGuid # rest) =
     (case FindBot api w lowGuid of
        None \<Rightarrow> bots_loop api w first rest
      | Some (player, botAI) \<Rightarrow>
          (if first then [] else '','') @ bot_entry api w lowGuid player botAI @ bots_loop api w False rest)"

definition BuildListResponse :: "('w, 'p, 'a, 'z) world_api_scheme \<Rightarrow> Request \<Rightarrow> ('w, Response) comp" where
  "BuildListResponse api req = readE (\<lambda>w.
     let guids = bot_guids api w; totalCount = length guids
     in case PaginateGuids guids (afterGuid req) (limit req) of
          None \<Rightarrow> Failure EC_InvalidLimit []
        | Some page \<Rightarrow>
            Success (''{'' @ json_key ''bots'' @ ''['' @ bots_loop api w True (page_guids page) @
              ''],'' @ json_key ''nextAfterGuid'' @ to_string (unat (nextAfterGuid page)) @
              '','' @ json_key ''hasMore'' @ bool_text (hasMore page) @
              '','' @ json_key ''completeness'' @ ''{'' @ json_key ''totalCount'' @ to_string totalCount @
              '','' @ json_key ''returnedCount'' @ to_string (length (page_guids page)) @
              '','' @ json_key ''truncated'' @ bool_text (hasMore page) @ ''}}''))"

section \<open>Anomalies\<close>

record AnomalyRecord =
  an_guid :: string
  an_guidLow :: uint32
  an_name :: string
  an_level :: uint8
  an_anomaly :: PlayerbotLoopAnomaly

text \<open>The inner loop stops at the snapshot's count or when the records are full.\<close>

fun take_anomalies ::
  "nat \<Rightarrow> (PlayerbotLoopAnomaly \<Rightarrow> AnomalyRecord) \<Rightarrow> PlayerbotLoopAnomaly list \<Rightarrow> AnomalyRecord list \<Rightarrow> AnomalyRecord list" where
  "take_anomalies lim to_record [] records = records"
| "take_anomalies lim to_record (anomaly # rest) records =
     (if length records < lim then take_anomalies lim to_record rest (records @ [to_record anomaly]) else records)"

fun anomalies_loop ::
  "('w, 'p, 'a, 'z) world_api_scheme \<Rightarrow> 'w \<Rightarrow> uint64 \<Rightarrow> nat \<Rightarrow> uint32 list \<Rightarrow> AnomalyRecord list \<times> uint64 \<Rightarrow>
    AnomalyRecord list \<times> uint64" where
  "anomalies_loop api w nowMs lim [] acc = acc"
| "anomalies_loop api w nowMs lim (lowGuid # rest) (records, so_far) =
     (case FindBot api w lowGuid of
        None \<Rightarrow> anomalies_loop api w nowMs lim rest (records, so_far)
      | Some (player, botAI) \<Rightarrow>
          (case PlayerbotRecoveryCopyAnomalies api w botAI nowMs of
             (count, anomalies) \<Rightarrow>
               anomalies_loop api w nowMs lim rest
                 (take_anomalies lim
                    (\<lambda>anomaly. \<lparr>an_guid = GuidText api w player, an_guidLow = lowGuid,
                       an_name = PlayerName api w player, an_level = PlayerLevel api w player, an_anomaly = anomaly\<rparr>)
                    (take count anomalies) records,
                  so_far + of_nat count)))"

definition anomaly_entry :: "('w, 'p, 'a, 'z) world_api_scheme \<Rightarrow> AnomalyRecord \<Rightarrow> string" where
  "anomaly_entry api record =
     (let anomaly = an_anomaly record;
          out1 = AppendJsonString api (''{'' @ json_key ''bot'' @ ''{'' @ json_key ''guid'') (an_guid record);
          out2 = AppendJsonString api
                   (out1 @ '','' @ json_key ''guidLow'' @ to_string (unat (an_guidLow record)) @ '','' @ json_key ''name'')
                   (an_name record);
          out3 = AppendJsonString api
                   (out2 @ '','' @ json_key ''level'' @ to_string (unat (ucast (an_level record) :: uint32)) @ ''}'' @
                    '','' @ json_key ''classifier'')
                   (LoopClassifierName (classifier anomaly));
          out4 = AppendJsonString api (out3 @ '','' @ json_key ''objective'' @ ''{'' @ json_key ''kind'')
                   (LoopObjectiveKindName (objectiveKind anomaly));
          out5 = AppendJsonString api
                   (out4 @ '','' @ json_key ''key'' @ to_string (unat (objectiveKey anomaly)) @ '','' @ json_key ''title'')
                   (BoundedText (objectiveTitle anomaly));
          out6 = AppendJsonString api (out5 @ ''},'' @ json_key ''action'') (BoundedText (anomaly_actionName anomaly))
      in out6 @ '','' @ json_key ''evidence'' @ ''{'' @ json_key ''firstTimestampMs'' @ to_string (unat (firstEvidenceMs anomaly)) @
         '','' @ json_key ''lastTimestampMs'' @ to_string (unat (lastEvidenceMs anomaly)) @
         '','' @ json_key ''count'' @ to_string (unat (evidenceCount anomaly)) @ ''}'' @
         '','' @ json_key ''progressDelta'' @ progressDelta_text anomaly @
         '','' @ json_key ''deathCount'' @ to_string (unat (deathCount anomaly)) @
         '','' @ json_key ''recoveryCount'' @ to_string (unat (recoveryCount anomaly)) @ ''}'')"

fun records_loop :: "('w, 'p, 'a, 'z) world_api_scheme \<Rightarrow> nat \<Rightarrow> AnomalyRecord list \<Rightarrow> string" where
  "records_loop api index [] = []"
| "records_loop api index (record # rest) =
     (if index \<noteq> 0 then '','' else []) @ anomaly_entry api record @ records_loop api (Suc index) rest"

definition BuildAnomaliesResponse :: "('w, 'p, 'a, 'z) world_api_scheme \<Rightarrow> Request \<Rightarrow> ('w, Response) comp" where
  "BuildAnomaliesResponse api req =
     (if limit req = 0 \<or> MAX_ANOMALY_LIMIT < limit req then returnE (Failure EC_InvalidLimit [])
      else readE (\<lambda>w.
        let guids = sort (bot_guids api w); nowMs = GetTimeMS api w
        in case anomalies_loop api w nowMs (unat (limit req)) guids ([], 0) of
             (records, totalAnomalyCount) \<Rightarrow>
               Success (''{'' @ json_key ''anomalies'' @ ''['' @ records_loop api 0 records @
                 ''],'' @ json_key ''completeness'' @ ''{'' @ json_key ''totalBotCount'' @ to_string (length guids) @
                 '','' @ json_key ''totalAnomalyCount'' @ to_string (unat totalAnomalyCount) @
                 '','' @ json_key ''returnedCount'' @ to_string (length records) @
                 '','' @ json_key ''truncated'' @ bool_text (of_nat (length records) < totalAnomalyCount) @ ''}}'')))"

section \<open>Inspect and check\<close>

definition BuildInspectResponse :: "('w, 'p, 'a, 'z) world_api_scheme \<Rightarrow> Request \<Rightarrow> ('w, Response) comp" where
  "BuildInspectResponse api req = readE (\<lambda>w.
     case FindBot api w (botGuid req) of
       None \<Rightarrow> Failure EC_BotNotFound []
     | Some (player, botAI) \<Rightarrow> Success (SerializeVerification api (BuildVerification api w player botAI)))"

definition BuildCheckResponse :: "('w, 'p, 'a, 'z) world_api_scheme \<Rightarrow> Request \<Rightarrow> ('w, Response) comp" where
  "BuildCheckResponse api req = readE (\<lambda>w.
     case FindBot api w (botGuid req) of
       None \<Rightarrow> Failure EC_BotNotFound []
     | Some (player, botAI) \<Rightarrow>
         (let inspection = BuildVerification api w player botAI;
              matched = EvaluateVerificationCondition (ActionNameCapacity api) inspection req;
              out = AppendJsonString api (''{'' @ json_key ''matched'' @ bool_text matched @ '','' @ json_key ''condition'')
                      (condition req)
          in Success (out @ '','' @ json_key ''snapshot'' @ SerializeVerification api inspection @ ''}'')))"

lemmas read_handlers [handler_defs] =
  BuildStatusResponse_def BuildListResponse_def BuildAnomaliesResponse_def BuildInspectResponse_def
  BuildCheckResponse_def


section \<open>Counts\<close>

declare wire_field.simps [simp del]

lemma count_bots_length: "count_bots api w = of_nat (length (bot_guids api w))"
proof -
  have "foldl (\<lambda>n (guid, player). if ResolveBotAI api w (Some player) \<noteq> None then n + 1 else n) a ps =
      a + of_nat (length (filter (\<lambda>(guid, player). ResolveBotAI api w (Some player) \<noteq> None) ps))"
    for a :: uint32 and ps :: "(uint32 \<times> 'b) list"
    by (induction ps arbitrary: a) (auto simp: algebra_simps)
  from this [of 0 "GetPlayers api w"] show ?thesis by (simp add: count_bots_def bot_guids_def)
qed

text \<open>
  A status answer is a JSON object that reads back as the schema versions, the size of the queue and
  the number of players that have a bot AI, counted in 32 bits.
\<close>

theorem status_reads_back:
  assumes "InspectionSchemaVersion api < 2 ^ 64" "GetQueueSize api w < 2 ^ 64"
  shows "\<exists>r fs. BuildStatusResponse api w = (Inr r, w) \<and> ok r \<and> Parse None (resultJson r) = Some (fs, None) \<and>
    UnsignedField fs ''protocolSchemaVersion'' = Some 2 \<and>
    UnsignedField fs ''inspectionSchemaVersion'' = Some (of_nat (InspectionSchemaVersion api)) \<and>
    UnsignedField fs ''queueSize'' = Some (of_nat (GetQueueSize api w)) \<and>
    UnsignedField fs ''botCount'' = Some (of_nat (length (bot_guids api w) mod 2 ^ 32))"
proof -
  define members where "members =
    [(''protocolSchemaVersion'', to_string (unat (2 :: uint64)), wire_field (WireNumber 2)),
     (''inspectionSchemaVersion'', to_string (unat (of_nat (InspectionSchemaVersion api) :: uint64)),
        wire_field (WireNumber (of_nat (InspectionSchemaVersion api)))),
     (''moduleEnabled'', bool_text (ModuleEnabled api w), default_value),
     (''queueAvailable'', bool_text (QueueEnabled api w), default_value),
     (''queueSize'', to_string (unat (of_nat (GetQueueSize api w) :: uint64)), wire_field (WireNumber (of_nat (GetQueueSize api w)))),
     (''botCount'', to_string (unat (of_nat (length (bot_guids api w) mod 2 ^ 32) :: uint64)),
        wire_field (WireNumber (of_nat (length (bot_guids api w) mod 2 ^ 32))))]"
  define body where "body = ''{'' @ render_members (map (\<lambda>(k, t, v). (k, t)) members)"
  have nat64: "unat (of_nat n :: uint64) = n" if "n < 2 ^ 64" for n
    using that by (simp add: unsigned_of_nat take_bit_eq_mod)
  have "length (bot_guids api w) mod 2 ^ 32 < 2 ^ 64" by (rule less_trans [of _ "2 ^ 32"]) simp_all
  from nat64 [OF this] have count: "unat (count_bots api w) = unat (of_nat (length (bot_guids api w) mod 2 ^ 32) :: uint64)"
    by (simp add: count_bots_length unsigned_of_nat take_bit_eq_mod)
  have run: "BuildStatusResponse api w = (Inr (Success body), w)"
    unfolding BuildStatusResponse_def readE_apply body_def members_def Let_def count
    by (simp add: nat64 [OF assms(1)] nat64 [OF assms(2)] SCHEMA_VERSION_def)
  have "list_all (\<lambda>(k, t, v). plain_text k \<and> flat_value t v) members"
    using flat_number [of 2] by (simp add: members_def flat_number flat_bool, simp add: plain_text_def ord_def)
  from Parse_rendered [OF this]
  have "Parse None body = Some (map (\<lambda>(k, t, v). (k, v)) members, None)"
    unfolding body_def by (simp add: members_def)
  with run show ?thesis
    by (intro exI [of _ "Success body"] exI [of _ "map (\<lambda>(k, t, v). (k, v)) members"])
       (simp add: members_def UnsignedField_def)
qed

section \<open>The list answer\<close>

lemma bots_loop_elements:
  "bots_loop api w True gs @ '']'' = render_elements
     (map (\<lambda>(g, player, botAI). bot_entry api w g player botAI)
        (concat (map (\<lambda>g. case FindBot api w g of None \<Rightarrow> [] | Some pa \<Rightarrow> [(g, pa)]) gs)))"
proof -
  let ?found = "\<lambda>gs. concat (map (\<lambda>g. case FindBot api w g of None \<Rightarrow> [] | Some pa \<Rightarrow> [(g, pa)]) gs)"
  have more: "bots_loop api w False gs =
      concat (map (\<lambda>(g, player, botAI). '','' @ bot_entry api w g player botAI) (?found gs))" for gs
    by (induction gs) (auto split: option.split)
  have tail: "v @ concat (map (\<lambda>v. '','' @ v) vs) @ '']'' = render_elements (v # vs)" for v vs
    by (induction vs arbitrary: v) simp_all
  show ?thesis
  proof (induction gs)
    case (Cons g gs)
    show ?case
    proof (cases "FindBot api w g")
      case (Some pa)
      obtain player botAI where pa: "pa = (player, botAI)" by (cases pa)
      show ?thesis
        using Some pa tail [of "bot_entry api w g player botAI"
            "map (\<lambda>(g, player, botAI). bot_entry api w g player botAI) (?found gs)"]
        by (simp add: more comp_def case_prod_unfold)
    qed (use Cons.IH in simp)
  qed simp
qed

lemma plain_list_keys [simp]:
  "plain_text ''guid''" "plain_text ''guidLow''" "plain_text ''name''" "plain_text ''state''"
  "plain_text ''master''" "plain_text ''available''" "plain_text ''relationshipValid''" "plain_text ''mapId''"
  "plain_text ''transportAttached''" "plain_text ''bots''" "plain_text ''nextAfterGuid''" "plain_text ''hasMore''"
  "plain_text ''completeness''" "plain_text ''totalCount''" "plain_text ''returnedCount''" "plain_text ''truncated''"
  by (simp_all add: plain_text_def ord_def)

lemma bot_entry_json:
  assumes "d \<le> 2"
  shows "json_text d (bot_entry api w g player botAI)"
proof -
  let ?master = "GetMaster api w botAI"
  let ?m = "[(''available'', bool_text (?master \<noteq> None)),
      (''guid'', AppendJsonString api [] (case ?master of None \<Rightarrow> [] | Some m \<Rightarrow> GuidText api w m)),
      (''name'', AppendJsonString api [] (case ?master of None \<Rightarrow> [] | Some m \<Rightarrow> PlayerName api w m)),
      (''relationshipValid'', bool_text (HasGameClientMaster api w botAI))]"
  have "json_text (Suc d) (''{'' @ render_members ?m)"
    using assms by (intro json_object) (simp_all add: json_text_bool json_text_string MAX_NESTED_DEPTH_def)
  with assms have "json_text d (''{'' @ render_members
      [(''guid'', AppendJsonString api [] (GuidText api w player)), (''guidLow'', to_string (unat g)),
       (''name'', AppendJsonString api [] (PlayerName api w player)),
       (''state'', AppendJsonString api [] (VerificationStateName (GetState api w botAI))),
       (''master'', ''{'' @ render_members ?m), (''mapId'', to_string (unat (GetMapId api w player))),
       (''transportAttached'', bool_text (GetTransport api w player))])"
    by (intro json_object) (simp_all add: json_text_bool json_text_string json_text_number MAX_NESTED_DEPTH_def)
  then show ?thesis
    by (simp add: bot_entry_def Let_def AppendJsonString_def)
qed

lemma found_entries:
  "map (\<lambda>(g, player, botAI). bot_entry api w g player botAI)
     (concat (map (\<lambda>g. case FindBot api w g of None \<Rightarrow> [] | Some pa \<Rightarrow> [(g, pa)]) gs)) =
   map (\<lambda>g. case the (FindBot api w g) of (player, botAI) \<Rightarrow> bot_entry api w g player botAI)
     (filter (\<lambda>g. FindBot api w g \<noteq> None) gs)"
  by (induction gs) (auto split: option.split)

text \<open>
  C33: the answer to a list request. It refuses exactly the limits outside 1 to 100 and never changes the
  world. Otherwise it is a JSON object, whatever names the players have and whatever the repair of
  invalid bytes returns; it begins with the array of the entries of those bots that are in the world
  among the first GUIDs above the cursor, in increasing order; and its cursor reads back as the last of
  these GUIDs.
\<close>

theorem list_answer:
  "\<exists>r. BuildListResponse api req w = (Inr r, w) \<and>
    (ok r \<longleftrightarrow> 0 < limit req \<and> limit req \<le> MAX_LIST_LIMIT) \<and>
    (let ks = take (unat (limit req)) (sorted_list_of_set {g \<in> set (bot_guids api w). afterGuid req < g}) in
     if ok r
     then json_text 0 (resultJson r) \<and>
       (\<exists>rest. resultJson r = ''{'' @ json_key ''bots'' @ ''['' @ render_elements
          (map (\<lambda>g. case the (FindBot api w g) of (player, botAI) \<Rightarrow> bot_entry api w g player botAI)
             (filter (\<lambda>g. FindBot api w g \<noteq> None) ks)) @ rest) \<and>
       (\<exists>fs. Parse None (resultJson r) = Some (fs, None) \<and>
          UnsignedField fs ''nextAfterGuid'' = Some (ucast (last (afterGuid req # ks))))
     else r = Failure EC_InvalidLimit [])"
proof (cases "PaginateGuids (bot_guids api w) (afterGuid req) (limit req)")
  case None
  then have "\<not> (0 < limit req \<and> limit req \<le> MAX_LIST_LIMIT)"
    by (auto simp: PaginateGuids_def Let_def word_gt_0 split: if_splits)
  with None show ?thesis by (simp add: BuildListResponse_def Let_def)
next
  case (Some page)
  then have lim: "0 < limit req \<and> limit req \<le> MAX_LIST_LIMIT"
    by (auto simp: PaginateGuids_def word_gt_0 not_less split: if_splits)
  define ks where "ks = take (unat (limit req)) (sorted_list_of_set {g \<in> set (bot_guids api w). afterGuid req < g})"
  define cur where "cur = last (afterGuid req # ks)"
  have page: "page_guids page = ks" "nextAfterGuid page = cur"
    using Some by (auto simp: page_values Let_def ks_def cur_def split: if_splits)
  define entries where "entries = map (\<lambda>g. case the (FindBot api w g) of (player, botAI) \<Rightarrow> bot_entry api w g player botAI)
    (filter (\<lambda>g. FindBot api w g \<noteq> None) ks)"
  let ?c = "[(''totalCount'', to_string (length (bot_guids api w))),
      (''returnedCount'', to_string (length ks)), (''truncated'', bool_text (hasMore page))]"
  let ?members = "[(''bots'', ''['' @ render_elements entries, default_value),
      (''nextAfterGuid'', to_string (unat cur), wire_field (WireNumber (ucast cur))),
      (''hasMore'', bool_text (hasMore page), default_value),
      (''completeness'', ''{'' @ render_members ?c, default_value)]"
  let ?text = "''{'' @ render_members (map (\<lambda>(k, t, v). (k, t)) ?members)"
  have bots: "json_text d (''['' @ render_elements entries)" if "d \<le> 1" for d
    using that by (intro json_array) (auto simp: list_all_iff entries_def bot_entry_json case_prod_unfold MAX_NESTED_DEPTH_def)
  have c: "json_text d (''{'' @ render_members ?c)" if "d \<le> 1" for d
    using that by (intro json_object) (simp_all add: json_text_bool json_text_number MAX_NESTED_DEPTH_def)
  have json: "json_text 0 ?text"
    using bots [of 1] c [of 1] by (intro json_object) (simp_all add: json_text_bool json_text_number MAX_NESTED_DEPTH_def)
  have "flat_value (''['' @ render_elements entries) default_value"
    using bots [of 0] by (intro flat_other) (simp_all add: is_digit_char_def ord_def)
  moreover have "flat_value (''{'' @ render_members ?c) default_value"
    using c [of 0] by (intro flat_other) (simp_all add: is_digit_char_def ord_def)
  ultimately have "list_all (\<lambda>(k, t, v). plain_text k \<and> flat_value t v) ?members"
    using flat_number [of "ucast cur"] by (simp add: flat_bool del: render_members.simps)
  from Parse_rendered [OF this] have reads: "Parse None ?text = Some (map (\<lambda>(k, t, v). (k, v)) ?members, None)"
    by (simp del: render_members.simps)
  have cursor: "UnsignedField (map (\<lambda>(k, t, v). (k, v)) ?members) ''nextAfterGuid'' = Some (ucast cur)"
    by (simp add: UnsignedField_def)
  have start: "?text = ''{'' @ json_key ''bots'' @ ''['' @ render_elements entries @
      '','' @ render_members (tl (map (\<lambda>(k, t, v). (k, t)) ?members))"
    by simp
  have "render_elements entries = bots_loop api w True ks @ '']''"
    unfolding entries_def bots_loop_elements found_entries ..
  then have run: "BuildListResponse api req w = (Inr (Success ?text), w)"
    using Some page by (simp add: BuildListResponse_def Let_def)
  show ?thesis unfolding Let_def ks_def [symmetric] entries_def [symmetric] cur_def [symmetric]
    by (intro exI [of _ "Success ?text"]) (use lim json reads cursor start run in \<open>simp only: Success_simps if_True simp_thms; blast\<close>)
qed

theorem status_reads_back_witness:
  "\<exists>r fs. BuildStatusResponse sample_api 0 = (Inr r, 0) \<and> Parse None (resultJson r) = Some (fs, None) \<and>
    UnsignedField fs ''botCount'' = Some 1"
proof -
  have "InspectionSchemaVersion sample_api < 2 ^ 64" "GetQueueSize sample_api 0 < 2 ^ 64"
    "bot_guids sample_api 0 = [12]"
    by (simp_all add: sample_api_def bot_guids_def ResolveBotAI_def)
  with status_reads_back [of sample_api 0] show ?thesis by auto
qed

section \<open>The anomalies answer\<close>

lemma take_anomalies_take:
  "take_anomalies lim f xs records = records @ take (lim - length records) (map f xs)"
proof (induction xs arbitrary: records)
  case (Cons x xs)
  show ?case
  proof (cases "length records < lim")
    case True
    then have "take (lim - length records) (map f (x # xs)) = f x # take (lim - Suc (length records)) (map f xs)"
      by (simp add: Suc_diff_Suc [symmetric])
    with True Cons.IH [of "records @ [f x]"] show ?thesis by simp
  qed simp
qed simp

text \<open>What one bot contributes: the records of its snapshot, and the count the snapshot claims.\<close>

definition bot_anomalies :: "('w, 'p, 'a, 'z) world_api_scheme \<Rightarrow> 'w \<Rightarrow> uint64 \<Rightarrow> uint32 \<Rightarrow> AnomalyRecord list" where
  "bot_anomalies api w now g =
     (case FindBot api w g of
        None \<Rightarrow> []
      | Some (player, botAI) \<Rightarrow>
          (case PlayerbotRecoveryCopyAnomalies api w botAI now of
             (count, anomalies) \<Rightarrow>
               map (\<lambda>anomaly. \<lparr>an_guid = GuidText api w player, an_guidLow = g, an_name = PlayerName api w player,
                 an_level = PlayerLevel api w player, an_anomaly = anomaly\<rparr>) (take count anomalies)))"

definition bot_anomaly_count :: "('w, 'p, 'a, 'z) world_api_scheme \<Rightarrow> 'w \<Rightarrow> uint64 \<Rightarrow> uint32 \<Rightarrow> nat" where
  "bot_anomaly_count api w now g =
     (case FindBot api w g of
        None \<Rightarrow> 0 | Some (player, botAI) \<Rightarrow> fst (PlayerbotRecoveryCopyAnomalies api w botAI now))"

lemma anomalies_loop_spec:
  "length records \<le> lim \<Longrightarrow>
   anomalies_loop api w now lim gs (records, so_far) =
     (take lim (records @ concat (map (bot_anomalies api w now) gs)),
      so_far + of_nat (sum_list (map (bot_anomaly_count api w now) gs)))"
proof (induction gs arbitrary: records so_far)
  case (Cons g gs)
  show ?case
  proof (cases "FindBot api w g")
    case None
    with Cons show ?thesis by (simp add: bot_anomalies_def bot_anomaly_count_def)
  next
    case (Some pa)
    obtain player botAI where pa: "pa = (player, botAI)" by (cases pa)
    obtain count anomalies where snap: "PlayerbotRecoveryCopyAnomalies api w botAI now = (count, anomalies)"
      by (cases "PlayerbotRecoveryCopyAnomalies api w botAI now")
    let ?entry = "\<lambda>anomaly. \<lparr>an_guid = GuidText api w player, an_guidLow = g, an_name = PlayerName api w player,
                 an_level = PlayerLevel api w player, an_anomaly = anomaly\<rparr>"
    let ?records = "records @ take (lim - length records) (bot_anomalies api w now g)"
    have here: "take_anomalies lim ?entry (take count anomalies) records = ?records"
      using Some pa snap by (simp add: take_anomalies_take bot_anomalies_def)
    have "length ?records \<le> lim" using Cons.prems by simp
    from Cons.IH [OF this, of "so_far + of_nat count"]
    have "anomalies_loop api w now lim (g # gs) (records, so_far) =
        (take lim (?records @ concat (map (bot_anomalies api w now) gs)),
         so_far + of_nat count + of_nat (sum_list (map (bot_anomaly_count api w now) gs)))"
      using Some pa snap here by simp
    moreover have "take lim (?records @ concat (map (bot_anomalies api w now) gs)) =
        take lim (records @ concat (map (bot_anomalies api w now) (g # gs)))"
      using Cons.prems by (cases "length (bot_anomalies api w now g) \<le> lim - length records") simp_all
    moreover have "bot_anomaly_count api w now g = count"
      using Some pa snap by (simp add: bot_anomaly_count_def)
    ultimately show ?thesis by (simp add: add.assoc)
  qed
qed simp

lemma sum_list_lengths:
  "(\<And>g. g \<in> set gs \<Longrightarrow> length (f g) = c g) \<Longrightarrow> length (concat (map f gs)) = sum_list (map c gs)"
  by (induction gs) auto

lemma anomalies_collected:
  assumes "\<And>g player botAI. FindBot api w g = Some (player, botAI) \<Longrightarrow>
      fst (PlayerbotRecoveryCopyAnomalies api w botAI now) \<le> length (snd (PlayerbotRecoveryCopyAnomalies api w botAI now))"
    and "sum_list (map (bot_anomaly_count api w now) gs) < 2 ^ 64"
    and "anomalies_loop api w now (unat (lim :: uint32)) gs ([], 0) = (records, all)"
  shows "records = take (unat lim) (concat (map (bot_anomalies api w now) gs)) \<and>
    unat all = length (concat (map (bot_anomalies api w now) gs)) \<and>
    (of_nat (length records) < all \<longleftrightarrow> length records < length (concat (map (bot_anomalies api w now) gs)))"
proof -
  let ?found = "concat (map (bot_anomalies api w now) gs)" and ?n = "sum_list (map (bot_anomaly_count api w now) gs)"
  have "length (bot_anomalies api w now g) = bot_anomaly_count api w now g" for g
    using assms(1) [of g]
    by (force simp: bot_anomalies_def bot_anomaly_count_def split: option.split prod.split)
  then have len: "length ?found = ?n" by (rule sum_list_lengths)
  have eq: "records = take (unat lim) ?found" "all = of_nat ?n"
    using anomalies_loop_spec [of "[]" "unat lim" api w now gs 0] assms(3) by simp_all
  have unat: "unat (of_nat m :: uint64) = m" if "m < 2 ^ 64" for m
    using that by (simp add: unsigned_of_nat take_bit_eq_mod)
  have all: "unat all = length ?found" using eq(2) unat [OF assms(2)] len by simp
  have "length records \<le> length ?found" using eq(1) by simp
  then have "unat (of_nat (length records) :: uint64) = length records"
    using assms(2) len by (intro unat) simp
  then have "of_nat (length records) < all \<longleftrightarrow> length records < length ?found"
    using all by (simp add: word_less_nat_alt)
  with eq(1) all show ?thesis by blast
qed

lemma records_loop_elements:
  "records_loop api 0 records @ '']'' = render_elements (map (anomaly_entry api) records)"
proof -
  have more: "records_loop api (Suc n) records = concat (map (\<lambda>r. '','' @ anomaly_entry api r) records)" for n records
    by (induction records arbitrary: n) simp_all
  have tail: "v @ concat (map (\<lambda>v. '','' @ v) vs) @ '']'' = render_elements (v # vs)" for v vs
    by (induction vs arbitrary: v) simp_all
  show ?thesis
  proof (cases records)
    case (Cons r rs)
    with tail [of "anomaly_entry api r" "map (anomaly_entry api) rs"] show ?thesis by (simp add: more comp_def)
  qed simp
qed

text \<open>
  C32: the answer to an anomalies request with a limit from 1 to 50, in closed form. It lists the first
  anomalies of all bots, bot after bot in increasing GUID order and never more than the limit; it counts
  the bots, all of their anomalies and the listed ones; and it calls itself truncated exactly when it
  left one out. The world is untouched. This needs that a snapshot does not claim more anomalies than
  it holds and that their number fits into 64 bits.
\<close>

theorem anomalies_answer:
  fixes api :: "('w, 'p, 'a, 'z) world_api_scheme"
  defines "found w \<equiv> concat (map (bot_anomalies api w (GetTimeMS api w)) (sort (bot_guids api w)))"
  assumes "0 < limit req" and "limit req \<le> MAX_ANOMALY_LIMIT"
    and "\<And>g player botAI. FindBot api w g = Some (player, botAI) \<Longrightarrow>
      fst (PlayerbotRecoveryCopyAnomalies api w botAI (GetTimeMS api w)) \<le>
      length (snd (PlayerbotRecoveryCopyAnomalies api w botAI (GetTimeMS api w)))"
    and "sum_list (map (bot_anomaly_count api w (GetTimeMS api w)) (sort (bot_guids api w))) < 2 ^ 64"
  shows "BuildAnomaliesResponse api req w =
    (let shown = take (unat (limit req)) (found w) in
     (Inr (Success (''{'' @ render_members
        [(''anomalies'', ''['' @ render_elements (map (anomaly_entry api) shown)),
         (''completeness'', ''{'' @ render_members
            [(''totalBotCount'', to_string (length (bot_guids api w))),
             (''totalAnomalyCount'', to_string (length (found w))),
             (''returnedCount'', to_string (length shown)),
             (''truncated'', bool_text (length shown < length (found w)))])])), w))"
proof -
  obtain records all where run: "anomalies_loop api w (GetTimeMS api w) (unat (limit req)) (sort (bot_guids api w)) ([], 0) =
      (records, all)" by fastforce
  have "records = take (unat (limit req)) (found w) \<and> unat all = length (found w) \<and>
      (of_nat (length records) < all \<longleftrightarrow> length records < length (found w))"
    unfolding found_def by (rule anomalies_collected [OF _ assms(5) run]) (rule assms(4))
  then have eq: "records = take (unat (limit req)) (found w)" "unat all = length (found w)"
    "of_nat (length records) < all \<longleftrightarrow> length records < length (found w)" by blast+
  have "records_loop api 0 records @ '']'' = render_elements (map (anomaly_entry api) records)"
    by (rule records_loop_elements)
  then have entries: "records_loop api 0 records @ CHR '']'' # rest =
      render_elements (map (anomaly_entry api) records) @ rest" for rest
    by (metis append.assoc append_Cons append_Nil)
  show ?thesis
    using assms(2,3) run eq(2,3) unfolding Let_def eq(1) [symmetric]
    by (simp add: BuildAnomaliesResponse_def word_gt_0 not_less Let_def entries)
qed

theorem anomalies_answer_witness:
  "\<exists>text. BuildAnomaliesResponse sample_api (concretize 7 (TAnomalies 5)) 0 = (Inr (Success text), 0)"
proof -
  let ?req = "concretize 7 (TAnomalies 5)"
  have snap: "PlayerbotRecoveryCopyAnomalies sample_api w ai now = sample_snapshot" for w ai now
    by (simp add: sample_api_def)
  have bots: "bot_guids sample_api 0 = [12]" by (simp add: sample_api_def bot_guids_def ResolveBotAI_def)
  have count: "bot_anomaly_count sample_api 0 now g \<le> 1" for now g
    by (simp add: bot_anomaly_count_def snap sample_snapshot_def split: option.split)
  from count [of "GetTimeMS sample_api 0" 12]
  have total: "sum_list (map (bot_anomaly_count sample_api 0 (GetTimeMS sample_api 0)) (sort (bot_guids sample_api 0))) < 2 ^ 64"
    by (simp add: bots)
  have lim: "0 < limit ?req" "limit ?req \<le> MAX_ANOMALY_LIMIT" by (simp_all add: MAX_ANOMALY_LIMIT_def)
  show ?thesis
    by (rule exI, rule anomalies_answer [of ?req sample_api 0, unfolded Let_def, OF lim _ total])
       (simp add: snap sample_snapshot_def)
qed

section \<open>Checks\<close>

text \<open>What a check of a typed condition answers: the condition's truth on the inspection of the bot.\<close>

definition check_answer :: "('w, 'p, 'a, 'z) world_api_scheme \<Rightarrow> 'w \<Rightarrow> uint32 \<Rightarrow> typed_condition \<Rightarrow> Response" where
  "check_answer api w guid c =
     (case FindBot api w guid of
        None \<Rightarrow> Failure EC_BotNotFound []
      | Some (player, botAI) \<Rightarrow>
          (let inspection = BuildVerification api w player botAI
           in Success (''{'' @ json_key ''matched'' @ bool_text (satisfies (ActionNameCapacity api) inspection c) @
                '','' @ json_key ''condition'' @ AppendJsonString api [] (condition_name c) @
                '','' @ json_key ''snapshot'' @ SerializeVerification api inspection @ ''}'')))"

lemma check_answers:
  assumes "valid_condition c"
  shows "BuildCheckResponse api (concretize rid (TCheck guid c)) w = (Inr (check_answer api w guid c), w)"
  using condition_agrees [OF assms]
  by (simp add: BuildCheckResponse_def check_answer_def Let_def AppendJsonString_def split: option.split)

text \<open>
  C21: a check request, from its text to its answer. When the parser accepted the payload of a check and
  the bot is managed, the answer's \<open>matched\<close> says whether the bot's inspection satisfies the condition
  the client wrote, and it repeats the name of the condition; without the bot the answer is the
  error, and in both cases the world is untouched.
\<close>

theorem check_end_to_end:
  assumes "request (ParseRequestPayload sha256 s digest) = Some req" and "operation req = Op_Check"
  shows "\<exists>rid guid c. req = concretize rid (TCheck guid c) \<and> valid_condition c \<and>
    BuildCheckResponse api req w = (Inr (check_answer api w guid c), w)"
proof -
  obtain rid t where req: "valid_request t" "req = concretize rid t" using ParseRequestPayload_typed [OF assms(1)] by blast
  with assms(2) obtain guid c where t: "t = TCheck guid c" "valid_condition c" by (cases t) (auto simp: empty_request_def)
  have r: "req = concretize rid (TCheck guid c)" using req(2) unfolding t(1) .
  show ?thesis using r t(2) check_answers [OF t(2), of api rid guid w] unfolding r by blast
qed

theorem check_end_to_end_witness:
  "\<exists>out. BuildCheckResponse sample_api (concretize 7 (TCheck 12 (CMap 1))) 0 = (Inr (Success out), 0)"
proof -
  let ?t = "TCheck 12 (CMap 1)"
  have p: "request (ParseRequestPayload sample_digest (render_object (wire 7 ''secret'' ?t)) sample_token) =
      Some (concretize 7 ?t)"
    using rendered_request_accepted [of ?t sample_digest "''secret''" sample_token 7] sample_authentic
    by (simp add: accept_def)
  have o: "operation (concretize 7 ?t) = Op_Check" by simp
  from check_end_to_end [OF p o, of sample_api 0] show ?thesis
    by (auto simp: empty_request_def check_answer_def Let_def)
qed

end
