(* ===== verification/Float_Arith.thy ===== *)
theory Float_Arith
  imports Float_Text
begin

text \<open>
  The single precision arithmetic the teleport handler uses: comparison, sum and doubling of floats
  given by their bits, as IEEE 754 defines them (round to nearest, ties to even). Every finite float
  is an integer multiple of \<open>2 ^ -149\<close>, so the exact result is an integer in this unit, and rounding it
  is choosing 24 of its bits. The arithmetic is that of separate operations, without contraction.
\<close>

section \<open>Values\<close>

text \<open>The magnitude and the value of a finite float, in units of \<open>2 ^ -149\<close>.\<close>

definition float_units :: "float32 \<Rightarrow> nat" where
  "float_units w =
     (if float_exponent w = 0 then float_fraction w
      else (2 ^ 23 + float_fraction w) * 2 ^ (float_exponent w - 1))"

definition float_value :: "float32 \<Rightarrow> int" where
  "float_value w = (if float_negative w then - int (float_units w) else int (float_units w))"

definition float_nan :: "float32 \<Rightarrow> bool" where
  "float_nan w \<longleftrightarrow> \<not> float_finite w \<and> float_fraction w \<noteq> 0"

definition float_infinite :: "float32 \<Rightarrow> bool" where
  "float_infinite w \<longleftrightarrow> \<not> float_finite w \<and> float_fraction w = 0"

definition quiet_nan :: float32 where "quiet_nan = 0x7FC00000"
definition infinity_bits :: nat where "infinity_bits = 255 * 2 ^ 23"

fun bit_size :: "nat \<Rightarrow> nat" where
  "bit_size n = (if n = 0 then 0 else Suc (bit_size (n div 2)))"

declare bit_size.simps [simp del]

text \<open>The bits of the float nearest to \<open>n\<close> units; past the largest finite float, infinity.\<close>

definition round_units :: "nat \<Rightarrow> nat" where
  "round_units n = (let k = bit_size n - 24 in min (k * 2 ^ 23 + round_half_even n (2 ^ k)) infinity_bits)"

definition signed_float :: "bool \<Rightarrow> nat \<Rightarrow> float32" where
  "signed_float neg b = of_nat ((if neg then 2 ^ 31 else 0) + b)"

definition float_of :: "int \<Rightarrow> float32" where
  "float_of v = signed_float (v < 0) (round_units (nat \<bar>v\<bar>))"

section \<open>Operations\<close>

definition float_add :: "float32 \<Rightarrow> float32 \<Rightarrow> float32" where
  "float_add a b =
     (if float_nan a \<or> float_nan b then quiet_nan
      else if float_infinite a \<and> float_infinite b then
        (if float_negative a = float_negative b then a else quiet_nan)
      else if float_infinite a then a
      else if float_infinite b then b
      else if float_value a + float_value b = 0 then
        signed_float (float_negative a \<and> float_negative b) 0
      else float_of (float_value a + float_value b))"

text \<open>\<open>2.0f * x\<close>\<close>

definition float_double :: "float32 \<Rightarrow> float32" where
  "float_double a =
     (if float_nan a then quiet_nan
      else if float_infinite a then a
      else signed_float (float_negative a) (round_units (2 * float_units a)))"

text \<open>\<open>a < b\<close>: false when either is a NaN; the two zeros are equal.\<close>

definition float_order :: "float32 \<Rightarrow> int" where
  "float_order w =
     (if float_infinite w then (if float_negative w then - (2 ^ 300) else 2 ^ 300) else float_value w)"

definition float_less :: "float32 \<Rightarrow> float32 \<Rightarrow> bool" where
  "float_less a b \<longleftrightarrow> \<not> float_nan a \<and> \<not> float_nan b \<and> float_order a < float_order b"

lemma float_less_irrefl [simp]: "\<not> float_less a a"
  by (simp add: float_less_def)

lemma float_less_trans: "float_less a b \<Longrightarrow> float_less b c \<Longrightarrow> float_less a c"
  by (auto simp: float_less_def)

section \<open>Rounding is exact on floats\<close>

lemma float_fields:
  "float_exponent w = unat w div 2 ^ 23 mod 2 ^ 8" "float_fraction w = unat w mod 2 ^ 23"
  "float_negative w \<longleftrightarrow> odd (unat w div 2 ^ 31)"
proof -
  have "drop_bit 23 w AND 0xFF = take_bit 8 (drop_bit 23 w)" by (simp add: take_bit_eq_mask mask_eq_exp_minus_1)
  then have "float_exponent w = take_bit 8 (unat (drop_bit 23 w))"
    by (simp only: float_exponent_def unsigned_take_bit_eq)
  also have "unat (drop_bit 23 w) = drop_bit 23 (take_bit LENGTH(32) (unat w))" by (rule unsigned_drop_bit_eq)
  also have "take_bit LENGTH(32) (unat w) = unat w"
    using unat_less_32 [of w] by (intro take_bit_nat_eq_self) simp
  also have "drop_bit 23 (unat w) = unat w div 2 ^ 23" by (rule drop_bit_eq_div)
  finally show "float_exponent w = unat w div 2 ^ 23 mod 2 ^ 8" by (simp only: take_bit_eq_mod)
  have "w AND 0x7FFFFF = take_bit 23 w" by (simp add: take_bit_eq_mask mask_eq_exp_minus_1)
  then have "float_fraction w = take_bit 23 (unat w)"
    by (simp only: float_fraction_def unsigned_take_bit_eq)
  then show "float_fraction w = unat w mod 2 ^ 23" by (simp only: take_bit_eq_mod)
  have "float_negative w \<longleftrightarrow> bit (unat w) 31" by (simp add: float_negative_def bit_unsigned_iff)
  then show "float_negative w \<longleftrightarrow> odd (unat w div 2 ^ 31)" by (simp only: bit_iff_odd)
qed

lemma join_fields: "a = b * 2 ^ 8 + c \<Longrightarrow> a * 2 ^ 23 + m = u \<Longrightarrow> u = b * 2 ^ 31 + c * 2 ^ 23 + m" for a b c m u :: nat
  by simp

lemma split_bits:
  fixes u :: nat
  assumes "u < 2 ^ 32"
  shows "u = (if odd (u div 2 ^ 31) then 2 ^ 31 else 0) + u div 2 ^ 23 mod 2 ^ 8 * 2 ^ 23 + u mod 2 ^ 23"
proof -
  have "u div 2 ^ 31 < 2" using assms by (simp add: less_mult_imp_div_less)
  then have top: "(if odd (u div 2 ^ 31) then 2 ^ 31 else 0) = u div 2 ^ 31 * 2 ^ 31"
    by (cases "u div 2 ^ 31 = 0") auto
  have "u div 2 ^ 23 = u div 2 ^ 31 * 2 ^ 8 + u div 2 ^ 23 mod 2 ^ 8"
    using div_mult_mod_eq [of "u div 2 ^ 23" "2 ^ 8"] div_mult2_eq [of u "2 ^ 23" "2 ^ 8"] by simp
  from join_fields [OF this div_mult_mod_eq] show ?thesis unfolding top .
qed

lemma float_bits:
  "unat (w :: float32) =
     (if float_negative w then 2 ^ 31 else 0) + float_exponent w * 2 ^ 23 + float_fraction w"
  unfolding float_fields by (rule split_bits) (use unat_less_32 [of w] in simp)

lemma float_exponent_less: "float_exponent w < 256" and float_fraction_less: "float_fraction w < 2 ^ 23"
  unfolding float_fields by simp_all


lemma bit_size_le_iff: "bit_size n \<le> k \<longleftrightarrow> n < 2 ^ k"
proof (induction k arbitrary: n)
  case 0
  then show ?case by (subst bit_size.simps) simp
next
  case (Suc k)
  show ?case
  proof (cases "n = 0")
    case False
    then have "bit_size n \<le> Suc k \<longleftrightarrow> n div 2 < 2 ^ k"
      using Suc.IH [of "n div 2"] by (subst bit_size.simps) simp
    then show ?thesis by (simp add: div_less_iff_less_mult mult.commute)
  qed (subst bit_size.simps, simp)
qed

lemma bit_sizeI: "2 ^ k \<le> n \<Longrightarrow> n < 2 ^ Suc k \<Longrightarrow> bit_size n = Suc k"
  using bit_size_le_iff [of n "Suc k"] bit_size_le_iff [of n k] by simp

lemma round_half_even_exact: "0 < b \<Longrightarrow> round_half_even (q * b) b = q"
  by (simp add: round_half_even_def Let_def)

lemma round_units_float:
  assumes "float_finite w"
  shows "round_units (float_units w) = float_exponent w * 2 ^ 23 + float_fraction w"
proof (cases "float_exponent w = 0")
  case True
  then have n: "float_units w < 2 ^ 23" using float_fraction_less [of w] by (simp add: float_units_def)
  then have "bit_size (float_units w) \<le> 24" unfolding bit_size_le_iff by simp
  moreover have "round_half_even (float_units w) 1 = float_units w"
    using round_half_even_exact [of 1 "float_units w"] by simp
  ultimately show ?thesis using n True by (simp add: round_units_def infinity_bits_def float_units_def)
next
  case False
  then obtain k where k: "float_exponent w = Suc k" by (cases "float_exponent w") auto
  let ?m = "2 ^ 23 + float_fraction w"
  have units: "float_units w = ?m * 2 ^ k" using k by (simp add: float_units_def)
  have "bit_size (?m * 2 ^ k) = Suc (23 + k)"
  proof (rule bit_sizeI)
    show "2 ^ (23 + k) \<le> ?m * 2 ^ k" by (simp add: power_add)
    have "?m * 2 ^ k < 2 ^ 24 * 2 ^ k" using float_fraction_less [of w] by simp
    then show "?m * 2 ^ k < 2 ^ Suc (23 + k)" by (simp add: power_add)
  qed
  then have size: "bit_size (float_units w) - 24 = k" using units by simp
  have "round_half_even (?m * 2 ^ k) (2 ^ k) = ?m" by (rule round_half_even_exact) simp
  moreover have "Suc k < 255"
    using assms float_exponent_less [of w] k by (simp add: float_finite_def)
  ultimately show ?thesis
    using size units k float_fraction_less [of w] by (simp add: round_units_def infinity_bits_def)
qed

lemma signed_float_bits: "signed_float (float_negative w) (float_exponent w * 2 ^ 23 + float_fraction w) = w"
proof -
  have "(if float_negative w then 2 ^ 31 else 0) + (float_exponent w * 2 ^ 23 + float_fraction w) = unat w"
    unfolding float_bits [of w] by simp
  then show ?thesis unfolding signed_float_def by simp
qed

lemma float_of_value:
  assumes "float_finite w" and "float_value w \<noteq> 0"
  shows "float_of (float_value w) = w"
proof -
  have "nat \<bar>float_value w\<bar> = float_units w" by (simp add: float_value_def)
  moreover have "float_value w < 0 \<longleftrightarrow> float_negative w" using assms(2) by (auto simp: float_value_def)
  ultimately show ?thesis
    using signed_float_bits [of w] round_units_float [OF assms(1)] by (simp add: float_of_def)
qed

lemma float_double_add: "float_double a = float_add a a"
proof (cases "float_nan a \<or> float_infinite a")
  case True
  then show ?thesis by (auto simp: float_double_def float_add_def)
next
  case False
  show ?thesis
  proof (cases "float_value a = 0")
    case True
    then have "float_units a = 0" by (auto simp: float_value_def split: if_splits)
    then have "round_units (2 * float_units a) = 0"
      by (simp add: round_units_def bit_size.simps round_half_even_def)
    with False True show ?thesis by (simp add: float_double_def float_add_def)
  next
    case nz: False
    have "nat \<bar>float_value a + float_value a\<bar> = 2 * float_units a" by (simp add: float_value_def)
    moreover have "float_value a + float_value a < 0 \<longleftrightarrow> float_negative a" using nz by (auto simp: float_value_def)
    ultimately show ?thesis using False nz by (simp add: float_double_def float_add_def float_of_def)
  qed
qed

text \<open>
  The float arithmetic is exact where the result can be represented: when the exact sum of two
  finite floats is the value of a finite float other than zero, the sum is that float, bit for bit; and
  the doubling of a float is its sum with itself.
\<close>

theorem float_sum_exact:
  assumes "float_finite a" "float_finite b" "float_finite c"
    and "float_value a + float_value b = float_value c" "float_value c \<noteq> 0"
  shows "float_add a b = c \<and> float_double a = float_add a a"
  using assms float_of_value [of c] float_double_add [of a]
  by (simp add: float_add_def float_nan_def float_infinite_def)

theorem float_sum_exact_witness: "float_add 0x3FC00000 0x40100000 = 0x40700000"
proof -
  have "float_finite 0x3FC00000" "float_finite 0x40100000" "float_finite 0x40700000"
    by (simp_all add: float_finite_def float_fields)
  moreover have "float_value 0x3FC00000 + float_value 0x40100000 = float_value 0x40700000"
    "float_value 0x40700000 \<noteq> 0"
    by (simp_all add: float_value_def float_units_def float_fields)
  ultimately show ?thesis using float_sum_exact by blast
qed

end
