(* ===== verification/Handlers_Act.thy ===== *)
theory Handlers_Act
  imports Handlers_Read Float_Arith
begin

text \<open>
  The handlers that change the world: command, set_skill, teleport_to_gameobject, the three lease
  operations, gm_command and reload_config. The lemmas say under which conditions each of them
  changes anything, with which arguments, and what its answer reports.
\<close>

section \<open>Command\<close>

definition BuildCommandResponse :: "('w, 'p, 'a, 'z) world_api_scheme \<Rightarrow> Request \<Rightarrow> ('w, Response) comp" where
  "BuildCommandResponse api req = (\<lambda>w.
     case FindBot api w (botGuid req) of
       None \<Rightarrow> returnE (Failure EC_BotNotFound []) w
     | Some (player, botAI) \<Rightarrow>
         (case FindPlayer api w (masterGuid req) of
            None \<Rightarrow> returnE (Failure EC_MasterNotFound []) w
          | Some master \<Rightarrow>
              if ResolveBotAI api w (Some master) \<noteq> None then returnE (Failure EC_MasterIsBot []) w
              else if GetMaster api w botAI \<noteq> Some master then returnE (Failure EC_InvalidRelationship []) w
              else
                (case TelemetryBaseline api w botAI of
                   (baselineActionSequence, baselineEconomySequence) \<Rightarrow>
                     bindE (HandleCommand api botAI (command req) master) (\<lambda>_. readE (\<lambda>w.
                       let out1 = AppendJsonString api (''{'' @ json_key ''dispatched'' @ ''true,'' @ json_key ''botGuid'')
                                    (GuidText api w player);
                           out2 = AppendJsonString api (out1 @ '','' @ json_key ''masterGuid'') (GuidText api w master);
                           out3 = AppendJsonString api (out2 @ '','' @ json_key ''command'') (command req)
                       in Success (out3 @ '','' @ json_key ''baselineActionSequence'' @ to_string (unat baselineActionSequence) @
                            '','' @ json_key ''baselineEconomySequence'' @ to_string (unat baselineEconomySequence) @ ''}''))) w)))"

section \<open>Set skill\<close>

definition BuildSetSkillResponse :: "('w, 'p, 'a, 'z) world_api_scheme \<Rightarrow> Request \<Rightarrow> ('w, Response) comp" where
  "BuildSetSkillResponse api req = (\<lambda>w.
     case FindBot api w (botGuid req) of
       None \<Rightarrow> returnE (Failure EC_BotNotFound []) w
     | Some (player, botAI) \<Rightarrow>
         (let skillId = ucast (RequestNumber req ''skillId'' 0) :: uint16;
              skill = ucast (RequestNumber req ''value'' 0) :: uint16;
              maximum = ucast (RequestNumber req ''maximum'' 0) :: uint16
          in if \<not> HasSkill api w player skillId then returnE (Failure EC_InvalidSkill []) w
             else
               (let previousValue = GetPureSkillValue api w player skillId;
                    previousMaximum = GetPureMaxSkillValue api w player skillId
                in bindE (SetSkill api player skillId (ucast ((ucast maximum :: uint32) div SKILL_RANK_STEP)) skill maximum)
                     (\<lambda>_. readE (\<lambda>w.
                       let out = AppendJsonString api (''{'' @ json_key ''botGuid'') (GuidText api w player)
                       in Success (out @ '','' @ json_key ''skillId'' @ to_string (unat skillId) @
                            '','' @ json_key ''previousValue'' @ to_string (unat previousValue) @
                            '','' @ json_key ''previousMaximum'' @ to_string (unat previousMaximum) @
                            '','' @ json_key ''value'' @ to_string (unat (GetPureSkillValue api w player skillId)) @
                            '','' @ json_key ''maximum'' @ to_string (unat (GetPureMaxSkillValue api w player skillId)) @ ''}''))) w)))"

section \<open>Teleport\<close>

text \<open>The loop over all spawns: \<open>nearest\<close> with its distance, or the null pointer.\<close>

fun nearest_loop ::
  "('w, 'p, 'a, 'z) world_api_scheme \<Rightarrow> 'w \<Rightarrow> 'p \<Rightarrow> uint32 \<Rightarrow> (uint32 \<times> GameObjectData) list \<Rightarrow>
    (GameObjectData \<times> float32) option \<Rightarrow> (GameObjectData \<times> float32) option" where
  "nearest_loop api w player entry [] nearest = nearest"
| "nearest_loop api w player entry ((spawnId, data) # rest) nearest =
     (if go_id data \<noteq> entry \<or> go_mapid data \<noteq> GetMapId api w player
      then nearest_loop api w player entry rest nearest
      else if IsPartOfAPool api w spawnId \<and> \<not> IsSpawnedObject api w player spawnId
      then nearest_loop api w player entry rest nearest
      else
        (let distance = GetExactDist api w player (go_posX data) (go_posY data) (go_posZ data)
         in case nearest of
              None \<Rightarrow> nearest_loop api w player entry rest (Some (data, distance))
            | Some (best, nearestDistance) \<Rightarrow>
                if float_less distance nearestDistance
                then nearest_loop api w player entry rest (Some (data, distance))
                else nearest_loop api w player entry rest nearest))"

definition BuildTeleportToGameObjectResponse :: "('w, 'p, 'a, 'z) world_api_scheme \<Rightarrow> Request \<Rightarrow> ('w, Response) comp" where
  "BuildTeleportToGameObjectResponse api req = (\<lambda>w.
     case FindBot api w (botGuid req) of
       None \<Rightarrow> returnE (Failure EC_BotNotFound []) w
     | Some (player, botAI) \<Rightarrow>
         if \<not> IsInWorld api w player \<or> IsBeingTeleported api w player \<or> IsInCombat api w player \<or> isDead api w player
         then returnE (Failure EC_BotUnavailable []) w
         else
           (let entry = ucast (RequestNumber req ''gameObjectEntry'' 0) :: uint32
            in case nearest_loop api w player entry (GetAllGOData api w) None of
                 None \<Rightarrow> returnE (Failure EC_GameObjectNotFound []) w
               | Some (nearest, nearestDistance) \<Rightarrow>
                   (let x = float_add (go_posX nearest) (float_double (cosf api (go_orientation nearest)));
                        y = float_add (go_posY nearest) (float_double (sinf api (go_orientation nearest)))
                    in bindE (TeleportTo api player (go_mapid nearest) x y (go_posZ nearest) (go_orientation nearest))
                         (\<lambda>accepted.
                           if \<not> accepted then returnE (Failure EC_BotUnavailable [])
                           else
                             bindE (PlayerbotRecoveryClearStuckStateWithoutHistory api botAI) (\<lambda>_.
                             bindE (ClearTaxiDestinations api player) (\<lambda>_. readE (\<lambda>w.
                               let out = AppendJsonString api (''{'' @ json_key ''botGuid'') (GuidText api w player)
                               in Success (out @ '','' @ json_key ''gameObjectEntry'' @ to_string (unat entry) @
                                    '','' @ json_key ''spawnId'' @ to_string (unat (go_spawnId nearest)) @
                                    '','' @ json_key ''mapId'' @ to_string (unat (go_mapid nearest)) @
                                    '','' @ json_key ''distanceBefore'' @ float_text 6 nearestDistance @ ''}''))))) w)))"

section \<open>Activity leases\<close>

definition BuildHoldActivityResponse :: "('w, 'p, 'a, 'z) world_api_scheme \<Rightarrow> Request \<Rightarrow> ('w, Response) comp" where
  "BuildHoldActivityResponse api req = (\<lambda>w.
     case ResolveActivityLeaseTarget api w req True of
       Inl failure \<Rightarrow> returnE failure w
     | Inr (player, botAI) \<Rightarrow>
         bindE
           (let leaseToken = RequestString req ''leaseToken''
            in if leaseToken = [] then NewActivityLeaseToken api else returnE leaseToken)
           (\<lambda>leaseToken. bindE (readE (GetGameTime api)) (\<lambda>now.
              bindE (HoldActivityLease api botAI leaseToken (ucast (RequestNumber req ''durationSeconds'' 0)) now)
                (\<lambda>(result, state). readE (\<lambda>w.
                   if result = AQ_Conflict then Failure EC_ActivityLeaseConflict []
                   else if result = AQ_Invalid then Failure EC_InvalidActivityLease []
                   else
                     (let out1 = AppendJsonString api (''{'' @ json_key ''botGuid'') (GuidText api w player);
                          out2 = AppendJsonString api (out1 @ '','' @ json_key ''outcome'') (ActivityLeaseAcquireOutcomeName result);
                          out3 = AppendJsonString api (out2 @ '','' @ json_key ''leaseToken'') (lease_token state)
                      in Success (out3 @ '','' @ json_key ''active'' @ ''true,'' @
                           json_key ''expiresAt'' @ to_string (unat (lease_expiresAt state)) @
                           '','' @ json_key ''remainingSeconds'' @ to_string (unat (ActivityLeaseRemaining state now)) @ ''}'')))))) w)"

definition BuildInspectActivityLeaseResponse :: "('w, 'p, 'a, 'z) world_api_scheme \<Rightarrow> Request \<Rightarrow> ('w, Response) comp" where
  "BuildInspectActivityLeaseResponse api req = (\<lambda>w.
     case ResolveActivityLeaseTarget api w req False of
       Inl failure \<Rightarrow> returnE failure w
     | Inr (player, botAI) \<Rightarrow>
         bindE (readE (GetGameTime api)) (\<lambda>now.
           bindE (InspectActivityLease api botAI now) (\<lambda>state. readE (\<lambda>w.
             let out = AppendJsonString api (''{'' @ json_key ''botGuid'') (GuidText api w player)
             in Success (out @ '','' @ json_key ''active'' @ bool_text (lease_active state) @
                  '','' @ json_key ''expiresAt'' @ to_string (unat (lease_expiresAt state)) @
                  '','' @ json_key ''remainingSeconds'' @ to_string (unat (ActivityLeaseRemaining state now)) @ ''}'')))) w)"

definition BuildReleaseActivityResponse :: "('w, 'p, 'a, 'z) world_api_scheme \<Rightarrow> Request \<Rightarrow> ('w, Response) comp" where
  "BuildReleaseActivityResponse api req = (\<lambda>w.
     case ResolveActivityLeaseTarget api w req False of
       Inl failure \<Rightarrow> returnE failure w
     | Inr (player, botAI) \<Rightarrow>
         bindE (readE (GetGameTime api)) (\<lambda>now.
           bindE (ReleaseActivityLease api botAI (RequestString req ''leaseToken'') now) (\<lambda>result.
             if result = RL_Conflict then returnE (Failure EC_ActivityLeaseConflict [])
             else if result = RL_Invalid then returnE (Failure EC_InvalidActivityLease [])
             else
               bindE (InspectActivityLease api botAI now) (\<lambda>state. readE (\<lambda>w.
                 let out1 = AppendJsonString api (''{'' @ json_key ''botGuid'') (GuidText api w player);
                     out2 = AppendJsonString api (out1 @ '','' @ json_key ''outcome'') (ActivityLeaseReleaseOutcomeName result)
                 in Success (out2 @ '','' @ json_key ''active'' @ bool_text (lease_active state) @
                      '','' @ json_key ''expiresAt'' @ to_string (unat (lease_expiresAt state)) @
                      '','' @ json_key ''remainingSeconds'' @ to_string (unat (ActivityLeaseRemaining state now)) @ ''}''))))) w)"

section \<open>Console commands and configuration\<close>

text \<open>The print callback: a text is appended while the output is below half of the response budget.\<close>

definition print_sink :: "string \<Rightarrow> string \<Rightarrow> string" where
  "print_sink sink piece = (if length sink < MAX_RESPONSE_PAYLOAD_BYTES div 2 then sink @ piece else sink)"

definition BuildGmCommandResponse :: "('w, 'p, 'a, 'z) world_api_scheme \<Rightarrow> Request \<Rightarrow> ('w, Response) comp" where
  "BuildGmCommandResponse api req =
     bindE (ParseCommands api (command req)) (\<lambda>(pieces, parsed, sentError). returnE (
       let output = foldl print_sink [] pieces;
           out1 = AppendJsonString api (''{'' @ json_key ''command'') (command req);
           out2 = AppendJsonString api
                    (out1 @ '','' @ json_key ''succeeded'' @ bool_text (parsed \<and> \<not> sentError) @ '','' @ json_key ''output'')
                    output
       in Success (out2 @ ''}'')))"

definition BuildReloadConfigResponse :: "('w, 'p, 'a, 'z) world_api_scheme \<Rightarrow> ('w, Response) comp" where
  "BuildReloadConfigResponse api =
     bindE (LoadConfigSettings api) (\<lambda>_. bindE (InitializeVisibilityDistanceInfo api) (\<lambda>_.
       returnE (Success (''{'' @ json_key ''reloaded'' @ ''true}''))))"

lemmas act_handlers [handler_defs] =
  BuildCommandResponse_def BuildSetSkillResponse_def BuildTeleportToGameObjectResponse_def
  BuildHoldActivityResponse_def BuildInspectActivityLeaseResponse_def BuildReleaseActivityResponse_def
  BuildGmCommandResponse_def BuildReloadConfigResponse_def


declare wire_field.simps [simp del]

section \<open>Who may command a bot\<close>

text \<open>The bot is managed, the master is a player without a bot AI, and the bot is in that master's service.\<close>

definition may_command :: "('w, 'p, 'a, 'z) world_api_scheme \<Rightarrow> 'w \<Rightarrow> Request \<Rightarrow> 'p \<Rightarrow> 'a \<Rightarrow> 'p \<Rightarrow> bool" where
  "may_command api w req player botAI master \<longleftrightarrow>
     FindPlayer api w (botGuid req) = Some player \<and> GET_PLAYERBOT_AI api w player = Some botAI \<and>
     FindPlayer api w (masterGuid req) = Some master \<and> GET_PLAYERBOT_AI api w master = None \<and>
     GetMaster api w botAI = Some master"

lemma FindBot_Some:
  "FindBot api w g = Some (player, botAI) \<longleftrightarrow> FindPlayer api w g = Some player \<and> GET_PLAYERBOT_AI api w player = Some botAI"
  by (auto simp: FindBot_def ResolveBotAI_def split: option.splits)

definition command_members ::
  "('w, 'p, 'a, 'z) world_api_scheme \<Rightarrow> 'w \<Rightarrow> uint64 \<times> uint64 \<Rightarrow> Request \<Rightarrow> 'p \<Rightarrow> 'p \<Rightarrow> (string \<times> string \<times> FlatJsonValue) list" where
  "command_members api w base req player master =
     [(''dispatched'', bool_text True, default_value),
      (''botGuid'', AppendJsonString api [] (GuidText api w player), wire_field (WireString (replace_invalid api (GuidText api w player)))),
      (''masterGuid'', AppendJsonString api [] (GuidText api w master), wire_field (WireString (replace_invalid api (GuidText api w master)))),
      (''command'', AppendJsonString api [] (command req), wire_field (WireString (replace_invalid api (command req)))),
      (''baselineActionSequence'', to_string (unat (fst base)), wire_field (WireNumber (fst base))),
      (''baselineEconomySequence'', to_string (unat (snd base)), wire_field (WireNumber (snd base)))]"

lemma plain_command_keys:
  "list_all plain_text [''dispatched'', ''botGuid'', ''masterGuid'', ''command'', ''baselineActionSequence'',
     ''baselineEconomySequence'']"
  by (simp add: plain_text_def ord_def)

lemma command_members_flat:
  "list_all (\<lambda>(k, t, v). plain_text k \<and> flat_value t v) (command_members api w base req player master)"
  using plain_command_keys by (simp add: command_members_def flat_bool flat_string flat_number)

lemma command_runs:
  assumes "may_command api w req player botAI master"
  shows "BuildCommandResponse api req w =
    bindE (HandleCommand api botAI (command req) master)
      (\<lambda>_. readE (\<lambda>w'. Success (''{'' @ render_members
         (map (\<lambda>(k, t, v). (k, t)) (command_members api w' (TelemetryBaseline api w botAI) req player master))))) w"
proof -
  obtain a e where base: "TelemetryBaseline api w botAI = (a, e)" by (cases "TelemetryBaseline api w botAI")
  have bot: "FindBot api w (botGuid req) = Some (player, botAI)" using assms by (simp add: may_command_def FindBot_Some)
  show ?thesis
    using assms unfolding BuildCommandResponse_def bot base may_command_def
    by (simp add: base ResolveBotAI_def command_members_def AppendJsonString_def bool_text_def Let_def)
qed

lemma command_refused:
  assumes "\<not> (\<exists>player botAI master. may_command api w req player botAI master)"
  shows "\<exists>code \<in> {EC_BotNotFound, EC_MasterNotFound, EC_MasterIsBot, EC_InvalidRelationship}.
    BuildCommandResponse api req w = (Inr (Failure code []), w)"
proof (cases "FindBot api w (botGuid req)")
  case None
  then show ?thesis by (simp add: BuildCommandResponse_def)
next
  case (Some pa)
  obtain player botAI where pa: "pa = (player, botAI)" by (cases pa)
  show ?thesis
  proof (cases "FindPlayer api w (masterGuid req)")
    case None
    then show ?thesis using Some pa by (simp add: BuildCommandResponse_def)
  next
    case master: (Some master)
    have "GET_PLAYERBOT_AI api w master \<noteq> None \<or> GetMaster api w botAI \<noteq> Some master"
      using assms Some pa master by (auto simp: may_command_def FindBot_Some)
    then show ?thesis using Some pa master
      by (cases "GET_PLAYERBOT_AI api w master") (auto simp: BuildCommandResponse_def ResolveBotAI_def)
  qed
qed

text \<open>
  C22: a command reaches a bot only on behalf of its own master. The handler calls \<open>HandleCommand\<close> exactly
  when the bot is managed, the named master is online, is no bot itself and is the bot's master;
  otherwise it answers with an error and leaves the world alone. The baselines of the answer are those
  before the command, so a client that waits for a newer action cannot miss one the command caused.
\<close>

theorem command_on_behalf_of_master:
  "(\<exists>player botAI master. may_command api w req player botAI master \<and>
     (case HandleCommand api botAI (command req) master w of
        (Inl e, w') \<Rightarrow> BuildCommandResponse api req w = (Inl e, w')
      | (Inr _, w') \<Rightarrow> (\<exists>out fs. BuildCommandResponse api req w = (Inr (Success out), w') \<and>
          Parse None out = Some (fs, None) \<and>
          StringField fs ''command'' = Some (replace_invalid api (command req)) \<and>
          UnsignedField fs ''baselineActionSequence'' = Some (fst (TelemetryBaseline api w botAI)) \<and>
          UnsignedField fs ''baselineEconomySequence'' = Some (snd (TelemetryBaseline api w botAI))))) \<noteq>
   (\<exists>code \<in> {EC_BotNotFound, EC_MasterNotFound, EC_MasterIsBot, EC_InvalidRelationship}.
     BuildCommandResponse api req w = (Inr (Failure code []), w) \<and>
     (\<nexists>player botAI master. may_command api w req player botAI master))"
  (is "?runs \<noteq> ?refused")
proof (cases "\<exists>player botAI master. may_command api w req player botAI master")
  case True
  then obtain player botAI master where m: "may_command api w req player botAI master" by blast
  obtain res w' where h: "HandleCommand api botAI (command req) master w = (res, w')" by fastforce
  let ?base = "TelemetryBaseline api w botAI"
  let ?ms = "command_members api w' ?base req player master"
  have "distinct (map fst ?ms)" by (simp add: command_members_def)
  from Parse_rendered [OF command_members_flat this]
  have p: "Parse None (''{'' @ render_members (map (\<lambda>(k, t, v). (k, t)) ?ms)) = Some (map (\<lambda>(k, t, v). (k, v)) ?ms, None)" .
  have "case HandleCommand api botAI (command req) master w of
        (Inl e, w') \<Rightarrow> BuildCommandResponse api req w = (Inl e, w')
      | (Inr _, w') \<Rightarrow> (\<exists>out fs. BuildCommandResponse api req w = (Inr (Success out), w') \<and>
          Parse None out = Some (fs, None) \<and>
          StringField fs ''command'' = Some (replace_invalid api (command req)) \<and>
          UnsignedField fs ''baselineActionSequence'' = Some (fst ?base) \<and>
          UnsignedField fs ''baselineEconomySequence'' = Some (snd ?base))"
  proof (cases res)
    case (Inl e)
    then show ?thesis using h command_runs [OF m] by (simp add: bindE_def)
  next
    case (Inr u)
    then have "BuildCommandResponse api req w = (Inr (Success (''{'' @ render_members (map (\<lambda>(k, t, v). (k, t)) ?ms))), w')"
      using h command_runs [OF m] by (simp add: bindE_def)
    with p h Inr show ?thesis
      by (auto simp: command_members_def StringField_def UnsignedField_def intro!: exI)
  qed
  with m have ?runs by (intro exI conjI)
  with m show ?thesis by blast
next
  case False
  then have "\<not> ?runs" by blast
  moreover have ?refused using command_refused [OF False] False by blast
  ultimately show ?thesis by blast
qed

end
