(* ===== verification/Act_Contract.thy ===== *)
theory Act_Contract
  imports Handlers_Act
begin

text \<open>
  What the handlers that change the world promise beyond the command handler: which skill is written
  with which values, that a teleport goes to a nearest live spawn and only for a bot that can travel,
  whom a lease may be taken on and with which token, and how much console output an answer carries.
\<close>

section \<open>Set skill\<close>

definition skill_world ::
  "('w, 'p, 'a, 'z) world_api_scheme \<Rightarrow> 'w \<Rightarrow> uint32 \<Rightarrow> uint16 \<Rightarrow> uint16 \<Rightarrow> uint16 \<Rightarrow> uint16 \<Rightarrow> 'w" where
  "skill_world api w guid skill step v maximum =
     (case FindBot api w guid of
        None \<Rightarrow> w
      | Some (player, botAI) \<Rightarrow>
          if HasSkill api w player skill then snd (SetSkill api player skill step v maximum w) else w)"

lemma snd_bindE_readE: "snd (bindE m (\<lambda>x. readE (f x)) w) = snd (m w)"
  by (simp add: bindE_def split: prod.split sum.split)

lemma ucast_16:
  "unat (ucast (x :: uint32) :: uint16) = unat x mod 2 ^ 16"
  "unat (ucast (ucast (x :: uint32) :: uint64) :: uint16) = unat x mod 2 ^ 16"
proof -
  show "unat (ucast x :: uint16) = unat x mod 2 ^ 16" by (simp add: unsigned_ucast_eq take_bit_eq_mod)
  have "unat (ucast y :: uint16) = unat y mod 2 ^ 16" for y :: uint64
    by (simp add: unsigned_ucast_eq take_bit_eq_mod)
  from this [of "ucast x"] show "unat (ucast (ucast x :: uint64) :: uint16) = unat x mod 2 ^ 16" by simp
qed

lemma ucast_small: "unat (x :: uint32) < 2 ^ 16 \<Longrightarrow> unat (ucast (ucast x :: uint64) :: uint16) = unat x"
  by (simp add: ucast_16)

lemma set_skill_world:
  "snd (BuildSetSkillResponse api (concretize rid (TSetSkill guid skill v maximum)) w) =
     skill_world api w guid (ucast (ucast skill :: uint64))
       (ucast ((ucast (ucast (ucast maximum :: uint64) :: uint16) :: uint32) div SKILL_RANK_STEP))
       (ucast (ucast v :: uint64)) (ucast (ucast maximum :: uint64))"
  by (simp add: BuildSetSkillResponse_def skill_world_def RequestNumber_def Let_def snd_bindE_readE empty_request_def
      split: option.split)

text \<open>
  C25: a valid set_skill request writes the skill with the values it names. The world after it is the one
  after a single \<open>SetSkill\<close> on a skill the bot has (and the same world otherwise), its value and maximum
  are the requested ones without truncation, and its step is the maximum in units of 75, from 1 to 6.
\<close>

theorem set_skill_writes:
  assumes "valid_request (TSetSkill guid skill v maximum)"
  shows "\<exists>step v' maximum'.
    snd (BuildSetSkillResponse api (concretize rid (TSetSkill guid skill v maximum)) w) =
      skill_world api w guid (ucast skill) step v' maximum' \<and>
    unat v' = unat v \<and> unat maximum' = unat maximum \<and> unat step * 75 = unat maximum \<and>
    1 \<le> unat step \<and> unat step \<le> 6 \<and> 1 \<le> unat v' \<and> unat v' \<le> unat maximum'"
proof -
  have lim: "0 < unat v" "unat v \<le> unat maximum" "unat maximum \<le> 450" "maximum mod SKILL_RANK_STEP = 0"
    using assms by (simp_all add: MAX_SKILL_MAXIMUM_def word_le_nat_alt word_gt_0 unat_gt_0)
  let ?v = "ucast (ucast v :: uint64) :: uint16" and ?m = "ucast (ucast maximum :: uint64) :: uint16"
  let ?step = "ucast ((ucast ?m :: uint32) div SKILL_RANK_STEP) :: uint16"
  have v: "unat ?v = unat v" and m: "unat ?m = unat maximum" using lim by (simp_all add: ucast_small)
  have m32: "unat (ucast ?m :: uint32) = unat maximum"
    using m lim(3) by (simp add: unsigned_ucast_eq take_bit_eq_mod)
  have "unat ((ucast ?m :: uint32) div SKILL_RANK_STEP) = unat maximum div 75"
    unfolding unat_div m32 by (simp add: SKILL_RANK_STEP_def)
  moreover have "unat maximum div 75 < 2 ^ 16" using lim(3) by simp
  ultimately have step: "unat ?step = unat maximum div 75" by (simp add: unsigned_ucast_eq take_bit_eq_mod)
  have "unat (maximum mod SKILL_RANK_STEP) = 0" using lim(4) by simp
  then have "unat maximum mod 75 = 0" unfolding unat_mod by (simp add: SKILL_RANK_STEP_def)
  then have "unat ?step * 75 = unat maximum" unfolding step using div_mult_mod_eq [of "unat maximum" 75] by linarith
  moreover have "(ucast (ucast skill :: uint64) :: uint16) = ucast skill"
    by (simp only: word_unat_eq_iff ucast_16)
  ultimately show ?thesis
    using v m lim set_skill_world [of api rid guid skill v maximum w]
    by (intro exI [of _ ?step] exI [of _ ?v] exI [of _ ?m]) auto
qed

theorem set_skill_writes_witness:
  "\<exists>step v' maximum'. snd (BuildSetSkillResponse sample_api (concretize 7 (TSetSkill 12 164 10 150)) 0) =
     skill_world sample_api 0 12 164 step v' maximum' \<and> unat step * 75 = 150"
proof -
  have "valid_request (TSetSkill 12 164 10 150)" by (simp add: protocol_limits)
  from set_skill_writes [OF this, of sample_api 7 0] show ?thesis by fastforce
qed

lemma set_skill_reads:
  assumes "botGuid r = botGuid r'"
    and "(ucast (RequestNumber r ''skillId'' 0) :: uint16) = ucast (RequestNumber r' ''skillId'' 0)"
    and "(ucast (RequestNumber r ''value'' 0) :: uint16) = ucast (RequestNumber r' ''value'' 0)"
    and "(ucast (RequestNumber r ''maximum'' 0) :: uint16) = ucast (RequestNumber r' ''maximum'' 0)"
  shows "BuildSetSkillResponse api r = BuildSetSkillResponse api r'"
  unfolding BuildSetSkillResponse_def assms ..

text \<open>Only the low 16 bits of the skill id count, as long as the other arguments are kept.\<close>

lemma set_skill_low_bits:
  assumes "unat skill mod 65536 = unat skill' mod 65536"
  shows "BuildSetSkillResponse api (concretize rid (TSetSkill guid skill v maximum)) w =
    BuildSetSkillResponse api (concretize rid (TSetSkill guid skill' v maximum)) w"
proof -
  have "(ucast (ucast skill :: uint64) :: uint16) = ucast (ucast skill' :: uint64)"
    using assms by (simp only: word_unat_eq_iff ucast_16) simp
  moreover have "RequestNumber (concretize rid (TSetSkill guid s v maximum)) ''skillId'' 0 = ucast s"
    "RequestNumber (concretize rid (TSetSkill guid s v maximum)) ''value'' 0 = ucast v"
    "RequestNumber (concretize rid (TSetSkill guid s v maximum)) ''maximum'' 0 = ucast maximum"
    "botGuid (concretize rid (TSetSkill guid s v maximum)) = guid" for s
    by (simp_all add: RequestNumber_def empty_request_def)
  ultimately show ?thesis
    by - (rule fun_cong [OF set_skill_reads], simp_all only:)
qed

text \<open>
  C40: the skill id is read as 32 bits and used as 16. A valid \<open>set_skill\<close> request of an authenticated
  client for a skill id beyond 65535 is accepted by the parser with that id, and the handler then does in
  every world exactly what it does for the different skill whose id is the low 16 bits of it.
\<close>

theorem set_skill_id_truncated:
  assumes "valid_request (TSetSkill guid skill v maximum)" and "65535 < skill"
    and "ConstantTimeTokenDigestEquals (sha256 token) digest"
  shows "\<exists>req. ParseRequestPayload sha256 (render_object (wire rid token (TSetSkill guid skill v maximum))) digest = accept req \<and>
    RequestNumber req ''skillId'' 0 = ucast skill \<and>
    skill mod 65536 \<noteq> skill \<and>
    BuildSetSkillResponse api req w = BuildSetSkillResponse api (concretize rid (TSetSkill guid (skill mod 65536) v maximum)) w"
proof (intro exI conjI)
  show "ParseRequestPayload sha256 (render_object (wire rid token (TSetSkill guid skill v maximum))) digest =
      accept (concretize rid (TSetSkill guid skill v maximum))"
    by (rule rendered_request_accepted [of "TSetSkill guid skill v maximum" sha256 token digest rid, OF assms(1,3)])
  show "RequestNumber (concretize rid (TSetSkill guid skill v maximum)) ''skillId'' 0 = ucast skill"
    by (simp add: RequestNumber_def empty_request_def)
  have "unat (skill mod 65536) < 65536" unfolding unat_mod by simp
  moreover have "65535 < unat skill" using assms(2) by (simp add: word_less_nat_alt)
  ultimately show "skill mod 65536 \<noteq> skill" by auto
  show "BuildSetSkillResponse api (concretize rid (TSetSkill guid skill v maximum)) w =
      BuildSetSkillResponse api (concretize rid (TSetSkill guid (skill mod 65536) v maximum)) w"
    by (rule set_skill_low_bits) (simp add: unat_mod)
qed

theorem set_skill_id_truncated_witness:
  "\<exists>req. ParseRequestPayload sample_digest (render_object (wire 7 ''secret'' (TSetSkill 12 65700 10 150))) sample_token = accept req \<and>
     BuildSetSkillResponse sample_api req 0 = BuildSetSkillResponse sample_api (concretize 7 (TSetSkill 12 164 10 150)) 0"
proof -
  have v: "valid_request (TSetSkill 12 65700 10 150)" by (simp add: protocol_limits)
  have m: "(65700 :: uint32) mod 65536 = 164" by simp
  have l: "(65535 :: uint32) < 65700" by simp
  from set_skill_id_truncated [of 12 65700 10 150 sample_digest "''secret''" sample_token 7 sample_api 0, OF v l sample_authentic] show ?thesis unfolding m by blast
qed

section \<open>Teleport\<close>

definition live_spawn :: "('w, 'p, 'a, 'z) world_api_scheme \<Rightarrow> 'w \<Rightarrow> 'p \<Rightarrow> uint32 \<Rightarrow> uint32 \<times> GameObjectData \<Rightarrow> bool" where
  "live_spawn api w player entry = (\<lambda>(spawnId, data).
     go_id data = entry \<and> go_mapid data = GetMapId api w player \<and>
     (IsPartOfAPool api w spawnId \<longrightarrow> IsSpawnedObject api w player spawnId))"

abbreviation spawn_distance :: "('w, 'p, 'a, 'z) world_api_scheme \<Rightarrow> 'w \<Rightarrow> 'p \<Rightarrow> GameObjectData \<Rightarrow> float32" where
  "spawn_distance api w player data \<equiv> GetExactDist api w player (go_posX data) (go_posY data) (go_posZ data)"

definition nearest_of :: "('w, 'p, 'a, 'z) world_api_scheme \<Rightarrow> 'w \<Rightarrow> 'p \<Rightarrow> GameObjectData set \<Rightarrow> (GameObjectData \<times> float32) option \<Rightarrow> bool" where
  "nearest_of api w player ds result = (case result of
     None \<Rightarrow> ds = {}
   | Some (data, d) \<Rightarrow> data \<in> ds \<and> d = spawn_distance api w player data \<and>
       (\<forall>other \<in> ds. \<not> float_less (spawn_distance api w player other) d))"

lemma nearest_loop_invariant:
  "nearest_of api w player seen nearest \<Longrightarrow>
   nearest_of api w player (seen \<union> snd ` {sd \<in> set spawns. live_spawn api w player entry sd})
     (nearest_loop api w player entry spawns nearest)"
proof (induction spawns arbitrary: seen nearest)
  case (Cons sd spawns)
  obtain spawnId data where sd: "sd = (spawnId, data)" by (cases sd)
  let ?live = "live_spawn api w player entry" and ?d = "spawn_distance api w player data"
  show ?case
  proof (cases "?live sd")
    case False
    then have "nearest_loop api w player entry (sd # spawns) nearest = nearest_loop api w player entry spawns nearest"
      by (auto simp: sd live_spawn_def)
    moreover have "{x \<in> set (sd # spawns). ?live x} = {x \<in> set spawns. ?live x}" using False by auto
    ultimately show ?thesis using Cons.IH [OF Cons.prems] by simp
  next
    case True
    let ?next = "case nearest of None \<Rightarrow> Some (data, ?d)
       | Some (best, bd) \<Rightarrow> if float_less ?d bd then Some (data, ?d) else nearest"
    have "nearest_loop api w player entry (sd # spawns) nearest = nearest_loop api w player entry spawns ?next"
      using True by (auto simp: sd live_spawn_def Let_def split: option.split)
    moreover have "nearest_of api w player (insert data seen) ?next"
      using Cons.prems by (auto simp: nearest_of_def dest: float_less_trans split: option.splits)
    moreover have "{x \<in> set (sd # spawns). ?live x} = insert sd {x \<in> set spawns. ?live x}"
      using True by auto
    then have "seen \<union> snd ` {x \<in> set (sd # spawns). ?live x} = insert data seen \<union> snd ` {x \<in> set spawns. ?live x}"
      by (simp add: sd)
    ultimately show ?thesis using Cons.IH [of "insert data seen" ?next] by simp
  qed
qed simp

text \<open>
  C23: the teleport target is a nearest live spawn. The search finds one exactly when a spawn of the entry
  stands on the bot's map and is not a dormant member of a pool, the one it finds is such a spawn, the
  distance it reports is its distance, and no other one is closer.
\<close>

theorem nearest_spawn:
  "nearest_of api w player (snd ` {sd \<in> set spawns. live_spawn api w player entry sd})
     (nearest_loop api w player entry spawns None)"
  using nearest_loop_invariant [of api w player "{}" None spawns entry] by (simp add: nearest_of_def)

section \<open>Leases\<close>

text \<open>
  Whom a lease operation may touch. The target is found exactly when the player is online, has a bot
  AI, is in the world and not on its way out; holding a lease asks moreover for a random bot without a
  master. No other bot's lease can be looked at or changed.
\<close>

theorem lease_target_iff:
  "ResolveActivityLeaseTarget api w req strict = Inr (player, botAI) \<longleftrightarrow>
     FindPlayer api w (botGuid req) = Some player \<and> GET_PLAYERBOT_AI api w player = Some botAI \<and>
     GetSession api w player \<and> IsInWorld api w player \<and> \<not> IsDuringRemoveFromWorld api w player \<and>
     \<not> isLogingOut api w player \<and>
     (if strict then IsInRandomAccountList api w (GetAccountId api w player) \<and> GetMaster api w botAI = None else True)"
  by (auto simp: ResolveActivityLeaseTarget_def ResolveBotAI_def split: option.splits if_splits)

text \<open>The token a hold request uses, as a computation.\<close>

definition token_source :: "('w, 'p, 'a, 'z) world_api_scheme \<Rightarrow> string \<Rightarrow> ('w, string) comp" where
  "token_source api t = (if t = [] then NewActivityLeaseToken api else returnE t)"

lemma hold_run:
  assumes "ResolveActivityLeaseTarget api w req True = Inr (player, botAI)"
    and "token_source api (RequestString req ''leaseToken'') w = (tok, w1)"
  shows "tok = Inl e \<Longrightarrow> BuildHoldActivityResponse api req w = (Inl e, w1)"
    and "tok = Inr t \<Longrightarrow> snd (BuildHoldActivityResponse api req w) =
      snd (HoldActivityLease api botAI t (ucast (RequestNumber req ''durationSeconds'' 0)) (GetGameTime api w1) w1)"
proof -
  have run: "BuildHoldActivityResponse api req w = bindE (token_source api (RequestString req ''leaseToken'')) m w"
    if "m = (\<lambda>leaseToken. bindE (readE (GetGameTime api)) (\<lambda>now.
              bindE (HoldActivityLease api botAI leaseToken (ucast (RequestNumber req ''durationSeconds'' 0)) now)
                (\<lambda>(result, state). readE (\<lambda>w.
                   if result = AQ_Conflict then Failure EC_ActivityLeaseConflict []
                   else if result = AQ_Invalid then Failure EC_InvalidActivityLease []
                   else
                     (let out1 = AppendJsonString api (''{'' @ json_key ''botGuid'') (GuidText api w player);
                          out2 = AppendJsonString api (out1 @ '','' @ json_key ''outcome'') (ActivityLeaseAcquireOutcomeName result);
                          out3 = AppendJsonString api (out2 @ '','' @ json_key ''leaseToken'') (lease_token state)
                      in Success (out3 @ '','' @ json_key ''active'' @ ''true,'' @
                           json_key ''expiresAt'' @ to_string (unat (lease_expiresAt state)) @
                           '','' @ json_key ''remainingSeconds'' @ to_string (unat (ActivityLeaseRemaining state now)) @ ''}''))))))" for m
    using assms(1) that by (simp add: BuildHoldActivityResponse_def token_source_def Let_def)
  show "tok = Inl e \<Longrightarrow> BuildHoldActivityResponse api req w = (Inl e, w1)"
    using assms(2) unfolding run [OF refl] by (simp add: bindE_def)
  show "snd (BuildHoldActivityResponse api req w) =
      snd (HoldActivityLease api botAI t (ucast (RequestNumber req ''durationSeconds'' 0)) (GetGameTime api w1) w1)"
    if "tok = Inr t"
    using assms(2) that unfolding run [OF refl] by (simp add: bindE_def split: prod.split sum.split)
qed

lemma new_token_run:
  "NewActivityLeaseToken api w = (Inr t, w') \<Longrightarrow> IsActivityLeaseToken t"
  by (auto simp: NewActivityLeaseToken_def bindE_def hex_token_valid split: sum.splits prod.splits)



section \<open>Console output\<close>

text \<open>
  The output of a console command is a prefix of what it printed, whole texts only: nothing is dropped
  while less than half of the response budget is used, and only the last text can pass that mark.
\<close>

theorem console_output_prefix:
  "\<exists>k \<le> length pieces. foldl print_sink [] pieces = concat (take k pieces) \<and>
     (k = length pieces \<or> MAX_RESPONSE_PAYLOAD_BYTES div 2 \<le> length (concat (take k pieces))) \<and>
     (k = 0 \<or> length (concat (take (k - 1) pieces)) < MAX_RESPONSE_PAYLOAD_BYTES div 2)"
proof (induction pieces rule: rev_induct)
  case (snoc piece pieces)
  then obtain k where k: "k \<le> length pieces" "foldl print_sink [] pieces = concat (take k pieces)"
    "k = length pieces \<or> MAX_RESPONSE_PAYLOAD_BYTES div 2 \<le> length (concat (take k pieces))"
    "k = 0 \<or> length (concat (take (k - 1) pieces)) < MAX_RESPONSE_PAYLOAD_BYTES div 2" by blast
  have last: "foldl print_sink [] (pieces @ [piece]) = print_sink (concat (take k pieces)) piece"
    using k(2) by simp
  show ?case
  proof (cases "length (concat (take k pieces)) < MAX_RESPONSE_PAYLOAD_BYTES div 2")
    case True
    then have "k = length pieces" using k(3) by auto
    with True show ?thesis unfolding last
      by (intro exI [of _ "Suc (length pieces)"]) (simp add: print_sink_def)
  next
    case False
    with k(1,4) show ?thesis unfolding last by (intro exI [of _ k]) (auto simp: print_sink_def)
  qed
qed simp

end
