(* ===== verification/Dispatch_Safety.thy ===== *)
theory Dispatch_Safety
  imports Dispatch
begin

text \<open>
  What holds of every interleaving of the socket thread and the world thread: the claim invariant,
  where an answer can come from, that the dispatcher needs a bounded number of steps and is never
  stuck once its deadline has passed, and that the step relation implements the sequential reading of
  \<open>DispatchVerificationRequest\<close>.
\<close>

section \<open>The claim invariant\<close>

primrec stage :: "world_pc \<Rightarrow> nat" where
  "stage W_Absent = 0"
| "stage W_Queued = 0"
| "stage W_Claimed = 1"
| "stage (W_Executed r) = 2"
| "stage (W_Done b) = 3"

definition claim_inv :: "event list \<Rightarrow> 'w dispatch_state \<Rightarrow> bool" where
  "claim_inv tr s \<longleftrightarrow>
     (claimed (shared_result s) \<longleftrightarrow> E_Claim True \<in> set tr) \<and>
     (abandoned (shared_result s) \<longleftrightarrow> E_Abandon True \<in> set tr) \<and>
     \<not> (claimed (shared_result s) \<and> abandoned (shared_result s)) \<and>
     count_list tr E_Run = (if claimed (shared_result s) \<and> stage (worker s) \<noteq> 1 then 1 else 0) \<and>
     (claimed (shared_result s) \<longrightarrow> stage (worker s) \<noteq> 0) \<and>
     (stage (worker s) = 1 \<or> stage (worker s) = 2 \<longrightarrow> claimed (shared_result s)) \<and>
     (completed (shared_result s) \<longleftrightarrow> claimed (shared_result s) \<and> stage (worker s) = 3)"

lemma claim_inv_start: "claim_inv [] (dispatch_start g t w)"
  by (simp add: claim_inv_def)

lemma claim_inv_frame:
  assumes "claim_inv tr s" and "shared_result s' = shared_result s" and "worker s' = worker s"
    and "e \<noteq> E_Claim True" "e \<noteq> E_Abandon True" "e \<noteq> E_Run"
  shows "claim_inv (tr @ [e]) s'"
proof -
  have same: "E_Claim True \<in> set (tr @ [e]) \<longleftrightarrow> E_Claim True \<in> set tr"
    "E_Abandon True \<in> set (tr @ [e]) \<longleftrightarrow> E_Abandon True \<in> set tr"
    "count_list (tr @ [e]) E_Run = count_list tr E_Run"
    using assms(4-6) by auto
  show ?thesis using assms(1) unfolding claim_inv_def assms(2,3) same .
qed

lemma claim_inv_step:
  assumes "dstep env s e s'" and "claim_inv tr s" and "socket s = S_Enqueue \<Longrightarrow> worker s = W_Absent"
  shows "claim_inv (tr @ [e]) s'"
  using assms(1)
proof cases
  case (claim b sh)
  then have st: "stage (worker s) = 0 \<or> stage (worker s) = 3" by auto
  show ?thesis
  proof (cases "abandoned (shared_result s) \<or> claimed (shared_result s)")
    case True
    then have "\<not> b" "sh = shared_result s" using claim(4) by (auto simp: TryClaim_def)
    with claim(1,2) st assms(2) show ?thesis by (auto simp: claim_inv_def)
  next
    case False
    then have "b" "sh = shared_result s\<lparr>claimed := True\<rparr>" using claim(4) by (auto simp: TryClaim_def)
    with claim(1,2) st assms(2) False show ?thesis by (simp add: claim_inv_def)
  qed
next
  case (abandon_won sh)
  then have "\<not> claimed (shared_result s)" "sh = shared_result s\<lparr>abandoned := True\<rparr>"
    by (auto simp: Abandon_def split: if_splits)
  with abandon_won(1,2) assms(2) show ?thesis by (simp add: claim_inv_def)
next
  case (abandon_lost sh)
  then have "sh = shared_result s" by (auto simp: Abandon_def split: if_splits)
  with abandon_lost(1,2) show ?thesis by (auto intro: claim_inv_frame [OF assms(2)])
next
  case (complete r)
  with assms(2) show ?thesis by (simp add: claim_inv_def Complete_def) blast
next
  case queue_taken
  with assms(2,3) show ?thesis by (auto simp: claim_inv_def)
next
  case (run res w')
  with assms(2) show ?thesis by (auto simp: claim_inv_def)
qed (auto intro: claim_inv_frame [OF assms(2)])

section \<open>Before the queue\<close>

text \<open>The world thread knows nothing of a request that was not queued yet.\<close>

definition queued_inv :: "'w dispatch_state \<Rightarrow> bool" where
  "queued_inv s \<longleftrightarrow> (socket s = S_Enter \<or> socket s = S_Enqueue \<longrightarrow> worker s = W_Absent)"

lemma queued_inv_step: "dstep env s e s' \<Longrightarrow> queued_inv s \<Longrightarrow> queued_inv s'"
  by (cases rule: dstep.cases) (auto simp: queued_inv_def)

lemma dispatch_invariant:
  assumes "reaches env tr s"
  shows "claim_inv tr s \<and> queued_inv s"
  using assms
proof (induction rule: reaches_induct)
  case (start g t w)
  then show ?case by (simp add: claim_inv_start queued_inv_def)
next
  case (move tr s e s')
  have "socket s = S_Enqueue \<Longrightarrow> worker s = W_Absent" using move.IH by (simp add: queued_inv_def)
  with move show ?case using claim_inv_step queued_inv_step by blast
qed

section \<open>What every interleaving guarantees\<close>

text \<open>A concrete server for the witnesses: a recovery whose handler finds the bot at home.\<close>

definition sample_request :: Request where
  "sample_request = empty_request\<lparr>requestId := 7, operation := Op_Recover, botGuid := 12\<rparr>"

definition sample_env :: "nat dispatch_env" where
  "sample_env = \<lparr>the_request = sample_request, the_timeout = 0,
     the_handler = (\<lambda>req w. (Inr (Success ''{}''), Suc w)), system_clock = of_nat\<rparr>"

lemma sample_env_simps [simp]:
  "the_request sample_env = sample_request" "the_timeout sample_env = 0"
  "the_handler sample_env req w = (Inr (Success ''{}''), Suc w)" "system_clock sample_env t = of_nat t"
  by (simp_all add: sample_env_def)

lemma sample_run:
  "reaches sample_env [E_Enter, E_Queue True, E_Deadline, E_Claim True, E_Abandon False, E_Run, E_Complete, E_GraceWake]
     \<lparr>gate = True, shared_result = \<lparr>completed = True, abandoned = False, claimed = True, shared_response = Success ''{}''\<rparr>,
       socket = S_Answered (Success ''{}''), worker = W_Done True, clock = 0, world = 1\<rparr>"
  (is "reaches _ _ ?last")
proof -
  have "reaches sample_env [] (dispatch_start True 0 0)" by (rule start)
  from move [OF this enter_open] move [OF _ queue_taken]
  have "reaches sample_env [E_Enter, E_Queue True] ((dispatch_start True 0 0)\<lparr>socket := S_Wait 0, worker := W_Queued\<rparr>)"
    by (fastforce simp: dispatch_start_def)
  from move [OF this deadline [of _ 0]]
  have "reaches sample_env [E_Enter, E_Queue True, E_Deadline]
      ((dispatch_start True 0 0)\<lparr>socket := S_Abandon, worker := W_Queued\<rparr>)"
    by (simp add: dispatch_start_def Wait_def)
  from move [OF this claim [of _ True "fresh_result\<lparr>claimed := True\<rparr>"]]
  have "reaches sample_env [E_Enter, E_Queue True, E_Deadline, E_Claim True]
      ((dispatch_start True 0 0)\<lparr>shared_result := fresh_result\<lparr>claimed := True\<rparr>, socket := S_Abandon, worker := W_Claimed\<rparr>)"
    by (simp add: dispatch_start_def TryClaim_def)
  from move [OF this abandon_lost [of _ "fresh_result\<lparr>claimed := True\<rparr>"]]
  have "reaches sample_env [E_Enter, E_Queue True, E_Deadline, E_Claim True, E_Abandon False]
      ((dispatch_start True 0 0)\<lparr>shared_result := fresh_result\<lparr>claimed := True\<rparr>, socket := S_Grace 250, worker := W_Claimed\<rparr>)"
    by (simp add: dispatch_start_def Abandon_def PLAYERBOT_VERIFICATION_COMPLETION_GRACE_def)
  from move [OF this run [of _ _ "Inr (Success ''{}'')" "Suc 0"]]
  have "reaches sample_env [E_Enter, E_Queue True, E_Deadline, E_Claim True, E_Abandon False, E_Run]
      ((dispatch_start True 0 1)\<lparr>shared_result := fresh_result\<lparr>claimed := True\<rparr>, socket := S_Grace 250,
        worker := W_Executed (Success ''{}'')\<rparr>)"
    by (simp add: dispatch_start_def execution_response_def)
  from move [OF this complete [of _ "Success ''{}''"]]
  have "reaches sample_env [E_Enter, E_Queue True, E_Deadline, E_Claim True, E_Abandon False, E_Run, E_Complete]
      ((dispatch_start True 0 1)\<lparr>shared_result := Complete (Success ''{}'') (fresh_result\<lparr>claimed := True\<rparr>),
        socket := S_Grace 250, worker := W_Done True\<rparr>)"
    by (simp add: dispatch_start_def)
  from move [OF this grace_wake [of _ 250 "Success ''{}''"]]
  show ?thesis
    by (simp add: dispatch_start_def Complete_def Wait_def fresh_result_def)
qed

lemma sample_socket [simp]:
  "socket \<lparr>gate = g, shared_result = sh, socket = pc, worker = wk, clock = t, world = w\<rparr> = pc" by simp

text \<open>
  C5: however the two threads interleave, and however often the world thread takes the operation from
  its queue, the request is executed at most once, only under a claim, and never when the socket thread
  has abandoned it: a caller that was told its request timed out in the queue can rely on it not having
  run and on it never running.
\<close>

theorem executed_at_most_once:
  assumes "reaches env tr s"
  shows "count_list tr E_Run \<le> 1 \<and>
    (E_Run \<in> set tr \<longrightarrow> E_Claim True \<in> set tr) \<and>
    \<not> (E_Abandon True \<in> set tr \<and> (E_Run \<in> set tr \<or> E_Claim True \<in> set tr))"
proof -
  have inv: "claim_inv tr s" using dispatch_invariant [OF assms] by blast
  then have c: "count_list tr E_Run = (if claimed (shared_result s) \<and> stage (worker s) \<noteq> 1 then 1 else 0)"
    and i: "claimed (shared_result s) \<longleftrightarrow> E_Claim True \<in> set tr"
    "abandoned (shared_result s) \<longleftrightarrow> E_Abandon True \<in> set tr"
    "\<not> (claimed (shared_result s) \<and> abandoned (shared_result s))"
    unfolding claim_inv_def by blast+
  have "count_list tr E_Run \<noteq> 0 \<longleftrightarrow> E_Run \<in> set tr" by (simp add: count_list_0_iff)
  with c have "E_Run \<in> set tr \<longrightarrow> claimed (shared_result s)" by (cases "claimed (shared_result s)") simp_all
  moreover have "count_list tr E_Run \<le> 1" using c by simp
  ultimately show ?thesis using i by blast
qed

theorem executed_at_most_once_witness:
  "count_list [E_Enter, E_Queue True, E_Deadline, E_Claim True, E_Abandon False, E_Run, E_Complete, E_GraceWake] E_Run \<le> 1 \<and>
   E_Run \<in> set [E_Enter, E_Queue True, E_Deadline, E_Claim True, E_Abandon False, E_Run, E_Complete, E_GraceWake]"
  using executed_at_most_once [OF sample_run] by simp

section \<open>Where an answer comes from\<close>

text \<open>A response the run of the handler in this trace produced, from the world as it was at that step.\<close>

definition produced :: "'w dispatch_env \<Rightarrow> event list \<Rightarrow> Response \<Rightarrow> bool" where
  "produced env tr r \<longleftrightarrow> (\<exists>tr1 s1 tr2. tr = tr1 @ E_Run # tr2 \<and> reaches env tr1 s1 \<and>
     r = execution_response (stamp env s1) (the_request env) (fst (the_handler env (the_request env) (world s1))))"

lemma produced_snoc: "produced env tr r \<Longrightarrow> produced env (tr @ [e]) r"
  unfolding produced_def by fastforce

fun answer_inv :: "'w dispatch_env \<Rightarrow> socket_pc \<Rightarrow> world_pc \<Rightarrow> PlayerbotVerificationResult \<Rightarrow> bool" where
  "answer_inv env (S_Answered a) pc sh =
     ((\<exists>t. a = shutdown_answer (system_clock env t) (the_request env) \<and> pc = W_Absent) \<or>
      (\<exists>t. a = queue_full_answer (system_clock env t) (the_request env) \<and> pc = W_Absent) \<or>
      (\<exists>t. a = unclaimed_answer (system_clock env t) (the_request env) \<and> abandoned sh) \<or>
      (\<exists>t. a = unfinished_answer (system_clock env t) (the_request env) \<and> claimed sh) \<or>
      completed sh \<and> a = shared_response sh)"
| "answer_inv env (S_Grace d) pc sh = (claimed sh \<or> completed sh)"
| "answer_inv env S_Enter pc sh = (pc = W_Absent)"
| "answer_inv env S_Enqueue pc sh = (pc = W_Absent)"
| "answer_inv env _ pc sh = True"

definition origin_inv :: "'w dispatch_env \<Rightarrow> event list \<Rightarrow> 'w dispatch_state \<Rightarrow> bool" where
  "origin_inv env tr s \<longleftrightarrow>
     answer_inv env (socket s) (worker s) (shared_result s) \<and>
     (\<forall>r. worker s = W_Executed r \<longrightarrow> produced env tr r) \<and>
     (completed (shared_result s) \<longrightarrow> produced env tr (shared_response (shared_result s)))"

lemma answer_inv_mono:
  assumes "answer_inv env a pc sh" and "pc \<noteq> W_Absent"
    and "claimed sh \<longrightarrow> claimed sh'" "abandoned sh \<longrightarrow> abandoned sh'"
    and "completed sh \<longrightarrow> completed sh' \<and> shared_response sh' = shared_response sh"
  shows "answer_inv env a pc' sh'"
  using assms by (cases a) auto

lemma origin_inv_step:
  assumes reached: "reaches env tr s" and step: "dstep env s e s'" and inv: "origin_inv env tr s"
    and claim_inv: "claim_inv tr s"
  shows "origin_inv env (tr @ [e]) s'"
  using step
proof cases
  case (claim b sh)
  have "answer_inv env (socket s) (worker s') sh"
    by (rule answer_inv_mono [of env "socket s" "worker s" "shared_result s"])
      (use claim inv in \<open>auto simp: origin_inv_def produced_snoc TryClaim_def split: if_splits\<close>)
  moreover have "completed sh = completed (shared_result s)" "shared_response sh = shared_response (shared_result s)"
    using claim(4) by (auto simp: TryClaim_def split: if_splits)
  ultimately show ?thesis using claim inv by (auto simp: origin_inv_def produced_snoc)
next
  case (run res w')
  have "answer_inv env (socket s) (worker s') (shared_result s)"
    by (rule answer_inv_mono [of env "socket s" "worker s" "shared_result s"])
      (use run inv in \<open>auto simp: origin_inv_def produced_snoc\<close>)
  moreover have "produced env (tr @ [e]) (execution_response (stamp env s) (the_request env) res)"
    unfolding produced_def using run(1,4) reached by (intro exI [of _ tr] exI [of _ s] exI [of _ "[]"]) simp
  ultimately show ?thesis using run inv by (simp add: origin_inv_def produced_snoc)
next
  case (complete r)
  have "answer_inv env (socket s) (worker s') (shared_result s')"
    by (rule answer_inv_mono [of env "socket s" "worker s" "shared_result s"])
      (use complete inv claim_inv in \<open>auto simp: origin_inv_def produced_snoc Complete_def claim_inv_def\<close>)
  then show ?thesis using complete inv by (auto simp: origin_inv_def produced_snoc Complete_def)
next
  case (abandon_won sh)
  then have "sh = shared_result s\<lparr>abandoned := True\<rparr>" by (auto simp: Abandon_def split: if_splits)
  with abandon_won inv show ?thesis by (auto simp: origin_inv_def produced_snoc)
next
  case (abandon_lost sh)
  then have "sh = shared_result s" "claimed sh \<or> completed sh" by (auto simp: Abandon_def split: if_splits)
  with abandon_lost inv show ?thesis by (auto simp: origin_inv_def produced_snoc)
next
  case (grace_end d)
  then have "\<not> completed (shared_result s)" by (auto simp: Wait_def split: if_splits)
  with grace_end inv show ?thesis by (auto simp: origin_inv_def produced_snoc)
next
  case (wake d r)
  with inv show ?thesis by (auto simp: origin_inv_def produced_snoc Wait_def split: if_splits)
next
  case (grace_wake d r)
  with inv show ?thesis by (auto simp: origin_inv_def produced_snoc Wait_def split: if_splits)
qed (use inv in \<open>auto simp: origin_inv_def produced_snoc\<close>)

lemma origin_invariant: "reaches env tr s \<Longrightarrow> origin_inv env tr s"
proof (induction rule: reaches_induct)
  case (start g t w)
  then show ?case by (simp add: origin_inv_def)
next
  case (move tr s e s')
  then show ?case using origin_inv_step dispatch_invariant by blast
qed

text \<open>Once there is an answer, the request is not taken up any more.\<close>

lemma answered_no_claim:
  assumes "reaches env tr s" and "socket s = S_Answered a"
  shows "\<not> dstep env s (E_Claim True) s'"
proof -
  have c: "claim_inv tr s" and o: "origin_inv env tr s"
    using dispatch_invariant [OF assms(1)] origin_invariant [OF assms(1)] by blast+
  have "completed (shared_result s) \<Longrightarrow> claimed (shared_result s)" using c unfolding claim_inv_def by blast
  moreover have "answer_inv env (S_Answered a) (worker s) (shared_result s)" using o assms(2) by (simp add: origin_inv_def)
  ultimately have "worker s = W_Absent \<or> abandoned (shared_result s) \<or> claimed (shared_result s)" by auto
  then show ?thesis by (auto simp: dstep_claim_iff TryClaim_def)
qed

lemma no_run:
  assumes "claim_inv tr s" and "\<not> claimed (shared_result s)"
  shows "E_Run \<notin> set tr"
  using assms by (simp add: claim_inv_def count_list_0_iff)

text \<open>
  C6: what an answer says is true. An answer is one of five: the server was shutting down, the queue was
  full, or the request timed out before its execution began (and in these three cases it never ran);
  its execution began but had not ended when the grace was over; or it is what the one execution in the
  trace returned in the world it ran in, an internal error when the handler threw. And it is final: a
  request that has been answered is never taken up again.
\<close>

theorem answer_explained:
  assumes "reaches env tr s" and "socket s = S_Answered a"
  shows "(\<nexists>s'. dstep env s (E_Claim True) s') \<and>
   ((\<exists>t. a \<in> {shutdown_answer (system_clock env t) (the_request env),
              queue_full_answer (system_clock env t) (the_request env),
              unclaimed_answer (system_clock env t) (the_request env)}) \<and> E_Run \<notin> set tr \<or>
    (\<exists>t. a = unfinished_answer (system_clock env t) (the_request env)) \<and> E_Claim True \<in> set tr \<or>
    (\<exists>tr1 s1 tr2. tr = tr1 @ E_Run # tr2 \<and> reaches env tr1 s1 \<and>
       a = execution_response (stamp env s1) (the_request env) (fst (the_handler env (the_request env) (world s1)))) \<and>
      count_list tr E_Run = 1)"
  (is "_ \<and> ?ways")
proof (intro conjI)
  show "\<nexists>s'. dstep env s (E_Claim True) s'" using answered_no_claim [OF assms] by blast
next
  have c: "claim_inv tr s" and o: "origin_inv env tr s"
    using dispatch_invariant [OF assms(1)] origin_invariant [OF assms(1)] by blast+
  from o assms(2) have "answer_inv env (S_Answered a) (worker s) (shared_result s)" by (simp add: origin_inv_def)
  then consider t where "a = shutdown_answer (system_clock env t) (the_request env)" "worker s = W_Absent"
    | t where "a = queue_full_answer (system_clock env t) (the_request env)" "worker s = W_Absent"
    | t where "a = unclaimed_answer (system_clock env t) (the_request env)" "abandoned (shared_result s)"
    | t where "a = unfinished_answer (system_clock env t) (the_request env)" "claimed (shared_result s)"
    | "completed (shared_result s)" "a = shared_response (shared_result s)" by auto
  then show ?ways
  proof cases
    case (1 t)
    have "\<not> claimed (shared_result s)" using c 1(2) by (auto simp: claim_inv_def)
    with no_run [OF c] 1(1) show ?ways by blast
  next
    case (2 t)
    have "\<not> claimed (shared_result s)" using c 2(2) by (auto simp: claim_inv_def)
    with no_run [OF c] 2(1) show ?ways by blast
  next
    case (3 t)
    have "\<not> claimed (shared_result s)" using c 3(2) unfolding claim_inv_def by blast
    with no_run [OF c] 3(1) show ?ways by blast
  next
    case (4 t)
    then show ?ways using c unfolding claim_inv_def by blast
  next
    case 5
    then have "claimed (shared_result s)" "stage (worker s) = 3" using c unfolding claim_inv_def by blast+
    moreover have "count_list tr E_Run = (if claimed (shared_result s) \<and> stage (worker s) \<noteq> 1 then 1 else 0)"
      using c unfolding claim_inv_def by blast
    ultimately have "count_list tr E_Run = 1" by simp
    moreover have "produced env tr a" using o 5 by (simp add: origin_inv_def)
    ultimately show ?ways unfolding produced_def by blast
  qed
qed

theorem answer_explained_witness:
  "count_list [E_Enter, E_Queue True, E_Deadline, E_Claim True, E_Abandon False, E_Run, E_Complete, E_GraceWake] E_Run = 1"
  using answer_explained [OF sample_run sample_socket]
  by (auto simp: answer_defs sample_request_def RecoveryOutcomeResponse_def RecoveryResponse_def Success_def)

section \<open>The sequential dispatcher\<close>

text \<open>
  What a run of the two threads means for the sequential function. The gate it sees is the one set last
  before the socket thread entered; the queue takes the request when the run says so; and its three
  accesses to the shared state cut the run into segments, in which the world thread's steps are calls of
  the methods of the shared state, \<open>r\<close> being the response it publishes.
\<close>

primrec gate_after :: "bool \<Rightarrow> event \<Rightarrow> bool" where
  "gate_after g (E_Gate b) = b"
| "gate_after g E_Enter = g"
| "gate_after g (E_Queue b) = g"
| "gate_after g E_Wake = g"
| "gate_after g E_Deadline = g"
| "gate_after g (E_Abandon b) = g"
| "gate_after g E_GraceWake = g"
| "gate_after g E_GraceEnd = g"
| "gate_after g (E_Claim b) = g"
| "gate_after g E_Run = g"
| "gate_after g E_Complete = g"
| "gate_after g E_Tick = g"
| "gate_after g E_World = g"

definition gate_at_entry :: "bool \<Rightarrow> event list \<Rightarrow> bool" where
  "gate_at_entry g tr = foldl gate_after g (takeWhile (\<lambda>e. e \<noteq> E_Enter) tr)"

fun socket_access :: "event \<Rightarrow> bool" where
  "socket_access E_Wake = True"
| "socket_access E_Deadline = True"
| "socket_access (E_Abandon b) = True"
| "socket_access E_GraceWake = True"
| "socket_access E_GraceEnd = True"
| "socket_access e = False"

fun segment :: "nat \<Rightarrow> event list \<Rightarrow> event list" where
  "segment i [] = []"
| "segment i (e # es) =
     (if socket_access e then (case i of 0 \<Rightarrow> [] | Suc j \<Rightarrow> segment j es)
      else if i = 0 then e # segment i es else segment i es)"

fun method_call :: "Response \<Rightarrow> event \<Rightarrow> Response op list" where
  "method_call r (E_Claim b) = [Claim]"
| "method_call r E_Complete = [Publish r]"
| "method_call r e = []"

definition world_calls :: "Response \<Rightarrow> event list \<Rightarrow> nat \<Rightarrow> PlayerbotVerificationResult \<Rightarrow> PlayerbotVerificationResult" where
  "world_calls r tr i = after (concat (map (method_call r) (segment i tr)))"

definition accesses :: "event list \<Rightarrow> nat" where
  "accesses tr = length (filter socket_access tr)"

lemma accesses_simps [simp]:
  "accesses [] = 0" "accesses (e # tr) = (if socket_access e then Suc (accesses tr) else accesses tr)"
  "accesses (tr @ [e]) = (if socket_access e then Suc (accesses tr) else accesses tr)"
  by (simp_all add: accesses_def)

lemma segment_snoc:
  "segment i (tr @ [e]) = segment i tr @ (if \<not> socket_access e \<and> accesses tr = i then [e] else [])"
  by (induction tr arbitrary: i) (auto split: nat.split)

lemma after_append [simp]: "after (xs @ ys) sh = after ys (after xs sh)"
  by (induction xs arbitrary: sh) auto

lemma world_calls_Nil [simp]: "world_calls r [] i sh = sh"
  by (simp add: world_calls_def)

lemma world_calls_snoc [simp]:
  "world_calls r (tr @ [e]) i sh =
     (if \<not> socket_access e \<and> accesses tr = i then after (method_call r e) (world_calls r tr i sh) else world_calls r tr i sh)"
  by (simp add: world_calls_def segment_snoc)

lemma world_calls_later [simp]: "accesses tr < i \<Longrightarrow> world_calls r tr i sh = sh"
proof -
  have "accesses tr < i \<Longrightarrow> segment i tr = []"
    by (induction i tr rule: segment.induct) (auto split: nat.split if_splits)
  then show "accesses tr < i \<Longrightarrow> ?thesis" by (simp add: world_calls_def)
qed

lemma gate_at_entry_snoc [simp]:
  "gate_at_entry g (tr @ [e]) =
     (if E_Enter \<in> set tr \<or> e = E_Enter then gate_at_entry g tr else gate_after (gate_at_entry g tr) e)"
proof (cases "E_Enter \<in> set tr")
  case True
  then show ?thesis by (simp add: gate_at_entry_def takeWhile_append1 [of E_Enter])
next
  case False
  then have all: "\<And>x. x \<in> set tr \<Longrightarrow> x \<noteq> E_Enter" by blast
  then have tr: "takeWhile (\<lambda>e. e \<noteq> E_Enter) tr = tr" unfolding takeWhile_eq_all_conv by blast
  have snoc: "takeWhile (\<lambda>e. e \<noteq> E_Enter) (tr @ [e]) = tr @ takeWhile (\<lambda>e. e \<noteq> E_Enter) [e]"
    by (rule takeWhile_append2) (rule all)
  from False show ?thesis unfolding gate_at_entry_def tr snoc by simp
qed

primrec socket_event :: "event \<Rightarrow> bool" where
  "socket_event (E_Gate b) = False"
| "socket_event E_Enter = True"
| "socket_event (E_Queue b) = True"
| "socket_event E_Wake = True"
| "socket_event E_Deadline = True"
| "socket_event (E_Abandon b) = True"
| "socket_event E_GraceWake = True"
| "socket_event E_GraceEnd = True"
| "socket_event (E_Claim b) = False"
| "socket_event E_Run = False"
| "socket_event E_Complete = False"
| "socket_event E_Tick = False"
| "socket_event E_World = False"

text \<open>Where the socket thread stands in the sequential function, after the run \<open>tr\<close>.\<close>

definition entered :: "bool \<Rightarrow> event list \<Rightarrow> bool" where
  "entered g tr \<longleftrightarrow> E_Enter \<in> set tr \<and> gate_at_entry g tr \<and> E_Queue True \<in> set tr"

fun answered :: "'w dispatch_env \<Rightarrow> bool \<Rightarrow> Response \<Rightarrow> event list \<Rightarrow> nat \<Rightarrow> Response \<Rightarrow> bool" where
  "answered env g r tr t a \<longleftrightarrow>
     (let waited = world_calls r tr 0 fresh_result; seen = Abandon (world_calls r tr 1 waited); now = system_clock env t
      in \<not> gate_at_entry g tr \<and> E_Queue True \<notin> set tr \<and> E_Queue False \<notin> set tr \<and> a = shutdown_answer now (the_request env) \<or>
         gate_at_entry g tr \<and> E_Queue True \<notin> set tr \<and> E_Queue False \<in> set tr \<and> a = queue_full_answer now (the_request env) \<or>
         entered g tr \<and>
           (1 \<le> accesses tr \<and> Wait waited = Some a \<or>
            2 \<le> accesses tr \<and> Wait waited = None \<and> fst seen \<and> a = unclaimed_answer now (the_request env) \<or>
            3 \<le> accesses tr \<and> Wait waited = None \<and> \<not> fst seen \<and>
              (case Wait (world_calls r tr 2 (snd seen)) of
                 None \<Rightarrow> a = unfinished_answer now (the_request env)
               | Some r' \<Rightarrow> a = r')))"

declare answered.simps [simp del]

fun phase_inv :: "'w dispatch_env \<Rightarrow> bool \<Rightarrow> Response \<Rightarrow> event list \<Rightarrow> socket_pc \<Rightarrow> bool \<Rightarrow> PlayerbotVerificationResult \<Rightarrow> bool" where
  "phase_inv env g r tr S_Enter gt sh \<longleftrightarrow> E_Enter \<notin> set tr \<and> gt = gate_at_entry g tr \<and>
     E_Queue True \<notin> set tr \<and> E_Queue False \<notin> set tr \<and> accesses tr = 0 \<and> sh = world_calls r tr 0 fresh_result"
| "phase_inv env g r tr S_Enqueue gt sh \<longleftrightarrow> E_Enter \<in> set tr \<and> gate_at_entry g tr \<and>
     E_Queue True \<notin> set tr \<and> E_Queue False \<notin> set tr \<and> accesses tr = 0 \<and> sh = world_calls r tr 0 fresh_result"
| "phase_inv env g r tr (S_Wait d) gt sh \<longleftrightarrow> entered g tr \<and> accesses tr = 0 \<and> sh = world_calls r tr 0 fresh_result"
| "phase_inv env g r tr S_Abandon gt sh \<longleftrightarrow> entered g tr \<and> accesses tr = 1 \<and> Wait (world_calls r tr 0 fresh_result) = None \<and>
     sh = world_calls r tr 1 (world_calls r tr 0 fresh_result)"
| "phase_inv env g r tr (S_Grace d) gt sh \<longleftrightarrow> entered g tr \<and> accesses tr = 2 \<and> Wait (world_calls r tr 0 fresh_result) = None \<and>
     (\<exists>sh'. Abandon (world_calls r tr 1 (world_calls r tr 0 fresh_result)) = (False, sh') \<and> sh = world_calls r tr 2 sh')"
| "phase_inv env g r tr (S_Answered a) gt sh \<longleftrightarrow> E_Enter \<in> set tr \<and> (\<exists>t. answered env g r tr t a)"

text \<open>What another thread does changes at most the segment the run is in.\<close>

lemma access_is_socket [simp]: "\<not> socket_event e \<Longrightarrow> \<not> socket_access e"
  by (cases e) simp_all

lemma entered_frame [simp]: "\<not> socket_event e \<Longrightarrow> entered g (tr @ [e]) \<longleftrightarrow> entered g tr"
  by (cases e) (auto simp: entered_def)

lemma answered_frame:
  assumes "answered env g r tr t a" and "E_Enter \<in> set tr" and "\<not> socket_event e"
  shows "answered env g r (tr @ [e]) t a"
proof -
  have e: "E_Queue b \<in> set (tr @ [e]) \<longleftrightarrow> E_Queue b \<in> set tr" for b using assms(3) by auto
  have gate: "gate_at_entry g (tr @ [e]) = gate_at_entry g tr" using assms(2) by simp
  have same: "accesses (tr @ [e]) = accesses tr" using assms(3) by simp
  have calls: "world_calls r (tr @ [e]) i sh = world_calls r tr i sh" if "i < accesses tr" for i sh
    using that by simp
  show ?thesis
    using assms(1) unfolding answered.simps Let_def e gate same entered_frame [OF assms(3)]
    by (elim disjE conjE) (simp_all add: calls del: world_calls_snoc split: option.splits)
qed

lemma phase_frame:
  assumes "phase_inv env g r tr pc gt sh" and "\<not> socket_event e" and "gt' = gate_after gt e"
  shows "phase_inv env g r (tr @ [e]) pc gt' (after (concat (map (method_call r) [e])) sh)"
proof (cases pc)
  case (S_Answered a)
  with assms(1) obtain t where "answered env g r tr t a" "E_Enter \<in> set tr" by auto
  from answered_frame [OF this assms(2)] S_Answered \<open>E_Enter \<in> set tr\<close> show ?thesis by auto
qed (use assms in auto)

text \<open>The response to come is the one the world thread will publish.\<close>

definition run_inv :: "'w dispatch_env \<Rightarrow> bool \<Rightarrow> event list \<Rightarrow> 'w dispatch_state \<Rightarrow> bool" where
  "run_inv env g tr s \<longleftrightarrow>
     (\<forall>r. (completed (shared_result s) \<longrightarrow> r = shared_response (shared_result s)) \<longrightarrow>
        phase_inv env g r tr (socket s) (gate s) (shared_result s))"

lemma run_inv_frame:
  assumes "run_inv env g tr s" and "\<not> socket_event e" and "socket s' = socket s" and "gate s' = gate_after (gate s) e"
    and "\<And>r. completed (shared_result s') \<longrightarrow> r = shared_response (shared_result s') \<Longrightarrow>
      (completed (shared_result s) \<longrightarrow> r = shared_response (shared_result s)) \<and>
      shared_result s' = after (method_call r e) (shared_result s)"
  shows "run_inv env g (tr @ [e]) s'"
  unfolding run_inv_def
proof (intro allI impI)
  fix r
  assume "completed (shared_result s') \<longrightarrow> r = shared_response (shared_result s')"
  from assms(5) [OF this] assms(1) have p: "phase_inv env g r tr (socket s) (gate s) (shared_result s)"
    and sh: "shared_result s' = after (method_call r e) (shared_result s)"
    unfolding run_inv_def by blast+
  from phase_frame [OF p assms(2,4)] sh show "phase_inv env g r (tr @ [e]) (socket s') (gate s') (shared_result s')"
    by (simp add: assms(3))
qed

lemma run_inv_own:
  assumes "run_inv env g tr s" and "shared_result s' = shared_result s"
    and "\<And>r. phase_inv env g r tr (socket s) (gate s) (shared_result s) \<Longrightarrow>
      phase_inv env g r (tr @ [e]) (socket s') (gate s') (shared_result s)"
  shows "run_inv env g (tr @ [e]) s'"
  using assms by (auto simp: run_inv_def)

lemma run_inv_step:
  assumes "dstep env s e s'" and inv: "run_inv env g tr s" and "claim_inv tr s"
  shows "run_inv env g (tr @ [e]) s'"
  using assms(1)
proof cases
  case (claim b sh)
  have "completed sh = completed (shared_result s)" "shared_response sh = shared_response (shared_result s)"
    using claim(4) by (auto simp: TryClaim_def split: if_splits)
  then show ?thesis by (intro run_inv_frame [OF inv]) (use claim in \<open>auto simp: call_method_def\<close>)
next
  case (complete r)
  have "\<not> completed (shared_result s)" using complete(3) assms(3) by (auto simp: claim_inv_def)
  then show ?thesis
    by (intro run_inv_frame [OF inv]) (use complete in \<open>auto simp: call_method_def Complete_def\<close>)
next
  case SetPlayerbotVerificationAcceptingRequests
  then show ?thesis by (intro run_inv_frame [OF inv]) auto
next
  case run
  then show ?thesis by (intro run_inv_frame [OF inv]) auto
next
  case tick
  then show ?thesis by (intro run_inv_frame [OF inv]) auto
next
  case world_moves
  then show ?thesis by (intro run_inv_frame [OF inv]) auto
next
  case (abandon_won sh)
  then have "sh = snd (Abandon (shared_result s))" "fst (Abandon (shared_result s))" by simp_all
  moreover have "completed sh = completed (shared_result s)" "shared_response sh = shared_response (shared_result s)"
    using abandon_won(4) by (auto simp: Abandon_def split: if_splits)
  ultimately show ?thesis using inv abandon_won(1-3) by (auto simp: run_inv_def answered.simps Let_def entered_def)
next
  case (abandon_lost sh)
  then have "sh = shared_result s" by (auto simp: Abandon_def split: if_splits)
  with inv abandon_lost show ?thesis by (auto simp: run_inv_def entered_def)
next
  case (wake d r)
  with inv show ?thesis by (auto simp: run_inv_def answered.simps Let_def entered_def)
next
  case (grace_wake d a)
  show ?thesis
    by (rule run_inv_own [OF inv]) (use grace_wake in \<open>auto simp: answered.simps Let_def entered_def\<close>)
next
  case (grace_end d)
  show ?thesis
    by (rule run_inv_own [OF inv]) (use grace_end in \<open>auto simp: answered.simps Let_def entered_def\<close>)
qed (use inv in \<open>auto simp: run_inv_def answered.simps Let_def entered_def\<close>)

lemma run_invariant: "reaches env tr s \<Longrightarrow> \<exists>g. run_inv env g tr s"
proof (induction rule: reaches_induct)
  case (start g t w)
  show ?case by (rule exI [of _ g]) (simp add: run_inv_def gate_at_entry_def)
next
  case (move tr s e s')
  then show ?case using run_inv_step dispatch_invariant by blast
qed

lemma published: "reaches env tr s \<Longrightarrow> E_Complete \<in> set tr \<longleftrightarrow> completed (shared_result s)"
proof (induction rule: reaches_induct)
  case (move tr s e s')
  from move.hyps(2) move.IH show ?case
    by cases (auto simp: Complete_def TryClaim_def Abandon_def split: if_splits)
qed simp

definition sample_trace :: "event list" where
  "sample_trace = [E_Enter, E_Queue True, E_Deadline, E_Claim True, E_Abandon False, E_Run, E_Complete, E_GraceWake]"

lemma answered_dispatches:
  "answered env g r tr t a \<Longrightarrow>
   a = DispatchVerificationRequest (gate_at_entry g tr) (E_Queue True \<in> set tr) (world_calls r tr) (system_clock env t) (the_request env)"
  by (auto simp: answered.simps DispatchVerificationRequest_def Let_def entered_def split: option.splits prod.splits)

text \<open>
  C13: the interleaved dispatcher gives the answers of the sequential one, and the run says which. An
  answer of the socket thread is what \<open>DispatchVerificationRequest\<close> returns when the gate is as it was
  when the socket thread entered (and the queue is asked exactly when it was open), the queue takes the
  request exactly when it did in the run, and what happens to the shared state between the function's own
  accesses to it is what the world thread's steps of the run between these accesses call: a \<open>TryClaim\<close> for
  each attempt to claim, and a \<open>Complete\<close> with the response which the execution in the run produced. The
  time of the answer is the only thing left open.
\<close>

theorem answer_refines_dispatcher:
  assumes "reaches env tr s" and "socket s = S_Answered a"
  shows "\<exists>g r t. (E_Queue True \<in> set tr \<or> E_Queue False \<in> set tr \<longleftrightarrow> gate_at_entry g tr) \<and>
    (E_Complete \<in> set tr \<longrightarrow> produced env tr r) \<and>
    a = DispatchVerificationRequest (gate_at_entry g tr) (E_Queue True \<in> set tr) (world_calls r tr) (system_clock env t) (the_request env)"
proof -
  obtain g where inv: "run_inv env g tr s" using run_invariant [OF assms(1)] by blast
  let ?r = "shared_response (shared_result s)"
  have "phase_inv env g ?r tr (socket s) (gate s) (shared_result s)" using inv unfolding run_inv_def by blast
  then obtain t where a: "answered env g ?r tr t a" using assms(2) by auto
  have "E_Complete \<in> set tr \<longrightarrow> produced env tr ?r"
    using origin_invariant [OF assms(1)] published [OF assms(1)] by (simp add: origin_inv_def)
  moreover have "E_Queue True \<in> set tr \<or> E_Queue False \<in> set tr \<longleftrightarrow> gate_at_entry g tr"
    using a by (auto simp: answered.simps Let_def entered_def)
  ultimately show ?thesis using answered_dispatches [OF a] by blast
qed

theorem answer_refines_dispatcher_witness:
  "\<exists>g r t. gate_at_entry g sample_trace \<and> produced sample_env sample_trace r \<and>
     Success ''{}'' = DispatchVerificationRequest True True (world_calls r sample_trace) (of_nat t) sample_request"
proof -
  have mem: "E_Queue True \<in> set sample_trace" "E_Complete \<in> set sample_trace" by (simp_all add: sample_trace_def)
  from answer_refines_dispatcher [OF sample_run [folded sample_trace_def] sample_socket] mem
  obtain g r t where "gate_at_entry g sample_trace" "produced sample_env sample_trace r"
    "Success ''{}'' = DispatchVerificationRequest True True (world_calls r sample_trace) (of_nat t) sample_request"
    unfolding sample_env_simps by auto
  then show ?thesis by blast
qed

section \<open>Progress\<close>

primrec steps_left :: "socket_pc \<Rightarrow> nat" where
  "steps_left S_Enter = 5"
| "steps_left S_Enqueue = 4"
| "steps_left (S_Wait d) = 3"
| "steps_left S_Abandon = 2"
| "steps_left (S_Grace d) = 1"
| "steps_left (S_Answered a) = 0"

lemma steps_left_step:
  assumes "dstep env s e s'"
  shows "steps_left (socket s') + (if socket_event e then 1 else 0) \<le> steps_left (socket s)"
  using assms by cases simp_all

lemma socket_steps: "reaches env tr s \<Longrightarrow> length (filter socket_event tr) + steps_left (socket s) \<le> 5"
proof (induction rule: reaches_induct)
  case (move tr s e s')
  with steps_left_step [OF move.hyps(2)] show ?case by (cases "socket_event e") simp_all
qed simp

text \<open>The deadline the socket thread is sleeping to, when the response is not there yet.\<close>

definition asleep_until :: "'w dispatch_state \<Rightarrow> nat \<Rightarrow> bool" where
  "asleep_until s d \<longleftrightarrow> (socket s = S_Wait d \<or> socket s = S_Grace d) \<and> Wait (shared_result s) = None"

text \<open>
  C18: the dispatcher always comes back. It makes at most five steps of its own, and until it has
  answered it can make one now, unless it sleeps towards a deadline that still lies ahead and no
  response has been published: no behaviour of the world thread can keep it beyond its deadlines.
\<close>

theorem dispatcher_returns:
  assumes "reaches env tr s"
  shows "length (filter socket_event tr) \<le> 5 \<and>
    ((\<exists>a. socket s = S_Answered a) \<or> (\<exists>e s'. socket_event e \<and> dstep env s e s') \<or>
     (\<exists>d. asleep_until s d \<and> clock s < d))"
proof
  show "length (filter socket_event tr) \<le> 5" using socket_steps [OF assms] by simp
  have next_step: "\<exists>e s'. socket_event e \<and> dstep env s e s'" if "dstep env s e s'" "socket_event e" for e s'
    using that by blast
  show "(\<exists>a. socket s = S_Answered a) \<or> (\<exists>e s'. socket_event e \<and> dstep env s e s') \<or>
     (\<exists>d. asleep_until s d \<and> clock s < d)"
  proof (cases "socket s")
    case S_Enter
    with next_step [OF enter_closed] next_step [OF enter_open] show ?thesis by (cases "gate s") auto
  next
    case S_Enqueue
    with next_step [OF queue_full] show ?thesis by auto
  next
    case (S_Wait d)
    show ?thesis
    proof (cases "Wait (shared_result s)")
      case None
      with S_Wait next_step [OF deadline [of s d env]] show ?thesis
        by (cases "d \<le> clock s") (auto simp: asleep_until_def)
    qed (use S_Wait next_step [OF wake [of s d _ env]] in auto)
  next
    case S_Abandon
    obtain b sh where "Abandon (shared_result s) = (b, sh)" by force
    with S_Abandon next_step [OF abandon_won [of s sh env]] next_step [OF abandon_lost [of s sh env]] show ?thesis
      by (cases b) auto
  next
    case (S_Grace d)
    show ?thesis
    proof (cases "Wait (shared_result s)")
      case None
      with S_Grace next_step [OF grace_end [of s d env]] show ?thesis
        by (cases "d \<le> clock s") (auto simp: asleep_until_def)
    qed (use S_Grace next_step [OF grace_wake [of s d _ env]] in auto)
  qed auto
qed


theorem dispatcher_returns_witness:
  "length (filter socket_event
     [E_Enter, E_Queue True, E_Deadline, E_Claim True, E_Abandon False, E_Run, E_Complete, E_GraceWake]) \<le> 5"
  using dispatcher_returns [OF sample_run] by blast

section \<open>The operation as one run\<close>

text \<open>
  C29: the world thread's three steps implement \<open>Execute\<close>. Wherever the world thread is free to take the
  operation, running \<open>Execute\<close> without interruption is reached by its own steps, with the same shared
  state, the same world and the same return value.
\<close>

theorem execute_refinement:
  assumes "reaches env tr s" and "worker s = W_Queued \<or> (\<exists>b. worker s = W_Done b)"
    and "Execute (the_handler env) (stamp env s) (the_request env) (Some (shared_result s)) (world s) = (b, Some sh, w)"
  shows "\<exists>es. set es \<subseteq> {E_Claim True, E_Claim False, E_Run, E_Complete} \<and>
    reaches env (tr @ es) (s\<lparr>world := w, shared_result := sh, worker := W_Done b\<rparr>)"
proof (cases "TryClaim (shared_result s)")
  case (Pair c sh1)
  note claimed = move [OF assms(1) claim [OF assms(2) Pair]]
  show ?thesis
  proof (cases c)
    case False
    then have "sh1 = shared_result s" using Pair by (auto simp: TryClaim_def split: if_splits)
    with assms(3) Pair False claimed show ?thesis
      by (intro exI [of _ "[E_Claim False]"]) (auto simp: Execute_def)
  next
    case True
    obtain res w1 where h: "the_handler env (the_request env) (world s) = (res, w1)" by force
    let ?r = "execution_response (stamp env s) (the_request env) res"
    from move [OF claimed run [of _ env res w1]] h True
    have "reaches env (tr @ [E_Claim True, E_Run]) (s\<lparr>shared_result := sh1, world := w1, worker := W_Executed ?r\<rparr>)"
      by simp
    from move [OF this complete [of _ ?r env]]
    have "reaches env (tr @ [E_Claim True, E_Run, E_Complete])
        (s\<lparr>world := w1, shared_result := Complete ?r sh1, worker := W_Done (ok ?r)\<rparr>)"
      by simp
    moreover have "b = ok ?r" "sh = Complete ?r sh1" "w = w1"
      using assms(3) Pair True h by (auto simp: Execute_def Let_def)
    ultimately show ?thesis by (intro exI [of _ "[E_Claim True, E_Run, E_Complete]"]) simp
  qed
qed

theorem execute_refinement_witness:
  "\<exists>es s'. reaches sample_env ([E_Enter, E_Queue True] @ es) s' \<and> worker s' = W_Done True \<and> world s' = 1"
proof -
  have "reaches sample_env [] (dispatch_start True 0 0)" by (rule start)
  from move [OF this enter_open] move [OF _ queue_taken]
  have r: "reaches sample_env [E_Enter, E_Queue True] ((dispatch_start True 0 0)\<lparr>socket := S_Wait 0, worker := W_Queued\<rparr>)"
    by (fastforce simp: dispatch_start_def)
  from execute_refinement [OF r, of True _ 1] show ?thesis
    by (force simp: Execute_def TryClaim_def execution_response_def dispatch_start_def)
qed

end
