(* ===== verification/Handlers_Recover.thy ===== *)
theory Handlers_Recover
  imports World_Api Dispatch_Safety
begin

text \<open>
  \<open>BuildRecoverResponse\<close>: bring a bot back to its homebind, and account for it. Whatever happens, the
  answer is an audit record; the lemmas say what the record may claim about the world.
\<close>

section \<open>The handler\<close>

text \<open>The \<open>switch\<close> on the result of the recovery, with the record before it and the world after it.\<close>

definition blocked :: "RecoveryAuditRecord \<Rightarrow> RecoveryOutcome \<Rightarrow> RecoveryReason \<Rightarrow> RecoveryAuditRecord" where
  "blocked r ro rr = r\<lparr>outcome := ro, reason := rr\<rparr>"

definition recovered_record ::
  "('w, 'p, 'a, 'z) world_api_scheme \<Rightarrow> 'w \<Rightarrow> 'p \<Rightarrow> RecoveryPosition \<Rightarrow> RecoveryAuditRecord \<Rightarrow> RecoveryAuditRecord" where
  "recovered_record api w player observed r =
     (let accepted = HomebindRecoveryPosition api w player
      in r\<lparr>acceptedDestination := Some accepted,
           observedAtDestination := RecoveryPositionsMatch api observed accepted,
           movementReset := True, travelReset := True, taxiReset := True,
           outcome := RO_Recovered, reason := RR_HomebindTeleportAccepted, mutationState := MS_Completed\<rparr>)"

fun settle_recovery ::
  "('w, 'p, 'a, 'z) world_api_scheme \<Rightarrow> ('p \<Rightarrow> ('w, unit) comp) option \<Rightarrow> 'w \<Rightarrow> 'p \<Rightarrow> RecoveryPosition \<Rightarrow>
    RecoveryAuditRecord \<Rightarrow> PlayerbotHomebindRecoveryResult \<Rightarrow> ('w, RecoveryAuditRecord) comp" where
  "settle_recovery api persistence w player observed r HR_Recovered =
     (let r' = recovered_record api w player observed r;
          save = (case persistence of Some persist \<Rightarrow> persist player | None \<Rightarrow> SaveToDB api player)
      in bindE save (\<lambda>_. returnE (r'\<lparr>persistenceState := PS_Deferred\<rparr>)))"
| "settle_recovery api persistence w player observed r HR_AlreadyAtCurrentHomebind =
     returnE (r\<lparr>observedAtDestination := True, outcome := RO_AlreadyAtHomebind, reason := RR_CurrentHomebind\<rparr>)"
| "settle_recovery api persistence w player observed r HR_AlreadyPendingHomebind =
     (let accepted = HomebindRecoveryPositionAt api w player (GetTeleportDest api w player)
      in returnE (r\<lparr>acceptedDestination := Some accepted,
           observedAtDestination := RecoveryPositionsMatch api observed accepted,
           outcome := RO_AlreadyAtHomebind, reason := RR_PendingHomebind\<rparr>))"
| "settle_recovery api persistence w player observed r HR_NotInWorld = returnE (blocked r RO_BotNotAvailable RR_CharacterNotInWorld)"
| "settle_recovery api persistence w player observed r HR_Dead = returnE (blocked r RO_BotNotAvailable RR_Dead)"
| "settle_recovery api persistence w player observed r HR_InCombat = returnE (blocked r RO_BotNotAvailable RR_InCombat)"
| "settle_recovery api persistence w player observed r HR_Rooted = returnE (blocked r RO_BotNotAvailable RR_Rooted)"
| "settle_recovery api persistence w player observed r HR_InFlight = returnE (blocked r RO_BotNotAvailable RR_InFlight)"
| "settle_recovery api persistence w player observed r HR_BattlegroundQueue = returnE (blocked r RO_BotNotAvailable RR_BattlegroundQueue)"
| "settle_recovery api persistence w player observed r HR_Battleground = returnE (blocked r RO_BotNotAvailable RR_Battleground)"
| "settle_recovery api persistence w player observed r HR_Arena = returnE (blocked r RO_BotNotAvailable RR_Arena)"
| "settle_recovery api persistence w player observed r HR_OnTransport = returnE (blocked r RO_BotNotAvailable RR_OnTransport)"
| "settle_recovery api persistence w player observed r HR_TeleportInProgress = returnE (blocked r RO_BotNotAvailable RR_TeleportInProgress)"
| "settle_recovery api persistence w player observed r HR_InvalidHomebind = returnE (blocked r RO_RecoveryFailed RR_InvalidHomebind)"
| "settle_recovery api persistence w player observed r HR_TeleportRejected =
     returnE (r\<lparr>movementReset := True, travelReset := True, taxiReset := True,
       outcome := RO_RecoveryFailed, reason := RR_TeleportRejected, mutationState := MS_Completed\<rparr>)"

definition BuildRecoverResponse ::
  "('w, 'p, 'a, 'z) world_api_scheme \<Rightarrow> ('p \<Rightarrow> ('w, unit) comp) option \<Rightarrow> Request \<Rightarrow> ('w, Response) comp" where
  "BuildRecoverResponse api persistence req = (\<lambda>w.
     let record = NewRecoveryRecord (SystemTimeMs api w) req
     in case FindConnectedPlayer api w (botGuid req) of
          None \<Rightarrow>
            if HasCharacterCacheEntry api w (botGuid req)
            then returnE (RecoveryResponse (record\<lparr>outcome := RO_BotNotAvailable, reason := RR_CharacterOffline\<rparr>)) w
            else returnE (RecoveryResponse (record\<lparr>outcome := RO_BotNotFound, reason := RR_CharacterNotFound\<rparr>)) w
        | Some player \<Rightarrow>
            (let record = record\<lparr>audit_botName := Some (PlayerName api w player)\<rparr>
             in if \<not> IsInWorld api w player
                then returnE (RecoveryResponse (record\<lparr>outcome := RO_BotNotAvailable, reason := RR_CharacterNotInWorld\<rparr>)) w
                else
                  (let before = CurrentRecoveryPosition api w player;
                       record = record\<lparr>beforePosition := Some before, observedPosition := Some before\<rparr>
                   in case ResolveBotAI api w (Some player) of
                        None \<Rightarrow>
                          returnE (RecoveryResponse (record\<lparr>outcome := RO_NotManagedPlayerbot, reason := RR_PlayerbotAiMissing\<rparr>)) w
                      | Some botAI \<Rightarrow>
                          bindE (PlayerbotRecoverToHomebind api botAI) (\<lambda>result w.
                            (let observed = CurrentRecoveryPosition api w player
                             in bindE (settle_recovery api persistence w player observed
                                        (record\<lparr>observedPosition := Some observed\<rparr>) result)
                                  (\<lambda>record. returnE (RecoveryResponse record)) w)) w)))"

declare BuildRecoverResponse_def [handler_defs]

section \<open>What the record claims\<close>

text \<open>
  A sound record: it names the request and its bot; it claims a mutation exactly when the recovery call
  said that it reset the bot; it claims a save exactly when the bot was recovered; a recovered bot has an
  accepted destination, and an outcome before any lookup has no position.
\<close>

definition sound_record :: "Request \<Rightarrow> RecoveryAuditRecord \<Rightarrow> bool" where
  "sound_record req r \<longleftrightarrow>
     audit_requestId r = Some (requestId req) \<and> audit_botGuid r = Some (botGuid req) \<and>
     audit_destination r = RD_Homebind \<and>
     (mutationState r = MS_Completed \<longleftrightarrow> reason r \<in> {RR_HomebindTeleportAccepted, RR_TeleportRejected}) \<and>
     mutationState r \<noteq> MS_UnknownAfterExecutionStarted \<and>
     (mutationState r = MS_Completed \<longleftrightarrow> movementReset r) \<and> (movementReset r \<longleftrightarrow> travelReset r) \<and> (movementReset r \<longleftrightarrow> taxiReset r) \<and>
     (outcome r = RO_Recovered \<longleftrightarrow> reason r = RR_HomebindTeleportAccepted) \<and>
     (persistenceState r = PS_Deferred \<longleftrightarrow> outcome r = RO_Recovered) \<and>
     (acceptedDestination r \<noteq> None \<longleftrightarrow> reason r \<in> {RR_HomebindTeleportAccepted, RR_PendingHomebind}) \<and>
     (beforePosition r = None \<longleftrightarrow> observedPosition r = None) \<and>
     (outcome r = RO_Recovered \<longrightarrow> beforePosition r \<noteq> None)"

lemma new_record_simps [simp]:
  "audit_requestId (NewRecoveryRecord now req) = Some (requestId req)"
  "audit_botGuid (NewRecoveryRecord now req) = Some (botGuid req)"
  "audit_destination (NewRecoveryRecord now req) = RD_Homebind"
  "mutationState (NewRecoveryRecord now req) = MS_NotStarted"
  "persistenceState (NewRecoveryRecord now req) = PS_NotRequested"
  "movementReset (NewRecoveryRecord now req) = False" "travelReset (NewRecoveryRecord now req) = False"
  "taxiReset (NewRecoveryRecord now req) = False" "acceptedDestination (NewRecoveryRecord now req) = None"
  "beforePosition (NewRecoveryRecord now req) = None" "observedPosition (NewRecoveryRecord now req) = None"
  by (simp_all add: NewRecoveryRecord_def default_audit_def)

text \<open>The record while the handler is still looking: nothing has been claimed yet.\<close>

definition untouched_record :: "Request \<Rightarrow> RecoveryAuditRecord \<Rightarrow> bool" where
  "untouched_record req r \<longleftrightarrow>
     audit_requestId r = Some (requestId req) \<and> audit_botGuid r = Some (botGuid req) \<and> audit_destination r = RD_Homebind \<and>
     mutationState r = MS_NotStarted \<and> persistenceState r = PS_NotRequested \<and> \<not> movementReset r \<and> \<not> travelReset r \<and>
     \<not> taxiReset r \<and> acceptedDestination r = None \<and> beforePosition r \<noteq> None \<and> observedPosition r \<noteq> None"

lemma settle_sound:
  assumes "untouched_record req r" and "settle_recovery api persistence w player observed r result w1 = (Inr r', w2)"
  shows "sound_record req r'"
  using assms
  by (cases result)
    (auto simp: untouched_record_def sound_record_def blocked_def recovered_record_def bindE_def Let_def split: sum.splits prod.splits)

lemma recover_sound:
  assumes "BuildRecoverResponse api persistence req w = (Inr response, w')"
  shows "\<exists>r. response = RecoveryResponse r \<and> sound_record req r"
proof -
  let ?new = "NewRecoveryRecord (SystemTimeMs api w) req"
  show ?thesis
  proof (cases "FindConnectedPlayer api w (botGuid req)")
    case None
    with assms show ?thesis
      by (auto simp: BuildRecoverResponse_def Let_def sound_record_def split: if_splits)
  next
    case (Some player)
    show ?thesis
    proof (cases "IsInWorld api w player")
      case False
      with Some assms show ?thesis by (auto simp: BuildRecoverResponse_def Let_def sound_record_def)
    next
      case world: True
      show ?thesis
      proof (cases "ResolveBotAI api w (Some player)")
        case None
        with Some world assms show ?thesis by (auto simp: BuildRecoverResponse_def Let_def sound_record_def)
      next
        case ai: (Some botAI)
        let ?before = "CurrentRecoveryPosition api w player"
        let ?seen = "\<lambda>w1. ?new\<lparr>audit_botName := Some (PlayerName api w player), beforePosition := Some ?before,
          observedPosition := Some (CurrentRecoveryPosition api w1 player)\<rparr>"
        obtain result w1 r where "PlayerbotRecoverToHomebind api botAI w = (Inr result, w1)"
          and settled: "settle_recovery api persistence w1 player (CurrentRecoveryPosition api w1 player) (?seen w1) result w1 = (Inr r, w')"
          and "response = RecoveryResponse r"
          using Some world ai assms
          by (auto simp: BuildRecoverResponse_def Let_def bindE_def split: sum.splits prod.splits)
        moreover have "untouched_record req (?seen w1)" by (simp add: untouched_record_def)
        from settle_sound [OF this settled] have "sound_record req r" .
        ultimately show ?thesis by blast
      qed
    qed
  qed
qed

text \<open>
  What a request leads to before any record is written: the one recovery call it makes, on the AI of the
  connected bot it names, or no call and the reason for that.
\<close>

definition recovery_target ::
  "('w, 'p, 'a, 'z) world_api_scheme \<Rightarrow> 'w \<Rightarrow> Request \<Rightarrow> RecoveryReason + 'p \<times> 'a" where
  "recovery_target api w req =
     (case FindConnectedPlayer api w (botGuid req) of
        None \<Rightarrow> Inl (if HasCharacterCacheEntry api w (botGuid req) then RR_CharacterOffline else RR_CharacterNotFound)
      | Some player \<Rightarrow>
          if \<not> IsInWorld api w player then Inl RR_CharacterNotInWorld
          else (case GET_PLAYERBOT_AI api w player of
                  None \<Rightarrow> Inl RR_PlayerbotAiMissing
                | Some botAI \<Rightarrow> Inr (player, botAI)))"

text \<open>What the client has to be told of each result of the recovery.\<close>

fun told :: "PlayerbotHomebindRecoveryResult \<Rightarrow> RecoveryOutcome \<times> RecoveryReason" where
  "told HR_Recovered = (RO_Recovered, RR_HomebindTeleportAccepted)"
| "told HR_AlreadyAtCurrentHomebind = (RO_AlreadyAtHomebind, RR_CurrentHomebind)"
| "told HR_AlreadyPendingHomebind = (RO_AlreadyAtHomebind, RR_PendingHomebind)"
| "told HR_NotInWorld = (RO_BotNotAvailable, RR_CharacterNotInWorld)"
| "told HR_Dead = (RO_BotNotAvailable, RR_Dead)"
| "told HR_InCombat = (RO_BotNotAvailable, RR_InCombat)"
| "told HR_Rooted = (RO_BotNotAvailable, RR_Rooted)"
| "told HR_InFlight = (RO_BotNotAvailable, RR_InFlight)"
| "told HR_BattlegroundQueue = (RO_BotNotAvailable, RR_BattlegroundQueue)"
| "told HR_Battleground = (RO_BotNotAvailable, RR_Battleground)"
| "told HR_Arena = (RO_BotNotAvailable, RR_Arena)"
| "told HR_OnTransport = (RO_BotNotAvailable, RR_OnTransport)"
| "told HR_TeleportInProgress = (RO_BotNotAvailable, RR_TeleportInProgress)"
| "told HR_InvalidHomebind = (RO_RecoveryFailed, RR_InvalidHomebind)"
| "told HR_TeleportRejected = (RO_RecoveryFailed, RR_TeleportRejected)"

text \<open>
  A record is a true account of a recovery that returned \<open>result\<close> and left the world \<open>w1\<close>, after which
  the handler left the world \<open>w2\<close>: it tells the result, it claims a reset exactly when the recovery
  reports one, it claims a save exactly when the bot was recovered, and then the save really ran between
  \<open>w1\<close> and \<open>w2\<close>, and nothing else did.
\<close>

definition true_account ::
  "('w, 'p, 'a, 'z) world_api_scheme \<Rightarrow> ('p \<Rightarrow> ('w, unit) comp) option \<Rightarrow> 'p \<Rightarrow> PlayerbotHomebindRecoveryResult \<Rightarrow>
    'w \<Rightarrow> 'w \<Rightarrow> RecoveryAuditRecord \<Rightarrow> bool" where
  "true_account api persistence player result w1 w2 r \<longleftrightarrow>
     (outcome r, reason r) = told result \<and>
     mutationState r = (if result \<in> {HR_Recovered, HR_TeleportRejected} then MS_Completed else MS_NotStarted) \<and>
     (movementReset r \<longleftrightarrow> result \<in> {HR_Recovered, HR_TeleportRejected}) \<and>
     persistenceState r = (if result = HR_Recovered then PS_Deferred else PS_NotRequested) \<and>
     (if result = HR_Recovered
      then (case persistence of Some persist \<Rightarrow> persist player w1 | None \<Rightarrow> SaveToDB api player w1) = (Inr (), w2)
      else w2 = w1) \<and>
     observedPosition r = Some (CurrentRecoveryPosition api w1 player) \<and>
     acceptedDestination r =
       (case result of
          HR_Recovered \<Rightarrow> Some (HomebindRecoveryPosition api w1 player)
        | HR_AlreadyPendingHomebind \<Rightarrow> Some (HomebindRecoveryPositionAt api w1 player (GetTeleportDest api w1 player))
        | _ \<Rightarrow> None)"

lemma settle_true:
  assumes "untouched_record req r" and "observedPosition r = Some (CurrentRecoveryPosition api w1 player)"
    and "settle_recovery api persistence w1 player observed r result w1 = (Inr r', w2)"
  shows "true_account api persistence player result w1 w2 r'"
  using assms
  by (cases result)
    (auto simp: untouched_record_def true_account_def blocked_def recovered_record_def bindE_def Let_def
      split: sum.splits prod.splits option.splits)

lemma recover_untouched:
  assumes "recovery_target api w req = Inl why" and "BuildRecoverResponse api persistence req w = (Inr response, w')"
  shows "w' = w \<and> (\<exists>r. response = RecoveryResponse r \<and> reason r = why \<and> mutationState r = MS_NotStarted \<and>
    persistenceState r = PS_NotRequested)"
  using assms
  by (auto simp: recovery_target_def BuildRecoverResponse_def ResolveBotAI_def Let_def split: option.splits if_splits)

lemma recover_called:
  assumes "recovery_target api w req = Inr (player, botAI)"
    and "BuildRecoverResponse api persistence req w = (Inr response, w')"
  shows "\<exists>result w1 r. PlayerbotRecoverToHomebind api botAI w = (Inr result, w1) \<and> response = RecoveryResponse r \<and>
    true_account api persistence player result w1 w' r \<and> beforePosition r = Some (CurrentRecoveryPosition api w player)"
proof -
  let ?seen = "\<lambda>w1. (NewRecoveryRecord (SystemTimeMs api w) req)\<lparr>audit_botName := Some (PlayerName api w player),
    beforePosition := Some (CurrentRecoveryPosition api w player), observedPosition := Some (CurrentRecoveryPosition api w1 player)\<rparr>"
  from assms(1) have st: "FindConnectedPlayer api w (botGuid req) = Some player" "IsInWorld api w player"
    "GET_PLAYERBOT_AI api w player = Some botAI"
    by (auto simp: recovery_target_def split: option.splits if_splits)
  obtain result w1 r where call: "PlayerbotRecoverToHomebind api botAI w = (Inr result, w1)"
    and settled: "settle_recovery api persistence w1 player (CurrentRecoveryPosition api w1 player) (?seen w1) result w1 = (Inr r, w')"
    and r: "response = RecoveryResponse r"
    using st assms(2) by (auto simp: BuildRecoverResponse_def ResolveBotAI_def Let_def bindE_def split: sum.splits prod.splits)
  have "untouched_record req (?seen w1)" by (simp add: untouched_record_def)
  from settle_true [OF this _ settled] have "true_account api persistence player result w1 w' r" by simp
  moreover have "beforePosition r = beforePosition (?seen w1)"
    using settled by (cases result) (auto simp: blocked_def recovered_record_def bindE_def Let_def split: sum.splits prod.splits)
  ultimately show ?thesis using call r by auto
qed

text \<open>
  C8: a recovery answer is honest. When the handler returns at all, it returns an audit record as its
  answer and as its audit. When the request names no connected, managed bot in the world, the record
  gives that reason, it claims nothing and the world is as it was. Otherwise the recovery was called on
  that bot's AI and returned, and the record tells its result: a mutation and a reset are claimed exactly
  when the call recovered the bot or had its teleport rejected, a save exactly when the bot was recovered,
  and then the save was made; the positions are the bot's before and after the call, and the destination
  is the homebind it accepted. The record is also sound in itself.
\<close>

theorem recover_answer_sound:
  assumes "BuildRecoverResponse api persistence req w = (Inr response, w')"
  shows "\<exists>r. response = RecoveryResponse r \<and> recoveryAudit response = Some r \<and>
    resultJson response = SerializeRecoveryAuditRecord r \<and> sound_record req r \<and>
    (case recovery_target api w req of
       Inl why \<Rightarrow> w' = w \<and> reason r = why \<and> mutationState r = MS_NotStarted \<and> persistenceState r = PS_NotRequested
     | Inr (player, botAI) \<Rightarrow>
         (\<exists>result w1. PlayerbotRecoverToHomebind api botAI w = (Inr result, w1) \<and>
            true_account api persistence player result w1 w' r \<and>
            beforePosition r = Some (CurrentRecoveryPosition api w player)))"
proof -
  obtain r where r: "response = RecoveryResponse r" "sound_record req r" using recover_sound [OF assms] by blast
  have same: "r' = r" if "response = RecoveryResponse r'" for r'
    using arg_cong [OF that, of recoveryAudit] r(1) by simp
  show ?thesis
  proof (cases "recovery_target api w req")
    case (Inl why)
    with recover_untouched [OF Inl assms] r show ?thesis by (auto dest: same)
  next
    case (Inr target)
    obtain player botAI where target: "target = (player, botAI)" by force
    from recover_called [OF Inr [unfolded target] assms] r show ?thesis unfolding Inr target by (auto dest: same)
  qed
qed

theorem recover_answer_sound_witness:
  "\<exists>r. BuildRecoverResponse sample_api None sample_request 0 = (Inr (RecoveryResponse r), 2) \<and> sound_record sample_request r \<and>
     true_account sample_api None 0 HR_Recovered 1 2 r"
proof -
  obtain response where run: "BuildRecoverResponse sample_api None sample_request 0 = (Inr response, 2)"
    by (simp add: BuildRecoverResponse_def sample_api_def sample_request_def empty_request_def ResolveBotAI_def bindE_def
        Let_def)
  have t: "recovery_target sample_api 0 sample_request = Inr (0, 0)"
    "PlayerbotRecoverToHomebind sample_api 0 0 = (Inr HR_Recovered, 1)"
    by (simp_all add: recovery_target_def sample_api_def sample_request_def empty_request_def)
  from recover_answer_sound [OF run] run t show ?thesis by auto
qed

text \<open>
  C26: the world is only touched by the recovery itself. A request whose bot is not connected, not in the
  world or not managed leaves the world alone; otherwise every change comes from the one call of
  \<open>PlayerbotRecoverToHomebind\<close>, followed by one save exactly when it reported a recovery.
\<close>

theorem recover_effects:
  "snd (BuildRecoverResponse api persistence req w) =
     (case FindConnectedPlayer api w (botGuid req) of
        None \<Rightarrow> w
      | Some player \<Rightarrow>
          if \<not> IsInWorld api w player then w
          else (case GET_PLAYERBOT_AI api w player of
                  None \<Rightarrow> w
                | Some botAI \<Rightarrow>
                    (case PlayerbotRecoverToHomebind api botAI w of
                       (Inr HR_Recovered, w1) \<Rightarrow>
                         snd ((case persistence of Some persist \<Rightarrow> persist player | None \<Rightarrow> SaveToDB api player) w1)
                     | (_, w1) \<Rightarrow> w1)))"
proof -
  have settle: "snd (settle_recovery api persistence w1 player observed r result w1) =
      (if result = HR_Recovered then snd ((case persistence of Some persist \<Rightarrow> persist player | None \<Rightarrow> SaveToDB api player) w1) else w1)"
    for w1 player observed r result
    by (cases result) (simp_all add: bindE_def Let_def split: prod.split sum.split)
  have bind: "snd (bindE m (\<lambda>record. returnE (f record)) w) = snd (m w)" for m f and w :: 'a
    by (simp add: bindE_def split: prod.split sum.split)
  show ?thesis
  proof (cases "FindConnectedPlayer api w (botGuid req)")
    case None
    then show ?thesis by (simp add: BuildRecoverResponse_def Let_def)
  next
    case (Some player)
    show ?thesis
    proof (cases "IsInWorld api w player")
      case False
      with Some show ?thesis by (simp add: BuildRecoverResponse_def Let_def)
    next
      case world: True
      show ?thesis
      proof (cases "GET_PLAYERBOT_AI api w player")
        case None
        with Some world show ?thesis by (simp add: BuildRecoverResponse_def ResolveBotAI_def Let_def)
      next
        case ai: (Some botAI)
        obtain res w1 where call: "PlayerbotRecoverToHomebind api botAI w = (res, w1)" by fastforce
        show ?thesis
        proof (cases res)
          case (Inl e)
          with Some world ai call show ?thesis by (simp add: BuildRecoverResponse_def ResolveBotAI_def Let_def bindE_def)
        next
          case (Inr result)
          obtain r where run: "snd (BuildRecoverResponse api persistence req w) =
              snd (settle_recovery api persistence w1 player (CurrentRecoveryPosition api w1 player) r result w1)"
            using Some world ai call Inr
            by (simp add: BuildRecoverResponse_def ResolveBotAI_def Let_def bindE_def [of "PlayerbotRecoverToHomebind api botAI"] bind)
          show ?thesis
            using Some world ai call Inr unfolding run settle
            by (cases result) simp_all
        qed
      qed
    qed
  qed
qed

end
