(* ===== verification/World_Thread.thy ===== *)
theory World_Thread
  imports Act_Contract Handlers_Recover
begin

text \<open>
  \<open>ExecuteVerificationOnWorldThread\<close>: the handler of each operation. The lemmas join the handlers with
  the dispatcher: reading requests leave the world alone, and a recovery is accounted for on every way
  an answer can take. The final \<open>return UnknownOperation\<close> of the source follows a switch over all
  enumerators and has no value of the enumeration left to act on.
\<close>

definition ExecuteVerificationOnWorldThread ::
  "('w, 'p, 'a, 'z) world_api_scheme \<Rightarrow> ('p \<Rightarrow> ('w, unit) comp) option \<Rightarrow> Request \<Rightarrow> ('w, Response) comp" where
  "ExecuteVerificationOnWorldThread api persistence req =
     (case operation req of
        Op_Status \<Rightarrow> BuildStatusResponse api
      | Op_List \<Rightarrow> BuildListResponse api req
      | Op_Inspect \<Rightarrow> BuildInspectResponse api req
      | Op_Anomalies \<Rightarrow> BuildAnomaliesResponse api req
      | Op_Check \<Rightarrow> BuildCheckResponse api req
      | Op_Command \<Rightarrow> BuildCommandResponse api req
      | Op_Recover \<Rightarrow> BuildRecoverResponse api persistence req
      | Op_SetSkill \<Rightarrow> BuildSetSkillResponse api req
      | Op_TeleportToGameObject \<Rightarrow> BuildTeleportToGameObjectResponse api req
      | Op_HoldActivity \<Rightarrow> BuildHoldActivityResponse api req
      | Op_InspectActivityLease \<Rightarrow> BuildInspectActivityLeaseResponse api req
      | Op_ReleaseActivity \<Rightarrow> BuildReleaseActivityResponse api req
      | Op_GmCommand \<Rightarrow> BuildGmCommandResponse api req
      | Op_ReloadConfig \<Rightarrow> BuildReloadConfigResponse api)"

fun reading :: "Operation \<Rightarrow> bool" where
  "reading Op_Status = True"
| "reading Op_List = True"
| "reading Op_Inspect = True"
| "reading Op_Anomalies = True"
| "reading Op_Check = True"
| "reading _ = False"

text \<open>
  Looking does not touch. A status, list, inspect, anomalies or check request returns an answer, and
  the world after it is the world before it.
\<close>

theorem reading_is_pure:
  assumes "reading (operation req)"
  shows "\<exists>response. ExecuteVerificationOnWorldThread api persistence req w = (Inr response, w)"
  using assms
  by (cases "operation req") (simp_all add: ExecuteVerificationOnWorldThread_def read_handlers)

theorem reading_is_pure_witness:
  "\<exists>response. ExecuteVerificationOnWorldThread sample_api None (concretize 7 (TAnomalies 5)) 3 = (Inr response, 3)"
  by (rule reading_is_pure) simp

lemma check_runs:
  assumes "valid_condition c"
  shows "ExecuteVerificationOnWorldThread api persistence (concretize rid (TCheck guid c)) w =
    (Inr (check_answer api w guid c), w)"
proof -
  have "operation (concretize rid (TCheck guid c)) = Op_Check" by simp
  then have "ExecuteVerificationOnWorldThread api persistence (concretize rid (TCheck guid c)) =
      BuildCheckResponse api (concretize rid (TCheck guid c))"
    unfolding ExecuteVerificationOnWorldThread_def by (simp only: Operation.case)
  then show ?thesis by (simp only: check_answers [OF assms])
qed

definition audits :: "Request \<Rightarrow> Response \<Rightarrow> bool" where
  "audits req a \<longleftrightarrow> (\<exists>r. recoveryAudit a = Some r \<and> audit_requestId r = Some (requestId req) \<and>
     audit_botGuid r = Some (botGuid req) \<and> resultJson a = SerializeRecoveryAuditRecord r \<and> ok a)"

lemma refusal_audits [simp]: "operation req = Op_Recover \<Longrightarrow> audits req (refusal now req ro rr ms code)"
  by (simp add: audits_def refusal_def RecoveryOutcomeResponse_def)

lemma execution_audits:
  assumes "operation req = Op_Recover"
  shows "audits req (execution_response now req (fst (ExecuteVerificationOnWorldThread api persistence req w)))"
proof (cases "ExecuteVerificationOnWorldThread api persistence req w")
  case (Pair res w')
  show ?thesis
  proof (cases res)
    case (Inl e)
    then show ?thesis using Pair assms
      by (cases e) (simp_all add: execution_response_def internal_error_answer_def)
  next
    case (Inr response)
    then have "BuildRecoverResponse api persistence req w = (Inr response, w')"
      using Pair assms by (simp add: ExecuteVerificationOnWorldThread_def)
    from recover_sound [OF this] obtain r where "response = RecoveryResponse r" "sound_record req r" by blast
    with Inr Pair show ?thesis by (auto simp: execution_response_def audits_def sound_record_def)
  qed
qed

lemma recovery_audited:
  assumes "reaches env tr s" and "socket s = S_Answered a"
    and "the_handler env = ExecuteVerificationOnWorldThread api persistence"
    and "operation (the_request env) = Op_Recover"
  shows "audits (the_request env) a"
proof -
  have o: "origin_inv env tr s" using origin_invariant [OF assms(1)] .
  have "produced env tr r \<Longrightarrow> audits (the_request env) r" for r
    using execution_audits [OF assms(4)] assms(3) by (auto simp: produced_def)
  with o assms(2,4) show ?thesis
    by (auto simp: origin_inv_def shutdown_answer_def queue_full_answer_def unclaimed_answer_def unfinished_answer_def)
qed

text \<open>A record that claims a completed mutation is the record of a request that ran.\<close>

lemma completed_mutation_ran:
  assumes "reaches env tr s" and "socket s = S_Answered a" and "operation (the_request env) = Op_Recover"
    and "recoveryAudit a = Some r" and "mutationState r = MS_Completed"
  shows "E_Run \<in> set tr"
proof -
  have "answer_inv env (S_Answered a) (worker s) (shared_result s)"
    "completed (shared_result s) \<Longrightarrow> produced env tr (shared_response (shared_result s))"
    using origin_invariant [OF assms(1)] assms(2) by (auto simp: origin_inv_def)
  with assms(3-5) show ?thesis
    by (auto simp: answer_defs RecoveryOutcomeResponse_def NewRecoveryRecord_def default_audit_def produced_def)
qed

text \<open>
  No recovery goes unrecorded. Whatever answer the dispatcher gives to a recover request, in every
  interleaving of the two threads, with every exception and every timeout, it is a successful answer whose text is
  an audit record of this request and this bot, and it carries the same record for the audit log.
\<close>

theorem recovery_always_audited:
  assumes "reaches env tr s" and "socket s = S_Answered a"
    and "the_handler env = ExecuteVerificationOnWorldThread api persistence"
    and "operation (the_request env) = Op_Recover"
  shows "audits (the_request env) a"
  using assms by (rule recovery_audited)

theorem recovery_always_audited_witness:
  "audits sample_request (shutdown_answer 5 sample_request)"
proof -
  let ?env = "sample_env\<lparr>the_handler := ExecuteVerificationOnWorldThread sample_api None\<rparr>"
  let ?s = "(dispatch_start False 5 0)\<lparr>socket := S_Answered (shutdown_answer (system_clock ?env 5) (the_request ?env))\<rparr>"
  have "reaches ?env [] (dispatch_start False 5 0)" by (rule start)
  from move [OF this enter_closed [of "dispatch_start False 5 0" ?env]]
  have r: "reaches ?env ([] @ [E_Enter]) ?s" by simp
  have "audits (the_request ?env) (shutdown_answer (system_clock ?env 5) (the_request ?env))"
    by (rule recovery_always_audited [OF r]) (simp_all add: sample_request_def)
  then show ?thesis by simp
qed

end
