(* ===== verification/Network_Io.thy ===== *)
theory Network_Io
  imports Prelude
begin

text \<open>
  The three ways the server runs its event loop (\<open>PlayerbotVerificationServer.cpp\<close>): an operation under a
  deadline, a read, and an accept. The network is the list of the completion handlers the loop runs, in
  the order it runs them.
\<close>

section \<open>Operations with a deadline\<close>

datatype io_error = IO_TimedOut | IO_Other

text \<open>The two completion handlers the event loop runs, in the order it runs them.\<close>

datatype io_event = Completion "io_error option" | Timer bool

record deadline_state =
  io_completed :: bool
  timed_out :: bool
  io_failure :: "io_error option"

definition run_event :: "deadline_state \<Rightarrow> io_event \<Rightarrow> deadline_state" where
  "run_event s e =
     (case e of
        Completion failure \<Rightarrow> s\<lparr>io_failure := failure, io_completed := True\<rparr>
      | Timer timerError \<Rightarrow> if timerError \<or> io_completed s then s else s\<lparr>timed_out := True\<rparr>)"

definition CompleteWithDeadline :: "io_event list \<Rightarrow> bool \<times> io_error option" where
  "CompleteWithDeadline events =
     (let s = foldl run_event \<lparr>io_completed = False, timed_out = False, io_failure = None\<rparr> events;
          error = (if timed_out s then Some IO_TimedOut else io_failure s)
      in (io_completed s \<and> error = None, error))"

record io_read =
  read_events :: "io_event list"
  read_bytes :: "uint8 list"

text \<open>
  A read into a buffer of \<open>n\<close> zeros; on success the caller goes on with the buffer. The operation
  completes without error only when the buffer is full, but nothing below depends on that.
\<close>

definition ReadWithDeadline :: "nat \<Rightarrow> io_read \<Rightarrow> io_error option \<times> uint8 list option" where
  "ReadWithDeadline n r =
     (case CompleteWithDeadline (read_events r) of
        (success, error) \<Rightarrow> (error, if success then Some (take n (read_bytes r @ replicate n 0)) else None))"

text \<open>Accepting has no deadline: the loop runs the one completion handler, or was stopped before it.\<close>

definition AcceptConnection :: "io_error option list \<Rightarrow> bool" where
  "AcceptConnection completions =
     (let s = foldl run_event \<lparr>io_completed = False, timed_out = False, io_failure = None\<rparr> (map Completion completions)
      in io_completed s \<and> io_failure s = None)"

lemma AcceptConnection_simps [simp]:
  "\<not> AcceptConnection []" "AcceptConnection [None]" "\<not> AcceptConnection [Some failure]"
  by (simp_all add: AcceptConnection_def run_event_def)

section \<open>The event loop, step by step\<close>

text \<open>
  What may happen next while the loop runs an operation under a deadline, after the handlers \<open>es\<close>. The
  peer or the network may complete the operation, in any way. An operation on a closed socket completes
  with an error, and so does one that the timer's handler has cancelled. The timer fires when the
  deadline has passed, or is cancelled by the completion. \<open>io_left\<close> is the number of handlers that have
  not run; the loop returns when there is none.
\<close>

datatype io_cause = IO_Peer | IO_Aborted | IO_Deadline | IO_Cancelled

definition io_ended :: "io_event list \<Rightarrow> bool" where
  "io_ended es \<longleftrightarrow> list_ex (\<lambda>e. case e of Completion failure \<Rightarrow> True | Timer timerError \<Rightarrow> False) es"

definition timer_ended :: "io_event list \<Rightarrow> bool" where
  "timer_ended es \<longleftrightarrow> list_ex (\<lambda>e. case e of Completion failure \<Rightarrow> False | Timer timerError \<Rightarrow> True) es"

definition io_left :: "io_event list \<Rightarrow> nat" where
  "io_left es = (if io_ended es then 0 else 1) + (if timer_ended es then 0 else 1)"

lemma ended_simps [simp]:
  "\<not> io_ended []" "io_ended (es @ [Completion failure])" "io_ended (es @ [Timer timerError]) \<longleftrightarrow> io_ended es"
  "\<not> timer_ended []" "timer_ended (es @ [Timer timerError])" "timer_ended (es @ [Completion failure]) \<longleftrightarrow> timer_ended es"
  by (simp_all add: io_ended_def timer_ended_def)

inductive io_step :: "bool \<Rightarrow> io_event list \<Rightarrow> io_cause \<Rightarrow> io_event list \<Rightarrow> bool" for closed where
  io_peer: "\<not> io_ended es \<Longrightarrow> io_step closed es IO_Peer (es @ [Completion failure])"
| io_aborted: "\<not> io_ended es \<Longrightarrow> closed \<or> Timer False \<in> set es \<Longrightarrow>
    io_step closed es IO_Aborted (es @ [Completion (Some IO_Other)])"
| io_deadline: "\<not> timer_ended es \<Longrightarrow> io_step closed es IO_Deadline (es @ [Timer False])"
| io_cancelled: "io_ended es \<Longrightarrow> \<not> timer_ended es \<Longrightarrow> io_step closed es IO_Cancelled (es @ [Timer True])"

lemma io_step_left: "io_step closed es k es' \<Longrightarrow> io_left es' < io_left es"
  by (cases rule: io_step.cases) (auto simp: io_left_def)

lemma io_left_bound: "io_left es \<le> 2"
  by (simp add: io_left_def)

text \<open>On a closed socket the loop goes on without the peer and without the deadline.\<close>

lemma io_step_closed:
  assumes "io_left es \<noteq> 0"
  shows "\<exists>k es'. (k = IO_Aborted \<or> k = IO_Cancelled) \<and> io_step True es k es'"
proof (cases "io_ended es")
  case True
  with assms have "\<not> timer_ended es" by (simp add: io_left_def split: if_splits)
  from io_cancelled [OF True this, of True] show ?thesis by blast
next
  case False
  from io_aborted [OF this, of True] show ?thesis by blast
qed

section \<open>Deadlines\<close>

text \<open>
  An operation under a deadline succeeds exactly when it completed without error before the timer
  fired; the event loop runs both handlers once, in one order or the other. When the timer fires first
  the result is a timeout, even if the operation itself had just succeeded.
\<close>

theorem deadline_outcome:
  "CompleteWithDeadline [Completion failure, Timer cancelled] = (failure = None, failure) \<and>
   CompleteWithDeadline [Timer False, Completion failure] = (False, Some IO_TimedOut) \<and>
   CompleteWithDeadline [Timer True, Completion failure] = (failure = None, failure)"
  by (simp add: CompleteWithDeadline_def run_event_def)

end
