(* ===== verification/Connection.thy ===== *)
theory Connection
  imports Request_Contract Response_Codec Recovery_Audit Network_Io
begin

text \<open>
  One connection of the server (\<open>PlayerbotVerificationServer.cpp\<close>): \<open>HandleConnection\<close> with its two
  reads and the sending of its one answer. The network is the input: what each read
  delivers, and what the stop flag says at the three points where it is read. What the connection does
  to the outside is the list of its actions: calls of the request handler, audit lines, frames.
\<close>

section \<open>Inputs and actions\<close>

record connection =
  header_read :: io_read
  payload_read :: io_read
  stopping_at_header :: bool
  stopping_at_payload :: bool
  stopping_at_request :: bool
  CurrentTimestampMs :: uint64

datatype action =
    Handle Request
  | AuditLine string
  | Send "uint8 list"

definition SendResponse :: "uint64 \<Rightarrow> Response \<Rightarrow> action list" where
  "SendResponse rid response =
     (case EncodeFrame (SerializeResponse rid response) of
        None \<Rightarrow> []
      | Some frame \<Rightarrow> [Send frame])"

definition EmitAudit :: "RecoveryAuditRecord \<Rightarrow> action list" where
  "EmitAudit record = [AuditLine (SerializeRecoveryAuditRecord record)]"

definition EmitRejectedAudit :: "string \<Rightarrow> ErrorCode \<Rightarrow> uint64 \<Rightarrow> action list" where
  "EmitRejectedAudit body code now =
     (case BuildRejectedRecoveryAudit body code now of None \<Rightarrow> [] | Some record \<Rightarrow> EmitAudit record)"

section \<open>HandleConnection\<close>

text \<open>A failed read is answered only when the server goes on and the peer did not simply run out of time.\<close>

definition read_failed :: "bool \<Rightarrow> io_error option \<Rightarrow> action list" where
  "read_failed stopping error =
     (if \<not> stopping \<and> error \<noteq> Some IO_TimedOut then SendResponse 0 (Failure EC_MalformedFrame []) else [])"

text \<open>What happens to a payload that has arrived.\<close>

definition answer_request ::
  "(Request \<Rightarrow> exn + Response) \<Rightarrow> string \<Rightarrow> uint64 \<Rightarrow> Request \<Rightarrow> action list" where
  "answer_request handler body now req =
     (let response = (case handler req of Inr response \<Rightarrow> response | Inl _ \<Rightarrow> Failure EC_InternalError [])
      in Handle req #
         (case recoveryAudit response of
            Some record \<Rightarrow> EmitAudit record
          | None \<Rightarrow>
              if operation req = Op_Recover
              then EmitRejectedAudit body (if ok response then EC_InternalError else error_code (response_error response)) now
              else []) @
         SendResponse (requestId req) response)"

definition handle_payload ::
  "(string \<Rightarrow> TokenDigest) \<Rightarrow> TokenDigest \<Rightarrow> (Request \<Rightarrow> exn + Response) \<Rightarrow> bool \<Rightarrow> uint64 \<Rightarrow> string \<Rightarrow> action list" where
  "handle_payload sha256 tokenDigest handler stopping now body =
     (let parsed = ParseRequestPayload sha256 body tokenDigest
      in case request parsed of
           None \<Rightarrow>
             EmitRejectedAudit body (error_code (parse_error parsed)) now @
             SendResponse (responseRequestId parsed) (Failure (error_code (parse_error parsed)) [])
         | Some req \<Rightarrow>
             if stopping
             then EmitRejectedAudit body EC_Shutdown now @ SendResponse (requestId req) (Failure EC_Shutdown [])
             else answer_request handler body now req)"

definition HandleConnection ::
  "(string \<Rightarrow> TokenDigest) \<Rightarrow> TokenDigest \<Rightarrow> (Request \<Rightarrow> exn + Response) \<Rightarrow> connection \<Rightarrow> action list" where
  "HandleConnection sha256 tokenDigest handler c =
     (case ReadWithDeadline FRAME_HEADER_BYTES (header_read c) of
        (error, None) \<Rightarrow> read_failed (stopping_at_header c) error
      | (_, Some header) \<Rightarrow>
          (let len = header_length (header ! 0) (header ! 1) (header ! 2) (header ! 3)
           in if unat len > MAX_FRAME_PAYLOAD_BYTES then SendResponse 0 (Failure EC_FrameTooLarge [])
              else if len = 0
              then handle_payload sha256 tokenDigest handler (stopping_at_request c) (CurrentTimestampMs c) []
              else (case ReadWithDeadline (unat len) (payload_read c) of
                      (error, None) \<Rightarrow> read_failed (stopping_at_payload c) error
                    | (_, Some bytes) \<Rightarrow>
                        handle_payload sha256 tokenDigest handler (stopping_at_request c) (CurrentTimestampMs c)
                          (map char_of_byte bytes))))"

section \<open>Sent answers\<close>

lemma SendResponse_frame:
  "\<exists>frame. SendResponse rid response = [Send frame] \<and> EncodeFrame (SerializeResponse rid response) = Some frame"
  using response_encodes [of rid response] by (auto simp: SendResponse_def)


declare wire_field.simps [simp del]

section \<open>What a connection does\<close>

text \<open>The payload the two reads deliver, when they deliver one.\<close>

definition delivered :: "connection \<Rightarrow> string option" where
  "delivered c =
     (case snd (ReadWithDeadline FRAME_HEADER_BYTES (header_read c)) of
        None \<Rightarrow> None
      | Some header \<Rightarrow>
          (let len = header_length (header ! 0) (header ! 1) (header ! 2) (header ! 3)
           in if unat len > MAX_FRAME_PAYLOAD_BYTES then None
              else if len = 0 then Some []
              else map_option (map char_of_byte) (snd (ReadWithDeadline (unat len) (payload_read c)))))"

lemma delivered_handles:
  "delivered c = Some body \<Longrightarrow>
   HandleConnection sha256 digest handler c =
     handle_payload sha256 digest handler (stopping_at_request c) (CurrentTimestampMs c) body"
  by (auto simp: delivered_def HandleConnection_def Let_def split: option.splits prod.splits if_splits)

lemma undelivered:
  "delivered c = None \<Longrightarrow>
   HandleConnection sha256 digest handler c = [] \<or>
   (\<exists>code \<in> {EC_MalformedFrame, EC_FrameTooLarge}.
      HandleConnection sha256 digest handler c = SendResponse 0 (Failure code []))"
  by (auto simp: delivered_def HandleConnection_def read_failed_def Let_def split: option.splits prod.splits if_splits)

lemma rejected_actions: "EmitRejectedAudit body code now = [] \<or> (\<exists>l. EmitRejectedAudit body code now = [AuditLine l])"
  by (auto simp: EmitRejectedAudit_def EmitAudit_def split: option.split)

lemma rejected_no_handle [simp]: "Handle req \<notin> set (EmitRejectedAudit body code now)"
  using rejected_actions [of body code now] by auto

lemma emit_no_handle [simp]: "Handle req \<notin> set (EmitAudit r)"
  by (simp add: EmitAudit_def)

lemma send_no_handle [simp]: "Handle req \<notin> set (SendResponse rid response)"
  by (auto simp: SendResponse_def split: option.split)

lemma handled_iff:
  "Handle req \<in> set (HandleConnection sha256 digest handler c) \<longleftrightarrow>
     (\<exists>body. delivered c = Some body \<and> request (ParseRequestPayload sha256 body digest) = Some req \<and>
        \<not> stopping_at_request c)"
proof (cases "delivered c")
  case None
  from undelivered [OF None, of sha256 digest handler] show ?thesis using None by auto
next
  case (Some body)
  show ?thesis unfolding delivered_handles [OF Some]
    by (auto simp: Some handle_payload_def answer_request_def Let_def split: option.split)
qed

text \<open>
  C7: the request handler only ever sees requests of authenticated clients. It is called with a request
  if and only if the connection delivered a payload that is a flat JSON object with distinct keys which
  carries a token with the expected digest and the fields of a valid typed request, that request being
  the one handed over, and the server was not stopping when it had been read.
\<close>

theorem handler_called_iff:
  "Handle req \<in> set (HandleConnection sha256 digest handler c) \<longleftrightarrow>
     (\<exists>body fs rid token t. delivered c = Some body \<and> \<not> stopping_at_request c \<and>
        flat_object fs body \<and> distinct (map fst fs) \<and> ConstantTimeTokenDigestEquals (sha256 token) digest \<and>
        map_of fs = map_of (wire_fields (wire rid token t)) \<and> valid_request t \<and> req = concretize rid t)"
  unfolding handled_iff accepted_payload_iff by blast

primrec is_send :: "action \<Rightarrow> bool" where
  "is_send (Handle req) = False"
| "is_send (AuditLine l) = False"
| "is_send (Send frame) = True"

primrec is_audit :: "action \<Rightarrow> bool" where
  "is_audit (Handle req) = False"
| "is_audit (AuditLine l) = True"
| "is_audit (Send frame) = False"

lemma filter_send [simp]:
  "filter is_send (EmitRejectedAudit body code now) = []" "filter is_send (EmitAudit r) = []"
  "length (filter is_send (SendResponse rid response)) = 1"
  "filter is_audit (SendResponse rid response) = []"
  using rejected_actions [of body code now] SendResponse_frame [of rid response] by (auto simp: EmitAudit_def)

lemma payload_one_send:
  "length (filter is_send (handle_payload sha256 digest handler stop now body)) = 1"
  by (simp add: handle_payload_def answer_request_def Let_def split: option.split)

lemma sends_last:
  "filter is_send acts = [] \<Longrightarrow> \<exists>acts' rid' response'. acts @ SendResponse rid response = acts' @ SendResponse rid' response' \<and>
     filter is_send acts' = []"
  by blast

text \<open>
  C15: one connection, one answer. A connection whose payload arrived is answered with exactly one frame,
  the last thing it does, which a client decodes to the answer's body; any other connection gets at most
  one, which reports a malformed or an oversized frame under id 0.
\<close>

theorem one_answer:
  "(case delivered c of
      Some body \<Rightarrow> \<exists>acts frame rid response. HandleConnection sha256 digest handler c = acts @ [Send frame] \<and>
        filter is_send acts = [] \<and> payload (DecodeFrame frame) = Some (SerializeResponse rid response)
    | None \<Rightarrow> HandleConnection sha256 digest handler c = [] \<or>
        (\<exists>frame. \<exists>code \<in> {EC_MalformedFrame, EC_FrameTooLarge}.
           HandleConnection sha256 digest handler c = [Send frame] \<and>
           payload (DecodeFrame frame) = Some (SerializeResponse 0 (Failure code []))))"
proof (cases "delivered c")
  case None
  have "\<exists>frame. SendResponse 0 (Failure code []) = [Send frame] \<and>
      payload (DecodeFrame frame) = Some (SerializeResponse 0 (Failure code []))" for code
    using SendResponse_frame frames.decode_encode by blast
  with undelivered [OF None, of sha256 digest handler] show ?thesis unfolding None option.case by metis
next
  case (Some body)
  have split: "\<exists>acts rid response. handle_payload sha256 digest handler stop now body = acts @ SendResponse rid response \<and>
      filter is_send acts = []" for stop now
  proof (cases "request (ParseRequestPayload sha256 body digest)")
    case None
    then show ?thesis unfolding handle_payload_def Let_def None option.case by (intro sends_last) simp
  next
    case (Some req)
    show ?thesis
    proof (cases stop)
      case True
      show ?thesis unfolding handle_payload_def Let_def Some option.case if_P [OF True] by (rule sends_last) simp
    next
      case False
      have "\<exists>acts rid response. answer_request handler body now req = acts @ SendResponse rid response \<and> filter is_send acts = []"
        unfolding answer_request_def Let_def append_Cons [symmetric] append_assoc [symmetric]
        by (rule sends_last) (simp split: option.split)
      with Some False show ?thesis by (simp add: handle_payload_def)
    qed
  qed
  obtain acts rid response where "HandleConnection sha256 digest handler c = acts @ SendResponse rid response"
    "filter is_send acts = []"
    using split [of "stopping_at_request c" "CurrentTimestampMs c"] unfolding delivered_handles [OF Some] by blast
  moreover obtain frame where "SendResponse rid response = [Send frame]"
    "EncodeFrame (SerializeResponse rid response) = Some frame"
    using SendResponse_frame by blast
  moreover from this(2) have "payload (DecodeFrame frame) = Some (SerializeResponse rid response)"
    by (rule frames.decode_encode)
  ultimately show ?thesis unfolding Some option.case by auto
qed

section \<open>Audits\<close>

lemma count_distinct: "distinct xs \<Longrightarrow> count_list xs x = (if x \<in> set xs then 1 else 0)"
  by (induction xs) auto

lemma accepted_recover_audited:
  assumes "request (ParseRequestPayload sha256 body digest) = Some req" and "operation req = Op_Recover"
  shows "\<exists>l. EmitRejectedAudit body code now = [AuditLine l]"
proof -
  obtain fs rid token t where a: "flat_object fs body" "distinct (map fst fs)"
    "map_of fs = map_of (wire_fields (wire rid token t))" "req = concretize rid t"
    using assms(1) unfolding accepted_payload_iff by blast
  have t: "operation_name t = ''recover''" using a(4) assms(2) by (cases t) (auto simp: empty_request_def)
  have "map_of fs ''operation'' = Some (wire_field (WireString ''recover''))"
    unfolding a(3) by (simp add: map_of_wire_fields wire_def t)
  then have op: "StringField fs ''operation'' = Some ''recover''" and mem: "''operation'' \<in> set (map fst fs)"
    by (auto simp: StringField_def dest: map_of_SomeD intro: rev_image_eqI)
  have "count_list (map fst fs) ''operation'' = 1" using count_distinct [OF a(2)] mem by simp
  then have "written_once fs ''operation''" by (simp add: written_once_def)
  then have "\<exists>r. BuildRejectedRecoveryAudit body code now = Some r"
    unfolding rejected_audit_flat [OF a(1)] by (simp add: once_def op)
  then show ?thesis by (auto simp: EmitRejectedAudit_def EmitAudit_def)
qed

text \<open>
  C14: every recover request that reaches the handler is audited exactly once, before it is answered:
  with the record of its response, and with a record of the failure when the handler threw or answered
  without one.
\<close>

theorem recover_audited_once:
  assumes "delivered c = Some body" and "request (ParseRequestPayload sha256 body digest) = Some req"
    and "operation req = Op_Recover" and "\<not> stopping_at_request c"
  shows "\<exists>l frame. HandleConnection sha256 digest handler c = [Handle req, AuditLine l, Send frame] \<and>
    (\<forall>response r. handler req = Inr response \<and> recoveryAudit response = Some r \<longrightarrow> l = SerializeRecoveryAuditRecord r)"
proof -
  have run: "HandleConnection sha256 digest handler c = answer_request handler body (CurrentTimestampMs c) req"
    using assms delivered_handles [OF assms(1)] by (simp add: handle_payload_def)
  let ?response = "case handler req of Inr response \<Rightarrow> response | Inl _ \<Rightarrow> Failure EC_InternalError []"
  obtain frame where frame: "SendResponse (requestId req) ?response = [Send frame]" using SendResponse_frame by blast
  show ?thesis
  proof (cases "recoveryAudit ?response")
    case None
    let ?code = "if ok ?response then EC_InternalError else error_code (response_error ?response)"
    obtain l where "EmitRejectedAudit body ?code (CurrentTimestampMs c) = [AuditLine l]"
      using accepted_recover_audited [OF assms(2,3)] by blast
    with None frame have "HandleConnection sha256 digest handler c = [Handle req, AuditLine l, Send frame]"
      unfolding run answer_request_def Let_def by (simp add: assms(3))
    with None show ?thesis by auto
  next
    case (Some r)
    with frame have "HandleConnection sha256 digest handler c = [Handle req, AuditLine (SerializeRecoveryAuditRecord r), Send frame]"
      unfolding run answer_request_def Let_def by (simp add: EmitAudit_def)
    with Some show ?thesis by (auto split: sum.splits)
  qed
qed


section \<open>A request and its answer\<close>

text \<open>A connection over which a client sends one frame and keeps its side open.\<close>

definition frame_connection :: "uint8 list \<Rightarrow> uint64 \<Rightarrow> connection" where
  "frame_connection frame now =
     (let good = [Completion None, Timer True]
      in \<lparr>header_read = \<lparr>read_events = good, read_bytes = take FRAME_HEADER_BYTES frame\<rparr>,
          payload_read = \<lparr>read_events = good, read_bytes = drop FRAME_HEADER_BYTES frame\<rparr>,
          stopping_at_header = False, stopping_at_payload = False, stopping_at_request = False,
          CurrentTimestampMs = now\<rparr>)"

lemma delivered_frame:
  assumes "EncodeFrame p = Some frame"
  shows "delivered (frame_connection frame now) = Some p"
proof -
  have len: "length p \<le> MAX_FRAME_PAYLOAD_BYTES" and frame: "frame = length_header (of_nat (length p)) @ map byte_of_char p"
    using assms by (auto simp: EncodeFrame_def split: if_splits)
  have unat: "unat (of_nat (length p) :: uint32) = length p" using len by (rule unat_of_nat_payload)
  have "take FRAME_HEADER_BYTES frame = length_header (of_nat (length p))"
    "drop FRAME_HEADER_BYTES frame = map byte_of_char p"
    by (simp_all add: frame FRAME_HEADER_BYTES_def)
  then have reads: "snd (ReadWithDeadline FRAME_HEADER_BYTES (header_read (frame_connection frame now))) = Some (length_header (of_nat (length p)))"
    "snd (ReadWithDeadline (length p) (payload_read (frame_connection frame now))) = Some (map byte_of_char p)"
    by (simp_all add: frame_connection_def ReadWithDeadline_def CompleteWithDeadline_def run_event_def Let_def
        FRAME_HEADER_BYTES_def)
  have "of_nat (length p) = (0 :: uint32) \<Longrightarrow> p = []" using unat by (metis length_0_conv unat_0)
  then show ?thesis
    using len unfolding delivered_def reads option.case header_of_length_header Let_def unat reads
    by (auto simp: comp_def)
qed

lemma stopping_frame [simp]: "\<not> stopping_at_request (frame_connection frame now)"
  by (simp add: frame_connection_def Let_def)

lemma request_served_run:
  assumes "valid_request t" and "ConstantTimeTokenDigestEquals (sha256 token) digest"
    and "EncodeFrame (render_object (wire rid token t)) = Some frame"
  shows "HandleConnection sha256 digest handler (frame_connection frame now) =
    answer_request handler (render_object (wire rid token t)) now (concretize rid t)"
proof -
  have "request (ParseRequestPayload sha256 (render_object (wire rid token t)) digest) = Some (concretize rid t)"
    using rendered_request_accepted [of t sha256 token digest rid, OF assms(1,2)] by (simp add: accept_def)
  then show ?thesis
    unfolding delivered_handles [OF delivered_frame [OF assms(3)]] handle_payload_def Let_def
    by (simp add: frame_connection_def Let_def)
qed

lemma concretize_id [simp]: "requestId (concretize rid t) = rid"
  by (cases t) simp_all

text \<open>
  C12: a request and its answer over one connection. A client that sends a valid typed request in one
  frame, under a token with the expected digest, has the handler called with exactly that request, and
  the one frame it gets back decodes to the handler's response under its own request id; when the
  handler throws, to an internal error under that id.
\<close>

theorem request_served:
  assumes "valid_request t" and "ConstantTimeTokenDigestEquals (sha256 token) digest"
    and "EncodeFrame (render_object (wire rid token t)) = Some frame"
  shows "\<exists>audits out. HandleConnection sha256 digest handler (frame_connection frame now) =
      [Handle (concretize rid t)] @ audits @ [Send out] \<and> list_all is_audit audits \<and> length audits \<le> 1 \<and>
    payload (DecodeFrame out) = Some (SerializeResponse rid
      (case handler (concretize rid t) of Inr response \<Rightarrow> response | Inl _ \<Rightarrow> Failure EC_InternalError []))"
proof -
  let ?response = "case handler (concretize rid t) of Inr response \<Rightarrow> response | Inl _ \<Rightarrow> Failure EC_InternalError []"
  obtain out where out: "SendResponse rid ?response = [Send out]" "EncodeFrame (SerializeResponse rid ?response) = Some out"
    using SendResponse_frame by blast
  define audits where "audits = (case recoveryAudit ?response of
      Some record \<Rightarrow> EmitAudit record
    | None \<Rightarrow> if operation (concretize rid t) = Op_Recover
              then EmitRejectedAudit (render_object (wire rid token t))
                     (if ok ?response then EC_InternalError else error_code (response_error ?response)) now
              else [])"
  have "list_all is_audit audits \<and> length audits \<le> 1"
    using rejected_actions [of "render_object (wire rid token t)"
        "if ok ?response then EC_InternalError else error_code (response_error ?response)" now]
    by (auto simp: audits_def EmitAudit_def split: option.split)
  moreover have "HandleConnection sha256 digest handler (frame_connection frame now) =
      [Handle (concretize rid t)] @ audits @ [Send out]"
    unfolding request_served_run [of t sha256 token digest rid frame handler now, OF assms] answer_request_def Let_def concretize_id out(1) audits_def by simp
  moreover have "payload (DecodeFrame out) = Some (SerializeResponse rid ?response)"
    using out(2) by (rule frames.decode_encode)
  ultimately show ?thesis by blast
qed

text \<open>A bound on the text of a request, and the frames of the witnesses.\<close>

fun value_size :: "wire_value \<Rightarrow> nat" where
  "value_size (WireNumber n) = 20"
| "value_size (WireString s) = 6 * length s + 2"

lemma length_escaped: "length (AppendEscapedJsonString [] s) \<le> 6 * length s + 2"
  using length_escape [of s] by (simp add: AppendEscapedJsonString_def)

lemma length_render_value: "length (render_value v) \<le> value_size v"
  using length_to_string_uint64 length_escaped by (cases v) simp_all

lemma length_render_fields: "length (render_fields kvs) \<le> Suc (sum_list (map (\<lambda>(k, v). 6 * length k + value_size v + 4) kvs))"
proof (induction kvs rule: render_fields.induct)
  case (2 k v)
  then show ?case using length_escaped [of k] length_render_value [of v] by simp
next
  case (3 k v kv kvs)
  then show ?case using length_escaped [of k] length_render_value [of v] by simp
qed simp

lemma sample_frame:
  assumes "t \<in> {TRecover 12, TStatus, TCheck 12 (CMap 1)}" and "length token \<le> 100"
  shows "\<exists>frame. EncodeFrame (render_object (wire 7 token t)) = Some frame"
proof -
  have "sum_list (map (\<lambda>(k, v). 6 * length k + value_size v + 4) (wire 7 token t)) \<le> 2000"
    using assms by (auto simp: wire_def)
  then have "length (render_object (wire 7 token t)) \<le> MAX_FRAME_PAYLOAD_BYTES"
    using length_render_fields [of "wire 7 token t"] by (simp add: render_object_def MAX_FRAME_PAYLOAD_BYTES_def)
  then show ?thesis by (simp add: EncodeFrame_def)
qed

theorem request_served_witness:
  "\<exists>frame acts. HandleConnection sample_digest sample_token (\<lambda>req. Inr (Success ''{}'')) (frame_connection frame 0) =
     Handle (concretize 7 TStatus) # acts"
proof -
  obtain frame where f: "EncodeFrame (render_object (wire 7 ''secret'' TStatus)) = Some frame"
    using sample_frame [of _ "''secret''"] by fastforce
  have "valid_request TStatus" by simp
  from request_served [of TStatus sample_digest "''secret''" sample_token 7 frame "\<lambda>req. Inr (Success ''{}'')" 0,
      OF this sample_authentic f] show ?thesis by auto
qed

theorem recover_audited_once_witness:
  "\<exists>c l frame. HandleConnection sample_digest sample_token (\<lambda>req. Inl OtherException) c =
     [Handle (concretize 7 (TRecover 12)), AuditLine l, Send frame]"
proof -
  let ?t = "TRecover 12"
  obtain frame where f: "EncodeFrame (render_object (wire 7 ''secret'' ?t)) = Some frame"
    using sample_frame [of _ "''secret''"] by fastforce
  have "valid_request ?t" by simp
  from rendered_request_accepted [of ?t sample_digest "''secret''" sample_token 7, OF this sample_authentic]
  have p: "request (ParseRequestPayload sample_digest (render_object (wire 7 ''secret'' ?t)) sample_token) = Some (concretize 7 ?t)"
    by (simp add: accept_def)
  have "operation (concretize 7 ?t) = Op_Recover" by simp
  from recover_audited_once [OF delivered_frame [OF f] p this stopping_frame, of "\<lambda>req. Inl OtherException" 0]
  show ?thesis by blast
qed

end
