(* ===== verification/Config.thy ===== *)
theory Config
  imports Prelude
begin

text \<open>
  The module's settings (\<open>PlayerbotMCPConfig.h\<close>, \<open>PlayerbotMCPConfig.cpp\<close>): \<open>std::from_chars\<close> on a decimal
  32 bit integer, the loader, and the global the reload replaces. The option store is a parameter.
\<close>

section \<open>Reading a number\<close>

datatype errc = Errc_Ok | Errc_InvalidArgument | Errc_ResultOutOfRange

text \<open>
  \<open>std::from_chars (first, last, parsed)\<close>: the longest run of digits, without sign or blank. The value
  is stored only when it fits; the rest of the text is what \<open>ptr\<close> points to.
\<close>

definition from_chars :: "string \<Rightarrow> uint32 \<Rightarrow> errc \<times> uint32 \<times> string" where
  "from_chars s parsed =
     (let ds = takeWhile is_digit_char s; rest = dropWhile is_digit_char s; n = digits_value 0 ds
      in if ds = [] then (Errc_InvalidArgument, parsed, s)
         else if 2 ^ 32 \<le> n then (Errc_ResultOutOfRange, parsed, rest)
         else (Errc_Ok, of_nat n, rest))"

section \<open>Settings\<close>

record PlayerbotMCPSettings =
  enable :: bool
  port :: uint32

definition default_settings :: PlayerbotMCPSettings where
  "default_settings = \<lparr>enable = True, port = 0\<rparr>"

definition LoadPlayerbotMCPSettings :: "(string \<Rightarrow> string option) \<Rightarrow> PlayerbotMCPSettings" where
  "LoadPlayerbotMCPSettings lookup =
     (let settings = default_settings;
          settings =
            (case lookup ''PlayerbotsMCP.Enable'' of
               None \<Rightarrow> settings
             | Some en \<Rightarrow>
                 if en = [] then settings
                 else (case from_chars en 0 of
                         (ec, parsed, ptr) \<Rightarrow>
                           if ec = Errc_Ok \<and> ptr = [] then settings\<lparr>enable := parsed \<noteq> 0\<rparr> else settings))
      in case lookup ''PlayerbotsMCP.Port'' of
           None \<Rightarrow> settings
         | Some v \<Rightarrow>
             if v = [] then settings
             else (case from_chars v 0 of
                     (ec, parsed, ptr) \<Rightarrow>
                       if ec = Errc_Ok \<and> ptr = [] then settings\<lparr>port := parsed\<rparr> else settings))"

text \<open>The lookup of the reload: an unset option and an empty one are the same.\<close>

definition ReloadPlayerbotMCPConfig :: "(string \<Rightarrow> string) \<Rightarrow> PlayerbotMCPSettings" where
  "ReloadPlayerbotMCPConfig GetOption =
     LoadPlayerbotMCPSettings (\<lambda>key. let v = GetOption key in if v = [] then None else Some v)"

section \<open>What the settings are\<close>

text \<open>The number an option denotes: a text of digits only, whose value fits into 32 bits.\<close>

definition option_number :: "string \<Rightarrow> nat option" where
  "option_number s =
     (if s \<noteq> [] \<and> list_all is_digit_char s \<and> digits_value 0 s < 2 ^ 32 then Some (digits_value 0 s) else None)"

lemma dropWhile_Nil_iff: "dropWhile P s = [] \<longleftrightarrow> list_all P s"
  by (simp add: list_all_iff)

lemma from_chars_number:
  "(case from_chars s 0 of (ec, parsed, ptr) \<Rightarrow> if ec = Errc_Ok \<and> ptr = [] then f parsed else z) =
     (case option_number s of None \<Rightarrow> z | Some n \<Rightarrow> f (of_nat n))"
proof (cases "list_all is_digit_char s")
  case True
  then have tw: "takeWhile is_digit_char s = s" and dw: "dropWhile is_digit_char s = []"
    by (simp_all add: list_all_iff takeWhile_eq_all_conv)
  show ?thesis
    using True unfolding from_chars_def tw dw option_number_def Let_def by (auto split: if_splits)
next
  case False
  then have dw: "(dropWhile is_digit_char s = []) = False" by (simp only: dropWhile_Nil_iff)
  show ?thesis using False unfolding from_chars_def option_number_def Let_def by (simp add: dw del: dropWhile_eq_Nil_conv)
qed

lemma settings_value:
  "ReloadPlayerbotMCPConfig GetOption =
     \<lparr>enable = (option_number (GetOption ''PlayerbotsMCP.Enable'') \<noteq> Some 0),
      port = (case option_number (GetOption ''PlayerbotsMCP.Port'') of None \<Rightarrow> 0 | Some n \<Rightarrow> of_nat n)\<rparr>"
proof -
  have zero: "(of_nat n :: uint32) = 0 \<longleftrightarrow> n = 0" if "option_number s = Some n" for s n
  proof -
    have "n < 2 ^ 32" using that by (auto simp: option_number_def split: if_splits)
    then have "unat (of_nat n :: uint32) = n" by (simp add: unsigned_of_nat take_bit_eq_mod)
    then show ?thesis by (metis unat_eq_zero)
  qed
  have nil: "option_number [] = None" by (simp add: option_number_def)
  show ?thesis
    unfolding ReloadPlayerbotMCPConfig_def LoadPlayerbotMCPSettings_def Let_def from_chars_number
    using zero [of "GetOption ''PlayerbotsMCP.Enable''"]
    by (auto simp: default_settings_def nil split: option.split)
qed

text \<open>
  What an option text means. The bridge is disabled by a text of digits with the value zero and by
  nothing else: a missing, empty or misspelt value (\<open>false\<close>, \<open>-1\<close>, \<open>0 \<close>) leaves it enabled. The port is
  the value of a text of digits that fits into 32 bits, and zero, which starts no listener, otherwise.
\<close>

theorem settings_meaning:
  "ReloadPlayerbotMCPConfig GetOption =
     \<lparr>enable = (option_number (GetOption ''PlayerbotsMCP.Enable'') \<noteq> Some 0),
      port = (case option_number (GetOption ''PlayerbotsMCP.Port'') of None \<Rightarrow> 0 | Some n \<Rightarrow> of_nat n)\<rparr>"
  by (rule settings_value)

end
