(* ===== verification/Server.thy ===== *)
theory Server
  imports Config Connection
begin

text \<open>
  The life of the server: \<open>Start\<close>, the worker thread's \<open>Run\<close>, \<open>AbortNetwork\<close> and \<open>Stop\<close>
  (\<open>PlayerbotVerificationServer.cpp\<close>), and the world script that drives it
  (\<open>PlayerbotsMCPScripts.cpp\<close>). The operating system is a parameter: the environment variables, and
  whether a listener can be opened on an endpoint. The worker and the main thread interleave as a step
  relation, in which a connection is handled in steps too: every handler the event loop runs during the
  two reads and the write, the parsing, the call of the request handler and its return. What a connection
  has done at its end is proved to be what \<open>HandleConnection\<close> does on the inputs met on the way.
\<close>

section \<open>State\<close>

text \<open>
  The acceptor exists and is open, or was closed by \<open>AbortNetwork\<close>; sockets are numbered as the worker
  makes them, and \<open>socket_closed\<close> is about the active one. The gate \<open>acceptingRequests\<close> of the dispatcher
  is kept here too, since only the server writes it.
\<close>

record server =
  acceptor :: bool
  acceptor_open :: bool
  active_socket :: "nat option"
  socket_closed :: bool
  worker_joinable :: bool
  stopping :: bool
  running :: bool
  server_digest :: TokenDigest
  accepting :: bool

definition zero_digest :: TokenDigest where
  "zero_digest = replicate TOKEN_DIGEST_BYTES 0"

definition new_server :: server where
  "new_server = \<lparr>acceptor = False, acceptor_open = False, active_socket = None, socket_closed = False,
     worker_joinable = False, stopping = False, running = False, server_digest = zero_digest, accepting = False\<rparr>"

definition SetPlayerbotVerificationAcceptingRequests :: "bool \<Rightarrow> server \<Rightarrow> server" where
  "SetPlayerbotVerificationAcceptingRequests b s = s\<lparr>accepting := b\<rparr>"

definition IsPlayerbotVerificationAcceptingRequests :: "server \<Rightarrow> bool" where
  "IsPlayerbotVerificationAcceptingRequests s = accepting s"

definition IsRunning :: "server \<Rightarrow> bool" where
  "IsRunning s = running s"

section \<open>Operations of the main thread\<close>

text \<open>An endpoint is an IPv4 address and a port; the loopback address is 127.0.0.1.\<close>

definition MakePlayerbotVerificationEndpoint :: "uint16 \<Rightarrow> uint32 \<times> uint16" where
  "MakePlayerbotVerificationEndpoint p = (0x7F000001, p)"

definition Start ::
  "(string \<Rightarrow> TokenDigest) \<Rightarrow> (string \<Rightarrow> string option) \<Rightarrow> (uint32 \<times> uint16 \<Rightarrow> bool) \<Rightarrow> uint32 \<Rightarrow> server \<Rightarrow> bool \<times> server" where
  "Start sha256 env listen p s =
     (if p = 0 \<or> 0xFFFF < p then (False, s)
      else case VerificationTokenDigestFromEnvironment sha256 env of
             None \<Rightarrow> (False, s)
           | Some digest \<Rightarrow>
               if running s \<or> worker_joinable s then (False, s)
               else if \<not> listen (MakePlayerbotVerificationEndpoint (ucast p))
               then (False, s\<lparr>acceptor := False, acceptor_open := False\<rparr>)
               else (True, (SetPlayerbotVerificationAcceptingRequests True
                       (s\<lparr>acceptor := True, acceptor_open := True, server_digest := digest, stopping := False, running := True\<rparr>))
                       \<lparr>worker_joinable := True\<rparr>))"

text \<open>\<open>Stop\<close> up to the join, and after it.\<close>

definition Stop_signal :: "server \<Rightarrow> server" where
  "Stop_signal s = (SetPlayerbotVerificationAcceptingRequests False s)\<lparr>stopping := True\<rparr>"

definition Stop_finish :: "server \<Rightarrow> server" where
  "Stop_finish s = s\<lparr>worker_joinable := False, active_socket := None, acceptor := False, acceptor_open := False,
     server_digest := zero_digest, running := False\<rparr>"

definition AbortNetwork :: "server \<Rightarrow> server" where
  "AbortNetwork s =
     (let s = (if acceptor s then s\<lparr>acceptor_open := False\<rparr> else s)
      in if active_socket s \<noteq> None then s\<lparr>socket_closed := True\<rparr> else s)"

text \<open>
  \<open>Stop\<close> as the main thread sees it: \<open>during\<close> is what the worker and the posted \<open>AbortNetwork\<close> do to the
  server until the join has returned and the rest of the loop's work has been polled.
\<close>

definition Stop :: "(server \<Rightarrow> server) \<Rightarrow> server \<Rightarrow> server" where
  "Stop during s =
     (let s = Stop_signal s
      in Stop_finish (if worker_joinable s then during s else s))"

lemma Stop_leaves:
  "\<not> running (Stop during s)" "\<not> worker_joinable (Stop during s)" "\<not> acceptor (Stop during s)"
  "active_socket (Stop during s) = None" "server_digest (Stop during s) = zero_digest"
  by (simp_all add: Stop_def Stop_finish_def Let_def)

lemma AbortNetwork_simps [simp]:
  "acceptor (AbortNetwork s) = acceptor s" "active_socket (AbortNetwork s) = active_socket s"
  "worker_joinable (AbortNetwork s) = worker_joinable s" "stopping (AbortNetwork s) = stopping s"
  "running (AbortNetwork s) = running s" "server_digest (AbortNetwork s) = server_digest s"
  "accepting (AbortNetwork s) = accepting s" "acceptor_open (AbortNetwork s) \<longleftrightarrow> acceptor_open s \<and> \<not> acceptor s"
  "socket_closed (AbortNetwork s) \<longleftrightarrow> socket_closed s \<or> active_socket s \<noteq> None"
  by (auto simp: AbortNetwork_def Let_def)

section \<open>The worker's way through a connection\<close>

text \<open>
  Where the worker stands in \<open>Run\<close>: at the head of the loop, waiting for a connection, inside
  \<open>HandleConnection\<close>, closing the socket, or gone. Inside \<open>HandleConnection\<close> it waits for the header, for
  a payload of a given length, or for the answer to be written, each with the handlers the event loop
  has run so far; it parses the payload; or it waits for the request handler.
\<close>

datatype run_pc =
    R_None | R_Head | R_Accept | R_Header "io_event list" | R_Payload uint32 "io_event list" | R_Parse string
  | R_Handler string Request | R_Write "io_event list" | R_Done | R_Close | R_Exit

text \<open>
  The pieces of \<open>HandleConnection\<close> between its waits, each with where the worker goes and what it has
  done to the outside. An answer is written before the connection is done; without one it is done.
\<close>

definition respond :: "action list \<Rightarrow> run_pc \<times> action list" where
  "respond acts = (if filter is_send acts = [] then R_Done else R_Write [], acts)"

definition after_header :: "bool \<Rightarrow> io_read \<Rightarrow> run_pc \<times> action list" where
  "after_header stop r =
     (case ReadWithDeadline FRAME_HEADER_BYTES r of
        (error, None) \<Rightarrow> respond (read_failed stop error)
      | (_, Some header) \<Rightarrow>
          (let len = header_length (header ! 0) (header ! 1) (header ! 2) (header ! 3)
           in if unat len > MAX_FRAME_PAYLOAD_BYTES then respond (SendResponse 0 (Failure EC_FrameTooLarge []))
              else if len = 0 then (R_Parse [], []) else (R_Payload len [], [])))"

definition after_payload :: "bool \<Rightarrow> uint32 \<Rightarrow> io_read \<Rightarrow> run_pc \<times> action list" where
  "after_payload stop len r =
     (case ReadWithDeadline (unat len) r of
        (error, None) \<Rightarrow> respond (read_failed stop error)
      | (_, Some bytes) \<Rightarrow> (R_Parse (map char_of_byte bytes), []))"

definition after_parse ::
  "(string \<Rightarrow> TokenDigest) \<Rightarrow> TokenDigest \<Rightarrow> bool \<Rightarrow> uint64 \<Rightarrow> string \<Rightarrow> run_pc \<times> action list" where
  "after_parse sha256 tokenDigest stop now body =
     (let parsed = ParseRequestPayload sha256 body tokenDigest
      in case request parsed of
           None \<Rightarrow>
             respond (EmitRejectedAudit body (error_code (parse_error parsed)) now @
               SendResponse (responseRequestId parsed) (Failure (error_code (parse_error parsed)) []))
         | Some req \<Rightarrow>
             if stop
             then respond (EmitRejectedAudit body EC_Shutdown now @ SendResponse (requestId req) (Failure EC_Shutdown []))
             else (R_Handler body req, []))"

definition after_handler :: "exn + Response \<Rightarrow> string \<Rightarrow> uint64 \<Rightarrow> Request \<Rightarrow> run_pc \<times> action list" where
  "after_handler result body now req = respond (answer_request (\<lambda>_. result) body now req)"

section \<open>The threads\<close>

text \<open>
  \<open>conn\<close> holds what the connection at hand has met so far: what its reads delivered, and what the stop
  flag said where it was read; \<open>performed\<close> what it has done.
\<close>

datatype main_pc = M_Idle | M_Joining

record server_sys =
  srv :: server
  run_at :: run_pc
  main_at :: main_pc
  abort_posted :: bool
  sockets :: nat
  conn :: connection
  performed :: "action list"

datatype server_event =
    V_Start bool | V_Signal | V_Join | V_Head | V_Accepted | V_AcceptAborted | V_AcceptFailed
  | V_Abort | V_Io io_cause | V_Header | V_Payload | V_Refused | V_Call connection Request | V_Returned
  | V_Written | V_Handled connection "action list" | V_Closed

text \<open>Where the worker runs the event loop, which then runs the posted \<open>AbortNetwork\<close>.\<close>

fun in_loop :: "run_pc \<Rightarrow> bool" where
  "in_loop R_Accept = True"
| "in_loop (R_Header es) = True"
| "in_loop (R_Payload len es) = True"
| "in_loop (R_Write es) = True"
| "in_loop pc = False"

inductive sstep ::
  "(string \<Rightarrow> TokenDigest) \<Rightarrow> (string \<Rightarrow> string option) \<Rightarrow> server_sys \<Rightarrow> server_event \<Rightarrow> server_sys \<Rightarrow> bool"
  for sha256 env where
  start_refused:
    "main_at s = M_Idle \<Longrightarrow> Start sha256 env listen p (srv s) = (False, v) \<Longrightarrow>
     sstep sha256 env s (V_Start False) (s\<lparr>srv := v\<rparr>)"
| start_done:
    "main_at s = M_Idle \<Longrightarrow> Start sha256 env listen p (srv s) = (True, v) \<Longrightarrow>
     sstep sha256 env s (V_Start True) (s\<lparr>srv := v, run_at := R_Head\<rparr>)"
| stop_idle:
    "main_at s = M_Idle \<Longrightarrow> \<not> worker_joinable (srv s) \<Longrightarrow>
     sstep sha256 env s V_Signal (s\<lparr>srv := Stop id (srv s)\<rparr>)"
| stop_signal:
    "main_at s = M_Idle \<Longrightarrow> worker_joinable (srv s) \<Longrightarrow>
     sstep sha256 env s V_Signal (s\<lparr>srv := Stop_signal (srv s), main_at := M_Joining, abort_posted := True\<rparr>)"
| stop_join:
    "main_at s = M_Joining \<Longrightarrow> run_at s = R_Exit \<Longrightarrow>
     sstep sha256 env s V_Join (s\<lparr>srv := Stop_finish (if abort_posted s then AbortNetwork (srv s) else srv s), run_at := R_None, main_at := M_Idle, abort_posted := False\<rparr>)"
| head_exit:
    "run_at s = R_Head \<Longrightarrow> stopping (srv s) \<Longrightarrow>
     sstep sha256 env s V_Head (s\<lparr>srv := (srv s)\<lparr>running := False\<rparr>, run_at := R_Exit\<rparr>)"
| head_accept:
    "run_at s = R_Head \<Longrightarrow> \<not> stopping (srv s) \<Longrightarrow>
     sstep sha256 env s V_Head (s\<lparr>srv := (srv s)\<lparr>active_socket := Some (sockets s), socket_closed := False\<rparr>,
       sockets := Suc (sockets s), run_at := R_Accept\<rparr>)"
| accepted:
    "run_at s = R_Accept \<Longrightarrow> acceptor_open (srv s) \<Longrightarrow> AcceptConnection completions \<Longrightarrow> \<not> stopping (srv s) \<Longrightarrow>
     sstep sha256 env s V_Accepted (s\<lparr>run_at := R_Header [], performed := []\<rparr>)"
| accepted_stopping:
    "run_at s = R_Accept \<Longrightarrow> acceptor_open (srv s) \<Longrightarrow> AcceptConnection completions \<Longrightarrow> stopping (srv s) \<Longrightarrow>
     sstep sha256 env s V_Accepted (s\<lparr>srv := (srv s)\<lparr>running := False\<rparr>, run_at := R_Exit\<rparr>)"
| accept_aborted:
    "run_at s = R_Accept \<Longrightarrow> \<not> acceptor_open (srv s) \<Longrightarrow>
     sstep sha256 env s V_AcceptAborted (s\<lparr>srv := (srv s)\<lparr>running := False\<rparr>, run_at := R_Exit\<rparr>)"
| accept_failed:
    "run_at s = R_Accept \<Longrightarrow> \<not> AcceptConnection completions \<Longrightarrow>
     sstep sha256 env s V_AcceptFailed (s\<lparr>srv := (srv s)\<lparr>running := False\<rparr>, run_at := R_Exit\<rparr>)"
| abort:
    "abort_posted s \<Longrightarrow> in_loop (run_at s) \<Longrightarrow>
     sstep sha256 env s V_Abort (s\<lparr>srv := AbortNetwork (srv s), abort_posted := False\<rparr>)"
| header_io:
    "run_at s = R_Header es \<Longrightarrow> io_step (socket_closed (srv s)) es k es' \<Longrightarrow>
     sstep sha256 env s (V_Io k) (s\<lparr>run_at := R_Header es'\<rparr>)"
| header_done:
    "run_at s = R_Header es \<Longrightarrow> io_left es = 0 \<Longrightarrow>
     after_header (stopping (srv s)) \<lparr>read_events = es, read_bytes = bytes\<rparr> = (pc, acts) \<Longrightarrow>
     sstep sha256 env s V_Header (s\<lparr>run_at := pc, performed := acts,
       conn := (conn s)\<lparr>header_read := \<lparr>read_events = es, read_bytes = bytes\<rparr>, stopping_at_header := stopping (srv s)\<rparr>\<rparr>)"
| payload_io:
    "run_at s = R_Payload len es \<Longrightarrow> io_step (socket_closed (srv s)) es k es' \<Longrightarrow>
     sstep sha256 env s (V_Io k) (s\<lparr>run_at := R_Payload len es'\<rparr>)"
| payload_done:
    "run_at s = R_Payload len es \<Longrightarrow> io_left es = 0 \<Longrightarrow>
     after_payload (stopping (srv s)) len \<lparr>read_events = es, read_bytes = bytes\<rparr> = (pc, acts) \<Longrightarrow>
     sstep sha256 env s V_Payload (s\<lparr>run_at := pc, performed := acts,
       conn := (conn s)\<lparr>payload_read := \<lparr>read_events = es, read_bytes = bytes\<rparr>, stopping_at_payload := stopping (srv s)\<rparr>\<rparr>)"
| refused:
    "run_at s = R_Parse body \<Longrightarrow>
     after_parse sha256 (server_digest (srv s)) (stopping (srv s)) now body = (pc, acts) \<Longrightarrow> pc \<in> {R_Done, R_Write []} \<Longrightarrow>
     sstep sha256 env s V_Refused (s\<lparr>run_at := pc, performed := acts,
       conn := (conn s)\<lparr>stopping_at_request := stopping (srv s), CurrentTimestampMs := now\<rparr>\<rparr>)"
| calls:
    "run_at s = R_Parse body \<Longrightarrow>
     after_parse sha256 (server_digest (srv s)) (stopping (srv s)) now body = (R_Handler body req, acts) \<Longrightarrow>
     c = (conn s)\<lparr>stopping_at_request := stopping (srv s)\<rparr> \<Longrightarrow>
     sstep sha256 env s (V_Call c req) (s\<lparr>run_at := R_Handler body req, performed := acts, conn := c\<rparr>)"
| returned:
    "run_at s = R_Handler body req \<Longrightarrow> after_handler result body now req = (pc, acts) \<Longrightarrow>
     sstep sha256 env s V_Returned (s\<lparr>run_at := pc, performed := acts, conn := (conn s)\<lparr>CurrentTimestampMs := now\<rparr>\<rparr>)"
| write_io:
    "run_at s = R_Write es \<Longrightarrow> io_step (socket_closed (srv s)) es k es' \<Longrightarrow>
     sstep sha256 env s (V_Io k) (s\<lparr>run_at := R_Write es'\<rparr>)"
| write_done:
    "run_at s = R_Write es \<Longrightarrow> io_left es = 0 \<Longrightarrow>
     sstep sha256 env s V_Written (s\<lparr>run_at := R_Done\<rparr>)"
| handled:
    "run_at s = R_Done \<Longrightarrow>
     sstep sha256 env s (V_Handled (conn s) (performed s)) (s\<lparr>run_at := R_Close\<rparr>)"
| closed:
    "run_at s = R_Close \<Longrightarrow>
     sstep sha256 env s V_Closed (s\<lparr>srv := (srv s)\<lparr>socket_closed := True,
       active_socket := (if active_socket (srv s) = Some (sockets s - 1) then None else active_socket (srv s))\<rparr>,
       run_at := R_Head\<rparr>)"

text \<open>The process before the first start; the fields of a connection have no meaning yet.\<close>

definition server_start :: server_sys where
  "server_start = \<lparr>srv = new_server, run_at = R_None, main_at = M_Idle, abort_posted = False, sockets = 0,
     conn = frame_connection [] 0, performed = []\<rparr>"

inductive sreach :: "(string \<Rightarrow> TokenDigest) \<Rightarrow> (string \<Rightarrow> string option) \<Rightarrow> server_event list \<Rightarrow> server_sys \<Rightarrow> bool"
  for sha256 env where
  sinit: "sreach sha256 env [] server_start"
| smove: "sreach sha256 env tr s \<Longrightarrow> sstep sha256 env s e s' \<Longrightarrow> sreach sha256 env (tr @ [e]) s'"

lemma server_start_simps [simp]:
  "srv server_start = new_server" "run_at server_start = R_None" "main_at server_start = M_Idle"
  "\<not> abort_posted server_start" "sockets server_start = 0"
  by (simp_all add: server_start_def)

inductive_cases sstep_handledE: "sstep sha256 env s (V_Handled c acts) s'"
inductive_cases sstep_callE: "sstep sha256 env s (V_Call c req) s'"

section \<open>The server invariant\<close>

text \<open>The worker is inside \<open>HandleConnection\<close>.\<close>

primrec handling :: "run_pc \<Rightarrow> bool" where
  "handling R_None = False"
| "handling R_Head = False"
| "handling R_Accept = False"
| "handling (R_Header es) = True"
| "handling (R_Payload len es) = True"
| "handling (R_Parse body) = True"
| "handling (R_Handler body req) = True"
| "handling (R_Write es) = True"
| "handling R_Done = True"
| "handling R_Close = False"
| "handling R_Exit = False"

definition serving :: "run_pc \<Rightarrow> bool" where
  "serving pc \<longleftrightarrow> pc \<noteq> R_None \<and> pc \<noteq> R_Exit"

lemma serving_simps [simp]:
  "\<not> serving R_None" "\<not> serving R_Exit" "serving R_Head" "serving R_Accept" "serving R_Close"
  "handling pc \<Longrightarrow> serving pc"
  by (auto simp: serving_def)

text \<open>Where the pieces of a connection lead to: on through the connection.\<close>

lemma respond_pc: "respond acts = (pc, acts') \<Longrightarrow> (pc = R_Done \<or> pc = R_Write []) \<and> acts' = acts"
  by (simp add: respond_def split: if_splits)

lemma after_header_pc:
  "after_header stop r = (pc, acts) \<Longrightarrow> pc = R_Done \<or> pc = R_Write [] \<or> pc = R_Parse [] \<or> (\<exists>len. pc = R_Payload len [])"
  by (auto simp: after_header_def Let_def split: prod.splits option.splits if_splits dest: respond_pc)

lemma after_payload_pc:
  "after_payload stop len r = (pc, acts) \<Longrightarrow> pc = R_Done \<or> pc = R_Write [] \<or> (\<exists>body. pc = R_Parse body)"
  by (auto simp: after_payload_def split: prod.splits option.splits dest: respond_pc)

lemma after_parse_pc:
  "after_parse sha256 digest stop now body = (pc, acts) \<Longrightarrow>
   pc = R_Done \<or> pc = R_Write [] \<or> (\<not> stop \<and> acts = [] \<and> (\<exists>req. pc = R_Handler body req))"
  by (auto simp: after_parse_def Let_def split: option.splits if_splits dest: respond_pc)

lemma after_handler_pc: "after_handler result body now req = (pc, acts) \<Longrightarrow> pc = R_Done \<or> pc = R_Write []"
  by (auto simp: after_handler_def dest: respond_pc)

lemmas after_pcs = after_header_pc after_payload_pc after_parse_pc after_handler_pc

lemma after_handling:
  "after_header stop r = (pc, acts) \<Longrightarrow> handling pc"
  "after_payload stop len r = (pc, acts) \<Longrightarrow> handling pc"
  "after_parse sha256 digest stop now body = (pc, acts) \<Longrightarrow> handling pc"
  "after_handler result body now req = (pc, acts) \<Longrightarrow> handling pc"
  by (auto dest!: after_pcs)

definition server_inv :: "server_sys \<Rightarrow> bool" where
  "server_inv s \<longleftrightarrow>
     (running (srv s) \<longleftrightarrow> serving (run_at s)) \<and>
     (worker_joinable (srv s) \<longleftrightarrow> run_at s \<noteq> R_None) \<and>
     (accepting (srv s) \<longrightarrow> worker_joinable (srv s) \<and> \<not> stopping (srv s)) \<and>
     (worker_joinable (srv s) \<longrightarrow> acceptor (srv s)) \<and>
     (\<not> worker_joinable (srv s) \<longrightarrow> server_digest (srv s) = zero_digest \<and> \<not> acceptor (srv s) \<and> active_socket (srv s) = None) \<and>
     (main_at s = M_Joining \<longrightarrow> worker_joinable (srv s) \<and> stopping (srv s)) \<and>
     (main_at s = M_Idle \<longrightarrow> worker_joinable (srv s) \<longrightarrow> \<not> stopping (srv s)) \<and>
     (main_at s = M_Joining \<longrightarrow> abort_posted s \<or>
        \<not> acceptor_open (srv s) \<and> (active_socket (srv s) \<noteq> None \<longrightarrow> socket_closed (srv s))) \<and>
     (handling (run_at s) \<or> run_at s = R_Accept \<longrightarrow> active_socket (srv s) \<noteq> None) \<and>
     (active_socket (srv s) \<noteq> None \<longrightarrow>
        (run_at s \<in> {R_Accept, R_Close, R_Exit} \<or> handling (run_at s)) \<and> active_socket (srv s) = Some (sockets s - 1))"

lemma Start_True:
  assumes "Start sha256 env listen p s = (True, v)"
  shows "\<not> running s \<and> \<not> worker_joinable s \<and>
    (\<exists>digest. VerificationTokenDigestFromEnvironment sha256 env = Some digest \<and>
       v = s\<lparr>acceptor := True, acceptor_open := True, server_digest := digest, stopping := False, running := True,
         accepting := True, worker_joinable := True\<rparr>)"
  using assms by (auto simp: Start_def SetPlayerbotVerificationAcceptingRequests_def split: if_splits option.splits)

lemma Start_False:
  assumes "Start sha256 env listen p s = (False, v)"
  shows "v = s \<or> \<not> worker_joinable s \<and> v = s\<lparr>acceptor := False, acceptor_open := False\<rparr>"
  using assms by (auto simp: Start_def split: if_splits option.splits)

text \<open>Inside a connection the worker changes nothing of the server.\<close>

lemma server_inv_frame:
  assumes "server_inv s" and "handling (run_at s)" and "handling (run_at s')"
    and "srv s' = srv s" "main_at s' = main_at s" "abort_posted s' = abort_posted s" "sockets s' = sockets s"
  shows "server_inv s'"
proof -
  have "run_at s \<noteq> R_None" "run_at s' \<noteq> R_None" "serving (run_at s) \<longleftrightarrow> serving (run_at s')"
    using assms(2,3) by auto
  then show ?thesis using assms unfolding server_inv_def by auto
qed

lemma server_inv_step:
  assumes "sstep sha256 env s e s'" and "server_inv s"
  shows "server_inv s'"
  using assms(1)
proof cases
  case (start_refused listen p v)
  from Start_False [OF this(4)] show ?thesis
  proof
    assume "v = srv s"
    with start_refused assms(2) show ?thesis by simp
  next
    assume "\<not> worker_joinable (srv s) \<and> v = (srv s)\<lparr>acceptor := False, acceptor_open := False\<rparr>"
    with start_refused assms(2) show ?thesis by (simp add: server_inv_def)
  qed
next
  case (start_done listen p v)
  from Start_True [OF this(4)] obtain digest where v: "v = (srv s)\<lparr>acceptor := True, acceptor_open := True, server_digest := digest,
      stopping := False, running := True, accepting := True, worker_joinable := True\<rparr>" "\<not> worker_joinable (srv s)"
    by blast
  then have "active_socket (srv s) = None" using assms(2) by (simp add: server_inv_def)
  with v start_done(1-3) show ?thesis by (simp add: server_inv_def)
next
  case stop_idle
  with assms(2) show ?thesis
    by (auto simp: server_inv_def Stop_def Stop_finish_def Stop_signal_def SetPlayerbotVerificationAcceptingRequests_def)
next
  case stop_signal
  with assms(2) show ?thesis
    by (auto simp: server_inv_def Stop_signal_def SetPlayerbotVerificationAcceptingRequests_def)
next
  case stop_join
  with assms(2) show ?thesis by (auto simp: server_inv_def Stop_finish_def)
next
  case abort
  with assms(2) show ?thesis by (auto simp: server_inv_def)
next
  case head_exit
  with assms(2) show ?thesis by (auto simp: server_inv_def)
next
  case head_accept
  with assms(2) show ?thesis by (auto simp: server_inv_def)
next
  case accepted
  with assms(2) show ?thesis by (auto simp: server_inv_def)
next
  case accepted_stopping
  with assms(2) show ?thesis by (auto simp: server_inv_def)
next
  case accept_aborted
  with assms(2) show ?thesis by (auto simp: server_inv_def)
next
  case accept_failed
  with assms(2) show ?thesis by (auto simp: server_inv_def)
next
  case handled
  with assms(2) show ?thesis by (auto simp: server_inv_def)
next
  case closed
  with assms(2) show ?thesis by (auto simp: server_inv_def)
next
  case header_done
  show ?thesis by (rule server_inv_frame [OF assms(2)]) (use header_done after_handling in simp_all)
next
  case payload_done
  show ?thesis by (rule server_inv_frame [OF assms(2)]) (use payload_done after_handling in simp_all)
next
  case returned
  show ?thesis by (rule server_inv_frame [OF assms(2)]) (use returned after_handling in simp_all)
qed (auto intro: server_inv_frame [OF assms(2)])

lemma server_invariant: "sreach sha256 env tr s \<Longrightarrow> server_inv s"
proof (induction rule: sreach.induct)
  case sinit
  show ?case by (simp add: server_inv_def new_server_def)
next
  case (smove tr s e s')
  from smove.hyps(2) smove.IH show ?case by (rule server_inv_step)
qed

text \<open>
  C16: the server's state is consistent in every interleaving of start, stop and the worker: it claims to
  run exactly while the worker loops, requests are accepted only while a worker exists and no stop is
  under way, and once there is no worker the listener and the sockets are gone and the token digest is
  wiped.
\<close>

theorem server_state_consistent:
  assumes "sreach sha256 env tr s"
  shows "(IsRunning (srv s) \<longleftrightarrow> serving (run_at s)) \<and>
    (IsPlayerbotVerificationAcceptingRequests (srv s) \<longrightarrow> worker_joinable (srv s) \<and> \<not> stopping (srv s)) \<and>
    (\<not> worker_joinable (srv s) \<longrightarrow> server_digest (srv s) = zero_digest \<and> \<not> acceptor (srv s) \<and> active_socket (srv s) = None)"
  using server_invariant [OF assms]
  unfolding server_inv_def IsRunning_def IsPlayerbotVerificationAcceptingRequests_def by blast

section \<open>Stopping\<close>

text \<open>
  The steps the worker has left once the stop flag is set, with the posted abort. Each wait ends after at
  most two handlers of the event loop.
\<close>

primrec run_rank :: "run_pc \<Rightarrow> nat" where
  "run_rank R_None = 0"
| "run_rank R_Exit = 0"
| "run_rank R_Head = 1"
| "run_rank R_Accept = 1"
| "run_rank R_Close = 2"
| "run_rank R_Done = 3"
| "run_rank (R_Write es) = 4 + io_left es"
| "run_rank (R_Handler body req) = 7"
| "run_rank (R_Parse body) = 8"
| "run_rank (R_Payload len es) = 9 + io_left es"
| "run_rank (R_Header es) = 12 + io_left es"

definition stop_rank :: "server_sys \<Rightarrow> nat" where
  "stop_rank s = run_rank (run_at s) + (if abort_posted s then 1 else 0)"

lemma stop_rank_bound: "stop_rank s \<le> 15"
proof -
  have "run_rank (run_at s) \<le> 14"
  proof (cases "run_at s")
    case (R_Header es)
    with io_left_bound [of es] show ?thesis by simp
  next
    case (R_Payload len es)
    with io_left_bound [of es] show ?thesis by simp
  next
    case (R_Write es)
    with io_left_bound [of es] show ?thesis by simp
  qed simp_all
  then show ?thesis by (simp add: stop_rank_def)
qed

lemma io_left_Nil [simp]: "io_left [] = 2"
  by (simp add: io_left_def)

lemma joining_step:
  assumes "sstep sha256 env s e s'" and "main_at s = M_Joining" and "server_inv s"
  shows "(e = V_Join \<and> main_at s' = M_Idle) \<or> (main_at s' = M_Joining \<and> stop_rank s' < stop_rank s)"
  using assms(1)
proof cases
  case head_accept
  with assms(2,3) show ?thesis by (simp add: server_inv_def)
next
  case accepted
  with assms(2,3) show ?thesis by (simp add: server_inv_def)
qed (use assms(2) in \<open>auto simp: stop_rank_def dest!: after_pcs io_step_left\<close>)

text \<open>
  The steps that wait for nothing outside: not for a client to connect, to send or to receive, not for a
  deadline to pass, and not for the listener to fail by itself.
\<close>

fun unaided :: "server_event \<Rightarrow> bool" where
  "unaided (V_Io k) \<longleftrightarrow> k = IO_Aborted \<or> k = IO_Cancelled"
| "unaided V_Accepted \<longleftrightarrow> False"
| "unaided V_AcceptFailed \<longleftrightarrow> False"
| "unaided (V_Start b) \<longleftrightarrow> False"
| "unaided V_Signal \<longleftrightarrow> False"
| "unaided e \<longleftrightarrow> True"

text \<open>A wait for the client ends by itself once its socket was closed.\<close>

lemma closed_io_enabled:
  assumes "socket_closed (srv s)" and "io_left es \<noteq> 0"
    and "\<And>k es'. io_step (socket_closed (srv s)) es k es' \<Longrightarrow> \<exists>s'. sstep sha256 env s (V_Io k) s'"
  shows "\<exists>e s'. unaided e \<and> sstep sha256 env s e s'"
  using io_step_closed [OF assms(2)] assms(1,3) by (metis unaided.simps(1))

lemma joining_enabled:
  assumes "main_at s = M_Joining" and "server_inv s"
  shows "\<exists>e s'. unaided e \<and> sstep sha256 env s e s'"
proof -
  have st: "stopping (srv s)" "run_at s \<noteq> R_None"
    "abort_posted s \<or> \<not> acceptor_open (srv s) \<and> (active_socket (srv s) \<noteq> None \<longrightarrow> socket_closed (srv s))"
    using assms unfolding server_inv_def by blast+
  have step: "sstep sha256 env s e s' \<Longrightarrow> unaided e \<Longrightarrow> ?thesis" for e s' by blast
  show ?thesis
  proof (cases "in_loop (run_at s) \<and> abort_posted s")
    case True
    then show ?thesis by (intro step [OF abort]) auto
  next
    case False
    have shut: "socket_closed (srv s)" if "handling (run_at s)" "in_loop (run_at s)"
      using that False st(3) assms(2) unfolding server_inv_def by blast
    show ?thesis
    proof (cases "run_at s")
      case R_Head
      with st(1) show ?thesis by (intro step [OF head_exit]) auto
    next
      case R_Accept
      with False st(3) show ?thesis by (intro step [OF accept_aborted]) auto
    next
      case (R_Header es)
      show ?thesis
      proof (cases "io_left es = 0")
        case True
        obtain pc acts where "after_header (stopping (srv s)) \<lparr>read_events = es, read_bytes = []\<rparr> = (pc, acts)" by fastforce
        from step [OF header_done [OF R_Header True this]] show ?thesis by simp
      next
        case False
        show ?thesis
        proof (rule closed_io_enabled [OF shut False])
          show "\<And>k es'. io_step (socket_closed (srv s)) es k es' \<Longrightarrow> \<exists>s'. sstep sha256 env s (V_Io k) s'"
            using header_io [OF R_Header] by blast
        qed (simp_all add: R_Header)
      qed
    next
      case (R_Payload len es)
      show ?thesis
      proof (cases "io_left es = 0")
        case True
        obtain pc acts where "after_payload (stopping (srv s)) len \<lparr>read_events = es, read_bytes = []\<rparr> = (pc, acts)" by fastforce
        from step [OF payload_done [OF R_Payload True this]] show ?thesis by simp
      next
        case False
        show ?thesis
        proof (rule closed_io_enabled [OF shut False])
          show "\<And>k es'. io_step (socket_closed (srv s)) es k es' \<Longrightarrow> \<exists>s'. sstep sha256 env s (V_Io k) s'"
            using payload_io [OF R_Payload] by blast
        qed (simp_all add: R_Payload)
      qed
    next
      case (R_Parse body)
      obtain pc acts where p: "after_parse sha256 (server_digest (srv s)) (stopping (srv s)) 0 body = (pc, acts)" by fastforce
      with after_parse_pc [OF p] st(1) step [OF refused [OF R_Parse p]] show ?thesis by auto
    next
      case (R_Handler body req)
      obtain pc acts where "after_handler (Inl OtherException) body 0 req = (pc, acts)" by fastforce
      from step [OF returned [OF R_Handler this]] show ?thesis by simp
    next
      case (R_Write es)
      show ?thesis
      proof (cases "io_left es = 0")
        case True
        from step [OF write_done [OF R_Write True]] show ?thesis by simp
      next
        case False
        show ?thesis
        proof (rule closed_io_enabled [OF shut False])
          show "\<And>k es'. io_step (socket_closed (srv s)) es k es' \<Longrightarrow> \<exists>s'. sstep sha256 env s (V_Io k) s'"
            using write_io [OF R_Write] by blast
        qed (simp_all add: R_Write)
      qed
    next
      case R_Done
      from step [OF handled [OF this]] show ?thesis by simp
    next
      case R_Close
      from step [OF closed [OF this]] show ?thesis by simp
    next
      case R_Exit
      from step [OF stop_join [OF assms(1) this]] show ?thesis by simp
    qed (use st in simp)
  qed
qed

text \<open>Nothing new begins: no connection is taken on, and no request is handed over.\<close>

lemma joining_starts_nothing:
  assumes "sstep sha256 env s e s'" and "main_at s = M_Joining" and "server_inv s"
  shows "(handling (run_at s') \<longrightarrow> handling (run_at s)) \<and> e \<noteq> V_Call c req"
  using assms(1)
proof cases
  case accepted
  with assms(2,3) show ?thesis by (simp add: server_inv_def)
next
  case (calls body now req acts c)
  with assms(2,3) show ?thesis by (auto simp: server_inv_def dest!: after_parse_pc)
qed (use assms(2) in auto)


section \<open>What a connection has done\<close>

text \<open>
  The steps through a connection implement \<open>HandleConnection\<close>: what it has met so far leads that function
  to where the worker stands, and at the end to the actions performed.
\<close>

definition expects :: "connection \<Rightarrow> uint32 \<Rightarrow> bool" where
  "expects c len \<longleftrightarrow>
     (\<exists>error header. ReadWithDeadline FRAME_HEADER_BYTES (header_read c) = (error, Some header) \<and>
        len = header_length (header ! 0) (header ! 1) (header ! 2) (header ! 3) \<and>
        unat len \<le> MAX_FRAME_PAYLOAD_BYTES \<and> len \<noteq> 0)"

fun on_the_way :: "(string \<Rightarrow> TokenDigest) \<Rightarrow> TokenDigest \<Rightarrow> connection \<Rightarrow> action list \<Rightarrow> run_pc \<Rightarrow> bool" where
  "on_the_way sha256 digest c acts (R_Payload len es) \<longleftrightarrow> expects c len"
| "on_the_way sha256 digest c acts (R_Parse body) \<longleftrightarrow> delivered c = Some body"
| "on_the_way sha256 digest c acts (R_Handler body req) \<longleftrightarrow> delivered c = Some body \<and> \<not> stopping_at_request c \<and>
     request (ParseRequestPayload sha256 body digest) = Some req"
| "on_the_way sha256 digest c acts (R_Write es) \<longleftrightarrow> (\<exists>handler. acts = HandleConnection sha256 digest handler c)"
| "on_the_way sha256 digest c acts R_Done \<longleftrightarrow> (\<exists>handler. acts = HandleConnection sha256 digest handler c)"
| "on_the_way sha256 digest c acts pc \<longleftrightarrow> True"

lemma on_the_way_respond:
  "respond acts' = (pc, acts) \<Longrightarrow> acts' = HandleConnection sha256 digest handler c \<Longrightarrow> on_the_way sha256 digest c acts pc"
  using respond_pc [of acts' pc acts] by auto

lemma on_the_way_header:
  assumes "after_header stop r = (pc, acts)" and "header_read c = r" and "stopping_at_header c = stop"
  shows "on_the_way sha256 digest c acts pc"
proof (cases "ReadWithDeadline FRAME_HEADER_BYTES r")
  case (Pair error bytes)
  show ?thesis
  proof (cases bytes)
    case None
    with assms Pair show ?thesis
      by (intro on_the_way_respond [of _ _ _ _ _ "\<lambda>req. Inl OtherException"])
        (auto simp: after_header_def HandleConnection_def)
  next
    case (Some header)
    let ?len = "header_length (header ! 0) (header ! 1) (header ! 2) (header ! 3)"
    show ?thesis
    proof (cases "unat ?len > MAX_FRAME_PAYLOAD_BYTES")
      case True
      with assms Pair Some show ?thesis
        by (intro on_the_way_respond [of _ _ _ _ _ "\<lambda>req. Inl OtherException"])
          (auto simp: after_header_def HandleConnection_def Let_def)
    next
      case False
      with assms Pair Some show ?thesis
        by (cases "?len = 0") (auto simp: after_header_def delivered_def expects_def Let_def)
    qed
  qed
qed

lemma on_the_way_payload:
  assumes "after_payload stop len r = (pc, acts)" and "expects c len" and "payload_read c = r" and "stopping_at_payload c = stop"
  shows "on_the_way sha256 digest c acts pc"
proof -
  from assms(2) obtain error header where h: "ReadWithDeadline FRAME_HEADER_BYTES (header_read c) = (error, Some header)"
    "len = header_length (header ! 0) (header ! 1) (header ! 2) (header ! 3)"
    "\<not> unat len > MAX_FRAME_PAYLOAD_BYTES" "len \<noteq> 0" by (auto simp: expects_def)
  obtain error' bytes where r: "ReadWithDeadline (unat len) r = (error', bytes)" by fastforce
  show ?thesis
  proof (cases bytes)
    case None
    with assms h r show ?thesis
      by (intro on_the_way_respond [of _ _ _ _ _ "\<lambda>req. Inl OtherException"])
        (auto simp: after_payload_def HandleConnection_def Let_def)
  next
    case (Some bs)
    with assms h r show ?thesis by (auto simp: after_payload_def delivered_def Let_def)
  qed
qed

lemma on_the_way_parse:
  assumes "after_parse sha256 digest stop now body = (pc, acts)" and "delivered c = Some body"
    and "stopping_at_request c = stop" and "pc \<in> {R_Done, R_Write []} \<Longrightarrow> CurrentTimestampMs c = now"
  shows "on_the_way sha256 digest c acts pc"
proof (cases "request (ParseRequestPayload sha256 body digest)")
  case None
  with assms show ?thesis
    by (intro on_the_way_respond [of _ _ _ _ _ "\<lambda>req. Inl OtherException"])
      (auto simp: after_parse_def Let_def delivered_handles [OF assms(2)] handle_payload_def dest: respond_pc)
next
  case (Some req)
  show ?thesis
  proof (cases stop)
    case True
    with Some assms show ?thesis
      by (intro on_the_way_respond [of _ _ _ _ _ "\<lambda>req. Inl OtherException"])
        (auto simp: after_parse_def Let_def delivered_handles [OF assms(2)] handle_payload_def dest: respond_pc)
  next
    case False
    with Some assms show ?thesis by (auto simp: after_parse_def Let_def)
  qed
qed

lemma on_the_way_handler:
  assumes "after_handler result body now req = (pc, acts)" and "on_the_way sha256 digest c before (R_Handler body req)"
    and "CurrentTimestampMs c = now"
  shows "on_the_way sha256 digest c acts pc"
  using assms
  by (intro on_the_way_respond [of _ _ _ _ _ "\<lambda>_. result"])
    (auto simp: after_handler_def delivered_handles handle_payload_def)

lemma connection_fields [simp]:
  "delivered (c\<lparr>stopping_at_request := b\<rparr>) = delivered c"
  "delivered (c\<lparr>CurrentTimestampMs := now\<rparr>) = delivered c"
  "expects (c\<lparr>payload_read := r, stopping_at_payload := b\<rparr>) len = expects c len"
  by (simp_all add: delivered_def expects_def Let_def split: option.split)

definition way_inv :: "(string \<Rightarrow> TokenDigest) \<Rightarrow> server_sys \<Rightarrow> bool" where
  "way_inv sha256 s \<longleftrightarrow> on_the_way sha256 (server_digest (srv s)) (conn s) (performed s) (run_at s)"

lemma way_inv_step:
  assumes "sstep sha256 env s e s'" and way: "way_inv sha256 s" and inv: "server_inv s"
  shows "way_inv sha256 s'"
  using assms(1)
proof cases
  case (start_refused listen p v)
  from Start_False [OF this(4)] start_refused(2) way show ?thesis by (auto simp: way_inv_def)
next
  case stop_idle
  with inv have "run_at s = R_None" by (simp add: server_inv_def)
  with stop_idle show ?thesis by (simp add: way_inv_def)
next
  case header_done
  then show ?thesis unfolding way_inv_def by (intro on_the_way_header) simp_all
next
  case payload_done
  from on_the_way_payload [OF payload_done(5), of "conn s'"] way payload_done(2,3) show ?thesis by (simp add: way_inv_def)
next
  case refused
  from on_the_way_parse [OF refused(4), of "conn s'"] way refused(2,3) show ?thesis by (simp add: way_inv_def)
next
  case (calls body now req acts c)
  from on_the_way_parse [OF calls(4), of "conn s'"] way calls(2,3,5) show ?thesis by (simp add: way_inv_def)
next
  case returned
  from on_the_way_handler [OF returned(4), of sha256 "server_digest (srv s)" "conn s'"] way returned(2,3)
  show ?thesis by (simp add: way_inv_def)
qed (use way in \<open>auto simp: way_inv_def Stop_signal_def SetPlayerbotVerificationAcceptingRequests_def\<close>)

lemma way_invariant: "sreach sha256 env tr s \<Longrightarrow> way_inv sha256 s"
proof (induction rule: sreach.induct)
  case sinit
  show ?case by (simp add: way_inv_def)
next
  case (smove tr s e s')
  from way_inv_step [OF smove.hyps(2) smove.IH server_invariant [OF smove.hyps(1)]] show ?case .
qed

section \<open>Who may be served\<close>

text \<open>While there is a worker, the server holds the digest of a token of the environment.\<close>

lemma digest_invariant:
  "sreach sha256 env tr s \<Longrightarrow> worker_joinable (srv s) \<Longrightarrow>
   VerificationTokenDigestFromEnvironment sha256 env = Some (server_digest (srv s))"
proof (induction rule: sreach.induct)
  case sinit
  then show ?case by (simp add: new_server_def)
next
  case (smove tr s e s')
  from smove.hyps(2) show ?case
  proof cases
    case (start_refused listen p v)
    from Start_False [OF this(4)] start_refused(2) smove.IH smove.prems show ?thesis by auto
  next
    case (start_done listen p v)
    from Start_True [OF this(4)] start_done(2) show ?thesis by auto
  next
    case stop_signal
    with smove.IH smove.prems show ?thesis
      by (simp add: Stop_signal_def SetPlayerbotVerificationAcceptingRequests_def)
  qed (use smove.IH smove.prems in \<open>auto simp: Stop_def Stop_finish_def Stop_signal_def
      SetPlayerbotVerificationAcceptingRequests_def\<close>)
qed

lemma handled_under_digest:
  "sreach sha256 env tr s \<Longrightarrow> V_Handled c acts \<in> set tr \<Longrightarrow>
   \<exists>digest handler. VerificationTokenDigestFromEnvironment sha256 env = Some digest \<and>
     acts = HandleConnection sha256 digest handler c"
proof (induction rule: sreach.induct)
  case (smove tr s e s')
  show ?case
  proof (cases "e = V_Handled c acts")
    case True
    with smove.hyps(2) have run: "run_at s = R_Done" and at: "c = conn s" "acts = performed s"
      by (auto elim: sstep_handledE)
    obtain handler where "acts = HandleConnection sha256 (server_digest (srv s)) handler c"
      using way_invariant [OF smove.hyps(1)] run at by (auto simp: way_inv_def)
    moreover have "worker_joinable (srv s)" using server_invariant [OF smove.hyps(1)] run by (simp add: server_inv_def)
    ultimately show ?thesis using digest_invariant [OF smove.hyps(1)] by blast
  next
    case False
    with smove.IH smove.prems show ?thesis by simp
  qed
qed simp

lemma called_under_digest:
  "sreach sha256 env tr s \<Longrightarrow> V_Call c req \<in> set tr \<Longrightarrow>
   \<exists>digest body. VerificationTokenDigestFromEnvironment sha256 env = Some digest \<and> delivered c = Some body \<and>
     request (ParseRequestPayload sha256 body digest) = Some req \<and> \<not> stopping_at_request c"
proof (induction rule: sreach.induct)
  case (smove tr s e s')
  show ?case
  proof (cases "e = V_Call c req")
    case True
    with smove.hyps(2) obtain body where run: "run_at s = R_Parse body" "run_at s' = R_Handler body req"
      and at: "conn s' = c" "server_digest (srv s') = server_digest (srv s)"
      by (auto elim!: sstep_callE)
    have "way_inv sha256 s'" by (rule way_invariant [OF sreach.smove [OF smove.hyps]])
    moreover have "worker_joinable (srv s)" using server_invariant [OF smove.hyps(1)] run by (simp add: server_inv_def)
    ultimately show ?thesis using digest_invariant [OF smove.hyps(1)] run at by (auto simp: way_inv_def)
  next
    case False
    with smove.IH smove.prems show ?thesis by simp
  qed
qed simp

text \<open>A run to the point where a connection has been accepted, and on to where a stop has been signalled.\<close>

lemma sample_handling:
  "\<exists>tr s. sreach sha256 (\<lambda>name. Some (replicate 32 (CHR ''k''))) tr s \<and> main_at s = M_Idle \<and> run_at s = R_Header [] \<and>
     worker_joinable (srv s)"
proof -
  let ?env = "\<lambda>name. Some (replicate 32 (CHR ''k''))"
  let ?s0 = server_start
  obtain v where v: "Start sha256 ?env (\<lambda>e. True) 1 new_server = (True, v)" "acceptor_open v" "worker_joinable v" "\<not> stopping v"
    by (simp add: Start_def VerificationTokenDigestFromEnvironment_def MIN_TOKEN_BYTES_def new_server_def
        SetPlayerbotVerificationAcceptingRequests_def)
  let ?s1 = "?s0\<lparr>srv := v, run_at := R_Head\<rparr>"
  let ?s2 = "?s1\<lparr>srv := v\<lparr>active_socket := Some 0, socket_closed := False\<rparr>, sockets := 1, run_at := R_Accept\<rparr>"
  let ?s3 = "?s2\<lparr>run_at := R_Header [], performed := []\<rparr>"
  have r0: "sreach sha256 ?env [] ?s0" by (rule sinit)
  have "sstep sha256 ?env ?s0 (V_Start True) ?s1"
    by (rule start_done [where listen = "\<lambda>e. True" and p = 1]) (simp_all add: v)
  from smove [OF r0 this] have r1: "sreach sha256 ?env [V_Start True] ?s1" by simp
  have "sstep sha256 ?env ?s1 V_Head ?s2" using head_accept [of ?s1 sha256 ?env] v by simp
  from smove [OF r1 this] have r2: "sreach sha256 ?env [V_Start True, V_Head] ?s2" by simp
  have "sstep sha256 ?env ?s2 V_Accepted ?s3" using accepted [of ?s2 "[None]" sha256 ?env] v by simp
  from smove [OF r2 this] have r3: "sreach sha256 ?env [V_Start True, V_Head, V_Accepted] ?s3" by simp
  with v show ?thesis by (intro exI [of _ "[V_Start True, V_Head, V_Accepted]"] exI [of _ ?s3]) simp
qed

lemma sample_server_run:
  "\<exists>tr s. sreach sha256 (\<lambda>name. Some (replicate 32 (CHR ''k''))) tr s \<and> main_at s = M_Joining \<and> run_at s = R_Header []"
proof -
  obtain tr s where r: "sreach sha256 (\<lambda>name. Some (replicate 32 (CHR ''k''))) tr s" "main_at s = M_Idle"
    "run_at s = R_Header []" "worker_joinable (srv s)" using sample_handling by blast
  from smove [OF r(1) stop_signal [OF r(2,4)]] r(3) show ?thesis by fastforce
qed


theorem server_state_consistent_witness:
  "\<exists>s :: server_sys. main_at s = M_Joining \<and> run_at s = R_Header [] \<and> IsRunning (srv s) \<and> \<not> IsPlayerbotVerificationAcceptingRequests (srv s)"
proof -
  obtain tr s where r: "sreach (\<lambda>token. zero_digest) (\<lambda>name. Some (replicate 32 (CHR ''k''))) tr s" "main_at s = M_Joining" "run_at s = R_Header []"
    using sample_server_run by blast
  have "stopping (srv s)" using server_invariant [OF r(1)] r(2) by (simp add: server_inv_def)
  with server_state_consistent [OF r(1)] r(2,3) show ?thesis by (intro exI [of _ s]) auto
qed

text \<open>The run of one connection whose client sends a frame and takes the answer in time.\<close>

lemma header_wait_run:
  assumes "sreach sha256 env tr s" and "run_at s = R_Header []"
  shows "\<exists>tr'. sreach sha256 env tr' (s\<lparr>run_at := R_Header [Completion None, Timer True]\<rparr>)"
proof -
  have "sreach sha256 env (tr @ [V_Io IO_Peer]) (s\<lparr>run_at := R_Header [Completion None]\<rparr>)"
    using smove [OF assms(1) header_io [OF assms(2) io_peer [of "[]" _ None]]] by simp
  from smove [OF this header_io [of _ "[Completion None]", OF _ io_cancelled]] show ?thesis
    by (auto simp: io_ended_def timer_ended_def)
qed

lemma payload_wait_run:
  assumes "sreach sha256 env tr s" and "run_at s = R_Payload len []"
  shows "\<exists>tr'. sreach sha256 env tr' (s\<lparr>run_at := R_Payload len [Completion None, Timer True]\<rparr>)"
proof -
  have "sreach sha256 env (tr @ [V_Io IO_Peer]) (s\<lparr>run_at := R_Payload len [Completion None]\<rparr>)"
    using smove [OF assms(1) payload_io [OF assms(2) io_peer [of "[]" _ None]]] by simp
  from smove [OF this payload_io [of _ len "[Completion None]", OF _ io_cancelled]] show ?thesis
    by (auto simp: io_ended_def timer_ended_def)
qed

text \<open>Whatever the answer, it is written, or there is none to write, and the connection is done.\<close>

lemma answer_run:
  assumes "sreach sha256 env tr s" and "run_at s = R_Done \<or> run_at s = R_Write []"
  shows "\<exists>tr' s'. sreach sha256 env (tr @ tr') s' \<and> V_Handled (conn s) (performed s) \<in> set tr'"
proof -
  have finish: "\<exists>tr' s'. sreach sha256 env (tr1 @ tr') s' \<and> V_Handled (conn s1) (performed s1) \<in> set tr'"
    if "sreach sha256 env tr1 s1" "run_at s1 = R_Done" for tr1 s1
    using smove [OF that(1) handled [OF that(2)]] by (intro exI conjI) (assumption, simp)
  from assms(2) show ?thesis
  proof
    assume "run_at s = R_Write []"
    then have "sreach sha256 env (tr @ [V_Io IO_Peer]) (s\<lparr>run_at := R_Write [Completion None]\<rparr>)"
      using smove [OF assms(1) write_io [OF _ io_peer [of "[]" _ None]]] by simp
    from smove [OF this write_io [of _ "[Completion None]", OF _ io_cancelled]]
    have "sreach sha256 env (tr @ [V_Io IO_Peer, V_Io IO_Cancelled]) (s\<lparr>run_at := R_Write [Completion None, Timer True]\<rparr>)"
      by (simp add: io_ended_def timer_ended_def)
    from smove [OF this write_done [of _ "[Completion None, Timer True]"]]
    have "sreach sha256 env (tr @ [V_Io IO_Peer, V_Io IO_Cancelled, V_Written]) (s\<lparr>run_at := R_Done\<rparr>)"
      by (simp add: io_left_def io_ended_def timer_ended_def)
    from finish [OF this] obtain tr' s' where "sreach sha256 env ((tr @ [V_Io IO_Peer, V_Io IO_Cancelled, V_Written]) @ tr') s'"
      "V_Handled (conn s) (performed s) \<in> set tr'" by auto
    then show ?thesis by (intro exI [of _ "[V_Io IO_Peer, V_Io IO_Cancelled, V_Written] @ tr'"] exI [of _ s']) simp
  qed (use finish [OF assms(1)] in blast)
qed

lemma connection_run:
  assumes "sreach sha256 env tr s" and "run_at s = R_Header []" and "\<not> stopping (srv s)"
    and "EncodeFrame p = Some frame" and "p \<noteq> []"
    and "request (ParseRequestPayload sha256 p (server_digest (srv s))) = Some req"
  shows "\<exists>tr' s' c c' acts. sreach sha256 env tr' s' \<and> V_Call c req \<in> set tr' \<and> V_Handled c' acts \<in> set tr' \<and> Handle req \<in> set acts"
proof -
  have len: "length p \<le> MAX_FRAME_PAYLOAD_BYTES" and frame: "frame = length_header (of_nat (length p)) @ map byte_of_char p"
    using assms(4) by (auto simp: EncodeFrame_def split: if_splits)
  have unat: "unat (of_nat (length p) :: uint32) = length p" using len by (rule unat_of_nat_payload)
  then have nonzero: "of_nat (length p) \<noteq> (0 :: uint32)" using assms(5) by auto
  let ?good = "[Completion None, Timer True]"
  let ?h = "\<lparr>read_events = ?good, read_bytes = take FRAME_HEADER_BYTES frame\<rparr>"
  let ?p = "\<lparr>read_events = ?good, read_bytes = drop FRAME_HEADER_BYTES frame\<rparr>"
  have h: "after_header False ?h = (R_Payload (of_nat (length p)) [], [])"
    using len nonzero
    by (simp add: after_header_def frame FRAME_HEADER_BYTES_def ReadWithDeadline_def CompleteWithDeadline_def run_event_def
        Let_def header_of_length_header [unfolded One_nat_def] unat)
  have q: "after_payload False (of_nat (length p)) ?p = (R_Parse p, [])"
    by (simp add: after_payload_def frame FRAME_HEADER_BYTES_def ReadWithDeadline_def CompleteWithDeadline_def run_event_def
        Let_def unat comp_def)
  have io: "io_left ?good = 0" by (simp add: io_left_def io_ended_def timer_ended_def)
  obtain tr1 where "sreach sha256 env tr1 (s\<lparr>run_at := R_Header ?good\<rparr>)" using header_wait_run [OF assms(1,2)] by blast
  from smove [OF this header_done [OF _ io]] h assms(3)
  obtain tr2 s2 where r2: "sreach sha256 env tr2 s2" "run_at s2 = R_Payload (of_nat (length p)) []" "srv s2 = srv s"
    by fastforce
  obtain tr3 where "sreach sha256 env tr3 (s2\<lparr>run_at := R_Payload (of_nat (length p)) ?good\<rparr>)"
    using payload_wait_run [OF r2(1,2)] by blast
  from smove [OF this payload_done [OF _ io]] q assms(3) r2(3)
  obtain tr4 s4 where r4: "sreach sha256 env tr4 s4" "run_at s4 = R_Parse p" "srv s4 = srv s"
    by fastforce
  have "after_parse sha256 (server_digest (srv s4)) (stopping (srv s4)) 0 p = (R_Handler p req, [])"
    using assms(3,6) r4(3) by (simp add: after_parse_def)
  from smove [OF r4(1) calls [OF r4(2) this refl]]
  obtain c s5 where r5: "sreach sha256 env (tr4 @ [V_Call c req]) s5" "run_at s5 = R_Handler p req" by fastforce
  obtain pc acts where a: "after_handler (Inl OtherException) p 0 req = (pc, acts)" by fastforce
  from smove [OF r5(1) returned [OF r5(2) a]]
  obtain s6 where r6: "sreach sha256 env (tr4 @ [V_Call c req, V_Returned]) s6" "run_at s6 = pc" "performed s6 = acts" by fastforce
  from answer_run [OF r6(1)] r6(2) after_handler_pc [OF a]
  obtain tr7 s7 where "sreach sha256 env ((tr4 @ [V_Call c req, V_Returned]) @ tr7) s7" "V_Handled (conn s6) acts \<in> set tr7"
    using r6(3) by blast
  moreover have "Handle req \<in> set acts" using a by (auto simp: after_handler_def respond_def answer_request_def Let_def)
  ultimately show ?thesis
    by (intro exI [of _ "(tr4 @ [V_Call c req, V_Returned]) @ tr7"] exI [of _ s7] exI [of _ c] exI [of _ "conn s6"] exI [of _ acts]) simp
qed

text \<open>
  C3: only holders of the token are served. In every run of the process, with any number of starts and
  stops, any connections and any request handler: a connection hands a request to the handler, or has
  done so when it is over, only when the payload it delivered is a flat object that carries a token
  whose digest is that of the token in the environment, which has at least 32 bytes, and denotes that
  request as a valid typed one.
\<close>

theorem only_token_holders:
  assumes "sreach sha256 env tr s"
    and "V_Call c req \<in> set tr \<or> V_Handled c acts \<in> set tr \<and> Handle req \<in> set acts"
  shows "\<exists>secret body fs rid token t. env ''PLAYERBOT_VERIFICATION_TOKEN'' = Some secret \<and> 32 \<le> length secret \<and>
    delivered c = Some body \<and> \<not> stopping_at_request c \<and> flat_object fs body \<and> distinct (map fst fs) \<and> map_of fs = map_of (wire_fields (wire rid token t)) \<and>
    ConstantTimeTokenDigestEquals (sha256 token) (sha256 secret) \<and> valid_request t \<and> req = concretize rid t"
proof -
  obtain digest body where d: "VerificationTokenDigestFromEnvironment sha256 env = Some digest"
    "delivered c = Some body" "request (ParseRequestPayload sha256 body digest) = Some req" "\<not> stopping_at_request c"
    using assms(2) called_under_digest [OF assms(1)] handled_under_digest [OF assms(1)] handled_iff by metis
  from d(1) obtain secret where "env ''PLAYERBOT_VERIFICATION_TOKEN'' = Some secret" "32 \<le> length secret"
    "digest = sha256 secret"
    by (auto simp: VerificationTokenDigestFromEnvironment_def DigestVerificationToken_def MIN_TOKEN_BYTES_def
        split: option.splits if_splits)
  with d(2-4) show ?thesis unfolding accepted_payload_iff by blast
qed

theorem only_token_holders_witness:
  "\<exists>tr s c c' acts. sreach sample_digest (\<lambda>name. Some (replicate 32 (CHR ''k''))) tr s \<and> V_Call c (concretize 7 TStatus) \<in> set tr \<and>
     V_Handled c' acts \<in> set tr \<and> Handle (concretize 7 TStatus) \<in> set acts \<and> \<not> stopping_at_request c \<and> \<not> stopping_at_request c'"
proof -
  let ?secret = "replicate 32 (CHR ''k'')"
  obtain tr s where r: "sreach sample_digest (\<lambda>name. Some ?secret) tr s" "main_at s = M_Idle"
    "run_at s = R_Header []" "worker_joinable (srv s)" using sample_handling by blast
  have digest: "server_digest (srv s) = sample_digest ?secret"
    using digest_invariant [OF r(1,4)]
    by (simp add: VerificationTokenDigestFromEnvironment_def DigestVerificationToken_def MIN_TOKEN_BYTES_def)
  have go: "\<not> stopping (srv s)" using server_invariant [OF r(1)] r(2,4) by (simp add: server_inv_def)
  obtain frame where f: "EncodeFrame (render_object (wire 7 ?secret TStatus)) = Some frame"
    using sample_frame [of TStatus ?secret] by auto
  have "ConstantTimeTokenDigestEquals (sample_digest ?secret) (server_digest (srv s))"
    unfolding digest by (subst digest_equals_iff) simp_all
  from rendered_request_accepted [of TStatus sample_digest ?secret _ 7, OF _ this]
  have p: "request (ParseRequestPayload sample_digest (render_object (wire 7 ?secret TStatus)) (server_digest (srv s))) =
      Some (concretize 7 TStatus)"
    by (simp add: accept_def)
  have "render_object (wire 7 ?secret TStatus) \<noteq> []" by (simp add: render_object_def)
  from connection_run [OF r(1,3) go f this p] obtain tr' s' c c' acts
    where run: "sreach sample_digest (\<lambda>name. Some ?secret) tr' s'" "V_Call c (concretize 7 TStatus) \<in> set tr'"
      "V_Handled c' acts \<in> set tr'" "Handle (concretize 7 TStatus) \<in> set acts" by blast
  from only_token_holders [OF run(1) disjI1, OF run(2)] only_token_holders [OF run(1) disjI2, OF conjI, OF run(3,4)] run
  show ?thesis by blast
qed

section \<open>The world script\<close>

record world_script =
  sPlayerbotMCPConfig :: PlayerbotMCPSettings
  script_server :: server

definition OnAfterConfigLoad :: "(string \<Rightarrow> string) \<Rightarrow> world_script \<Rightarrow> world_script" where
  "OnAfterConfigLoad GetOption s = s\<lparr>sPlayerbotMCPConfig := ReloadPlayerbotMCPConfig GetOption\<rparr>"

definition OnBeforeWorldInitialized ::
  "(string \<Rightarrow> TokenDigest) \<Rightarrow> (string \<Rightarrow> string option) \<Rightarrow> (uint32 \<times> uint16 \<Rightarrow> bool) \<Rightarrow> world_script \<Rightarrow> world_script" where
  "OnBeforeWorldInitialized sha256 env listen s =
     (if \<not> enable (sPlayerbotMCPConfig s) then s
      else if port (sPlayerbotMCPConfig s) = 0 then s
      else s\<lparr>script_server := snd (Start sha256 env listen (port (sPlayerbotMCPConfig s)) (script_server s))\<rparr>)"

definition OnShutdown :: "(server \<Rightarrow> server) \<Rightarrow> world_script \<Rightarrow> world_script" where
  "OnShutdown during s = s\<lparr>script_server := Stop during (script_server s)\<rparr>"

text \<open>
  C38: when a fresh process listens. After the configuration was loaded and the world is about to start,
  the bridge runs exactly when it is not disabled by a zero, the port option is a number from 1 to 65535,
  the environment holds a token of at least 32 bytes, and the listener could be opened on that port of
  the loopback address 127.0.0.1.
\<close>

theorem listener_conditions:
  "running (script_server (OnBeforeWorldInitialized sha256 env listen
     (OnAfterConfigLoad GetOption \<lparr>sPlayerbotMCPConfig = default_settings, script_server = new_server\<rparr>))) \<longleftrightarrow>
   option_number (GetOption ''PlayerbotsMCP.Enable'') \<noteq> Some 0 \<and>
   (\<exists>n token. option_number (GetOption ''PlayerbotsMCP.Port'') = Some n \<and> 0 < n \<and> n \<le> 65535 \<and>
      env ''PLAYERBOT_VERIFICATION_TOKEN'' = Some token \<and> 32 \<le> length token \<and>
      listen (0x7F000001, of_nat n))"
proof (cases "option_number (GetOption ''PlayerbotsMCP.Port'')")
  case None
  then show ?thesis
    by (simp add: OnBeforeWorldInitialized_def OnAfterConfigLoad_def settings_value new_server_def)
next
  case (Some n)
  then have "n < 2 ^ 32" by (auto simp: option_number_def split: if_splits)
  then have n: "unat (of_nat n :: uint32) = n" by (simp add: unsigned_of_nat take_bit_eq_mod)
  have small: "(0xFFFF :: uint32) < of_nat n \<longleftrightarrow> 65535 < n" "(of_nat n :: uint32) = 0 \<longleftrightarrow> n = 0"
    using n by (simp_all add: word_less_nat_alt word_unat_eq_iff)
  have cast: "(ucast (of_nat n :: uint32) :: uint16) = of_nat n"
    by (simp add: word_unat_eq_iff unsigned_ucast_eq unsigned_of_nat take_bit_eq_mod mod_mod_cancel)
  show ?thesis
    using Some small cast
    by (auto simp: OnBeforeWorldInitialized_def OnAfterConfigLoad_def settings_value new_server_def Start_def
        SetPlayerbotVerificationAcceptingRequests_def VerificationTokenDigestFromEnvironment_def MIN_TOKEN_BYTES_def
        MakePlayerbotVerificationEndpoint_def split: option.split if_splits)
qed

end
