(* ===== verification/Spec2Isabelle.thy ===== *)
theory Spec2Isabelle
  imports Request_Contract Pagination Response_Codec Recovery_Audit World_Thread Connection Server
begin

text \<open>
  Verification library of the Playerbots MCP verification bridge, the C++ module \<open>mod-playerbots-mcp\<close>
  of AzerothCore: a server on the loopback address that lets an authenticated client look at and act on
  the bots of a running world. All source files named below are under \<open>src/src/\<close>.

  \<^bold>\<open>How the program works.\<close> The world script (\<open>PlayerbotsMCPScripts.cpp\<close>) loads the settings
  (\<open>Bot/MCP/PlayerbotMCPConfig\<close>) and starts the server (\<open>Bot/MCP/PlayerbotVerificationServer\<close>). The
  server's worker thread accepts one connection at a time, reads one frame, parses its payload into a
  typed request (\<open>Bot/MCP/PlayerbotVerificationProtocol\<close>) and calls the request handler. The handler is
  the dispatcher (\<open>Bot/MCP/PlayerbotVerificationOperation\<close>): it queues an operation for the world thread
  and waits for its result under a deadline. The world thread claims the operation, runs the handler of
  its kind and publishes the response; the worker writes the audit line of a recovery and sends the
  response back in one frame.

  \<^bold>\<open>Theories, in the order of the code.\<close>
  \<^item> \<open>Prelude\<close>: integers as words, characters as bytes, decimal text, the computations \<open>'w comp\<close> that change a
    world or throw, with their laws.
  \<^item> \<open>Protocol_Types\<close>: every enumeration, structure and limit of the protocol header with the tables of
    messages and names. A float is its 32 bits.
  \<^item> \<open>FlatJson\<close>: the hand-written JSON parser \<open>FlatJsonParser\<close> and the string writer. \<open>Json_Grammar\<close> and
    \<open>Flat_Object\<close> state the language as inductive grammars and prove that the parser accepts exactly
    that language, by soundness and completeness lemmas per production.
  \<^item> \<open>Frame\<close>: the frame codec behind the interface \<open>frame_codec\<close>, the token digest and its comparison.
  \<^item> \<open>Request_Parser\<close>: \<open>ParseRequestPayload\<close> with one definition per operation. \<open>Request_Spec\<close> has the typed
    requests a client can mean, \<open>Check_Spec\<close> the wait conditions, and \<open>Request_Contract\<close> proves that the
    parser accepts exactly their writings.
  \<^item> \<open>Pagination\<close>: \<open>PaginateGuids\<close> and the walk over all pages behind the interface \<open>pager\<close>.
  \<^item> \<open>Json_Render\<close>, \<open>Response_Codec\<close>: the text of answers, their size and how they read back.
  \<^item> \<open>Float_Text\<close>, \<open>Recovery_Audit\<close>: the text of a float at nine digits, the audit record of a recovery
    and the record of a rejected one.
  \<^item> \<open>Result_State\<close>: the state a request shares between the two threads, behind the interface \<open>one_shot\<close>.
  \<^item> \<open>Dispatch\<close>: the dispatcher and the queued operation, as functions and as a step relation of the two
    threads. \<open>Dispatch_Safety\<close> has its invariants: at most one execution, where an answer comes from,
    that the dispatcher returns, and that the answer of a run is the one the sequential function gives for
    the calls the world thread made between the function's own accesses to the shared state.
  \<^item> \<open>Condition\<close>: \<open>EvaluateVerificationCondition\<close> against the meaning of the conditions.
  \<^item> \<open>World_Api\<close>: the calls into AzerothCore and the playerbots module as a record of functions, and the
    helpers of the handlers. \<open>Handlers_Read\<close>, \<open>Float_Arith\<close>, \<open>Handlers_Act\<close>, \<open>Act_Contract\<close> and \<open>Handlers_Recover\<close>
    have the fourteen handlers and what they promise; \<open>World_Thread\<close> puts them together.
  \<^item> \<open>Network_Io\<close>, \<open>Connection\<close>: operations under a deadline, as functions of the completion handlers that ran
    and as steps of the event loop, and \<open>HandleConnection\<close>, whose result is the list of its actions:
    handler calls, audit lines, frames.
  \<^item> \<open>Config\<close>, \<open>Server\<close>: the settings, \<open>Start\<close>, \<open>Stop\<close>, \<open>Run\<close>, \<open>AbortNetwork\<close>, the world script, and the worker
    and the main thread as a step relation. The worker goes through a connection in steps: the handlers
    of the event loop during the reads and the write, the parsing, the call of the request handler and
    its return. At its end it has done what \<open>HandleConnection\<close> does (\<open>way_invariant\<close>).
  \<^item> This theory: what a recovery and a check do over the whole bridge.

  \<^bold>\<open>State and operations.\<close> A C++ structure is a record, an enumeration a datatype, a machine integer a
  word of its width. The parser's position is the rest of the input; a \<open>bool\<close> method with an output
  parameter returns an option. A method under the mutex is one step. An error, a thrown exception and an early return
  are values: \<open>ProtocolError\<close> in the result of the parser, \<open>Response\<close> for the handlers, \<open>exn\<close> for
  exceptions.

  \<^bold>\<open>Termination and bounds.\<close> No definition needs fuel but \<open>walk_pages\<close>, which takes one unit for each page; the
  number of GUIDs plus one is enough, and the theorem says so. The mutually recursive skipper of nested
  JSON values ends because each call leaves less input or less depth. Waiting is modelled by steps: the
  deadline of 5000 ms and the grace of 250 ms are guards on the steady clock, and the liveness theorem
  says that the dispatcher is never blocked but by a clock that has not got there yet. Stopping has a
  rank of at most fifteen, and no step of it waits for a client or a deadline of the network: the socket
  and the listener that \<open>AbortNetwork\<close> closes end the waits.

  \<^bold>\<open>Parameters and their assumptions.\<close> SHA-256, the environment, the listener, the event loop of asio, the queue
  of the world thread, the clocks and every call into the game are arguments of the definitions. The
  theorems assume nothing of them, except that \<open>anomalies_answer\<close> assumes that a snapshot's count is within its
  array and that the sum of the counts fits its 64 bit counter.

  \<^bold>\<open>Not modelled.\<close> The registration of the world script (\<open>mod_playerbots_mcp_loader.cpp\<close>), log lines, the
  Python sidecar, the tests, the repository checks and the build files. The destructor of the server is
  \<open>Stop\<close>; its constructors choose between the dispatcher and a given handler and are covered by the handler being a parameter.
  Lock acquisition, memory ordering and allocation failure are below the model. An
  exception of the audit sink would leave the worker and is not modelled. The four random numbers of a
  lease token are drawn from left to right, an order C++ leaves open. The teleport's coordinates use one
  rounding per operation, without contraction to fused operations; the text of the distance it reports
  is that of the stream's default precision of six digits.
\<close>

section \<open>The components together\<close>

text \<open>A run of the bridge for the witnesses: a request that comes while the gate is closed.\<close>

definition bridge_env :: "typed_request \<Rightarrow> nat dispatch_env" where
  "bridge_env t = sample_env\<lparr>the_request := concretize 7 t, the_handler := ExecuteVerificationOnWorldThread sample_api None\<rparr>"

definition refused_state :: "typed_request \<Rightarrow> nat dispatch_state" where
  "refused_state t = (dispatch_start False 5 0)\<lparr>socket := S_Answered (shutdown_answer 5 (concretize 7 t))\<rparr>"

lemma refused_run: "reaches (bridge_env t) ([] @ [E_Enter]) (refused_state t)"
proof -
  have "reaches (bridge_env t) [] (dispatch_start False 5 0)" by (rule start)
  from move [OF this enter_closed [of "dispatch_start False 5 0" "bridge_env t"]] show ?thesis
    by (simp add: bridge_env_def refused_state_def)
qed

text \<open>
  C2: a recovery over the whole bridge. A client sends a valid recover request in one frame, the handler
  is the dispatcher with the world thread's handlers behind it, and any interleaving of the two threads
  led to its answer. Then exactly one audit line is written, it is the serialised record of that very
  request and bot, and the one frame sent back decodes to a response whose result is that same
  line; when the record claims that the bot was moved, the request ran.
\<close>

theorem recover_served:
  assumes "valid_request (TRecover guid)" and "ConstantTimeTokenDigestEquals (sha256 token) digest"
    and "EncodeFrame (render_object (wire rid token (TRecover guid))) = Some frame"
    and "reaches env tr s" and "socket s = S_Answered a"
    and "the_request env = concretize rid (TRecover guid)"
    and "the_handler env = ExecuteVerificationOnWorldThread api persistence"
    and "handler (concretize rid (TRecover guid)) = Inr a"
  shows "\<exists>record out. HandleConnection sha256 digest handler (frame_connection frame now) =
      [Handle (concretize rid (TRecover guid)), AuditLine (SerializeRecoveryAuditRecord record), Send out] \<and>
    audit_requestId record = Some rid \<and> audit_botGuid record = Some guid \<and>
    ok a \<and> resultJson a = SerializeRecoveryAuditRecord record \<and>
    payload (DecodeFrame out) = Some (SerializeResponse rid a) \<and>
    (mutationState record = MS_Completed \<longrightarrow> E_Run \<in> set tr)"
proof -
  have op: "operation (the_request env) = Op_Recover" using assms(6) by simp
  from recovery_audited [OF assms(4,5,7) op] obtain r where r: "recoveryAudit a = Some r"
    "audit_requestId r = Some rid" "audit_botGuid r = Some guid" "ok a"
    "resultJson a = SerializeRecoveryAuditRecord r"
    unfolding audits_def assms(6) by auto
  obtain out where out: "SendResponse rid a = [Send out]" "EncodeFrame (SerializeResponse rid a) = Some out"
    using SendResponse_frame by blast
  have "HandleConnection sha256 digest handler (frame_connection frame now) =
      [Handle (concretize rid (TRecover guid)), AuditLine (SerializeRecoveryAuditRecord r), Send out]"
    unfolding request_served_run [of "TRecover guid" sha256 token digest rid frame handler now, OF assms(1-3)] answer_request_def Let_def
      concretize_id assms(8) sum.case r(1) option.case out(1) EmitAudit_def by simp
  moreover have "mutationState r = MS_Completed \<longrightarrow> E_Run \<in> set tr"
    using completed_mutation_ran [OF assms(4,5) op r(1)] by blast
  ultimately show ?thesis using r(2-5) frames.decode_encode [OF out(2)] by blast
qed

theorem recover_served_witness:
  "\<exists>frame acts. HandleConnection sample_digest sample_token
      (\<lambda>req. Inr (shutdown_answer 5 req)) (frame_connection frame 0) =
     Handle (concretize 7 (TRecover 12)) # acts"
proof -
  let ?t = "TRecover 12"
  obtain frame where f: "EncodeFrame (render_object (wire 7 ''secret'' ?t)) = Some frame"
    using sample_frame [of _ "''secret''"] by fastforce
  have v: "valid_request ?t" by simp
  show ?thesis
    using recover_served [of 12 sample_digest "''secret''" sample_token 7 frame "bridge_env ?t" "[] @ [E_Enter]"
        "refused_state ?t" "shutdown_answer 5 (concretize 7 ?t)" sample_api None
        "\<lambda>req. Inr (shutdown_answer 5 req)" 0, OF v sample_authentic f refused_run]
    by (auto simp: bridge_env_def refused_state_def)
qed

text \<open>
  C4: a check over the whole bridge. A client sends a valid check in one frame, the handler is the
  dispatcher with the world thread's handlers behind it, and any interleaving of the two threads led to
  its answer. Then the one frame sent back decodes to that answer under the client's request id, nothing
  is audited, and the answer is either a refusal (shutting down, queue full, timed out) or says whether
  the bot satisfied the condition in the world at the moment the request was executed.
\<close>

theorem check_served:
  assumes "valid_request (TCheck guid c)" and "ConstantTimeTokenDigestEquals (sha256 token) digest"
    and "EncodeFrame (render_object (wire rid token (TCheck guid c))) = Some frame"
    and "reaches env tr s" and "socket s = S_Answered a"
    and "the_request env = concretize rid (TCheck guid c)"
    and "the_handler env = ExecuteVerificationOnWorldThread api persistence"
    and "handler (concretize rid (TCheck guid c)) = Inr a"
  shows "\<exists>out. HandleConnection sha256 digest handler (frame_connection frame now) =
      [Handle (concretize rid (TCheck guid c)), Send out] \<and>
    payload (DecodeFrame out) = Some (SerializeResponse rid a) \<and>
    ((\<exists>code \<in> {EC_Shutdown, EC_QueueFull, EC_Timeout}. a = Failure code []) \<or>
     (\<exists>tr1 s1 tr2. tr = tr1 @ E_Run # tr2 \<and> reaches env tr1 s1 \<and> a = check_answer api (world s1) guid c))"
proof -
  have valid: "valid_condition c" using assms(1) by simp
  have "produced env tr r \<Longrightarrow> \<exists>tr1 s1 tr2. tr = tr1 @ E_Run # tr2 \<and> reaches env tr1 s1 \<and>
      r = check_answer api (world s1) guid c" for r
    unfolding produced_def assms(6,7) check_runs [OF valid] execution_response_def fst_conv sum.case by blast
  with origin_invariant [OF assms(4)] assms(5,6) have origin:
    "(\<exists>code \<in> {EC_Shutdown, EC_QueueFull, EC_Timeout}. a = Failure code []) \<or>
     (\<exists>tr1 s1 tr2. tr = tr1 @ E_Run # tr2 \<and> reaches env tr1 s1 \<and> a = check_answer api (world s1) guid c)"
    by (auto simp: origin_inv_def answer_defs)
  then have unaudited: "recoveryAudit a = None"
    by (auto simp: check_answer_def Let_def split: option.splits)
  obtain out where out: "SendResponse rid a = [Send out]" "EncodeFrame (SerializeResponse rid a) = Some out"
    using SendResponse_frame by blast
  have "operation (concretize rid (TCheck guid c)) = Op_Check" by simp
  then have "HandleConnection sha256 digest handler (frame_connection frame now) =
      [Handle (concretize rid (TCheck guid c)), Send out]"
    unfolding request_served_run [of "TCheck guid c" sha256 token digest rid frame handler now, OF assms(1-3)]
      answer_request_def Let_def concretize_id assms(8) sum.case unaudited option.case out(1) by simp
  with origin out show ?thesis using frames.decode_encode [OF out(2)] by blast
qed

theorem check_served_witness:
  "\<exists>frame out. HandleConnection sample_digest sample_token
      (\<lambda>req. Inr (shutdown_answer 5 req)) (frame_connection frame 0) =
     [Handle (concretize 7 (TCheck 12 (CMap 1))), Send out]"
proof -
  let ?t = "TCheck 12 (CMap 1)"
  obtain frame where f: "EncodeFrame (render_object (wire 7 ''secret'' ?t)) = Some frame"
    using sample_frame [of _ "''secret''"] by fastforce
  have v: "valid_request ?t" by simp
  show ?thesis
    using check_served [of 12 "CMap 1" sample_digest "''secret''" sample_token 7 frame "bridge_env ?t"
        "[] @ [E_Enter]" "refused_state ?t" "shutdown_answer 5 (concretize 7 ?t)" sample_api None
        "\<lambda>req. Inr (shutdown_answer 5 req)" 0, OF v sample_authentic f refused_run]
    by (auto simp: bridge_env_def refused_state_def)
qed

end
